theory Spec2Isabelle
  imports Complex_Main "HOL-Library.Product_Lexorder"
begin

section \<open>Values, errors and tensors\<close>

text \<open>
  The losses of \<^verbatim>\<open>mmpose/models/losses/mse_loss.py\<close> are embedded over a small model
  of the tensor operations they call. Tensor elements are real numbers: rounding,
  overflow and infinities of 32-bit floats are outside the model. The one non-finite
  value the code can produce from finite inputs, the mean of an empty tensor, is kept
  as \<open>NaN\<close>. A Python exception is a value \<open>Inl e\<close> of the result type.
\<close>

datatype error =
  AssertionError | ValueError | IndexError | RuntimeError | ZeroDivisionError | TypeError

datatype tfloat = NaN | Fin real

definition bindE :: "error + 'a \<Rightarrow> ('a \<Rightarrow> error + 'b) \<Rightarrow> error + 'b" where
  "bindE m f = (case m of Inl e \<Rightarrow> Inl e | Inr x \<Rightarrow> f x)"

text \<open>Arithmetic on results: \<open>NaN\<close> propagates.\<close>

fun tadd :: "tfloat \<Rightarrow> tfloat \<Rightarrow> tfloat" where
  "tadd (Fin a) (Fin b) = Fin (a + b)"
| "tadd _ _ = NaN"

fun tmul :: "tfloat \<Rightarrow> real \<Rightarrow> tfloat" where
  "tmul (Fin a) c = Fin (a * c)"
| "tmul NaN c = NaN"

text \<open>
  Division of a tensor value by a Python integer. A zero divisor gives an infinity or
  \<open>NaN\<close> in torch; the model has no infinities and returns \<open>NaN\<close> there.
\<close>

fun tdiv :: "tfloat \<Rightarrow> nat \<Rightarrow> tfloat" where
  "tdiv (Fin a) n = (if n = 0 then NaN else Fin (a / real n))"
| "tdiv NaN n = NaN"

text \<open>
  A tensor is its shape and its elements in row-major order, as a contiguous torch
  tensor stores them. A well-formed tensor has as many elements as its shape says.
\<close>

record 'a tensor =
  shape :: "nat list"
  data :: "'a list"

definition wf_tensor :: "'a tensor \<Rightarrow> bool" where
  "wf_tensor t = (length (data t) = prod_list (shape t))"

definition ndim :: "'a tensor \<Rightarrow> nat" where
  "ndim t = length (shape t)"

text \<open>\<^verbatim>\<open>t.size(d)\<close>\<close>

definition tsize :: "'a tensor \<Rightarrow> nat \<Rightarrow> error + nat" where
  "tsize t d = (if d < ndim t then Inr (shape t ! d) else Inl IndexError)"

text \<open>The element \<^verbatim>\<open>t[i0, i1, ...]\<close> of a tensor, by its row-major offset.\<close>

definition flat_index :: "nat list \<Rightarrow> nat list \<Rightarrow> nat" where
  "flat_index s idx = foldl (\<lambda>acc (d, i). acc * d + i) 0 (zip s idx)"

definition item :: "'a tensor \<Rightarrow> nat list \<Rightarrow> 'a" where
  "item t idx = data t ! flat_index (shape t) idx"

text \<open>\<^verbatim>\<open>t.unsqueeze(-1)\<close>\<close>

definition unsqueeze_last :: "'a tensor \<Rightarrow> 'a tensor" where
  "unsqueeze_last t = t\<lparr>shape := shape t @ [1]\<rparr>"

subsection \<open>Broadcasting\<close>

text \<open>
  Shapes are aligned at their last dimension; two sizes are compatible when they are
  equal or one of them is 1. An incompatible pair raises \<^verbatim>\<open>RuntimeError\<close>.
\<close>

fun broadcast_rev :: "nat list \<Rightarrow> nat list \<Rightarrow> error + nat list" where
  "broadcast_rev [] ys = Inr ys"
| "broadcast_rev xs [] = Inr xs"
| "broadcast_rev (x # xs) (y # ys) =
     (if x = y \<or> y = 1 then bindE (broadcast_rev xs ys) (\<lambda>r. Inr (x # r))
      else if x = 1 then bindE (broadcast_rev xs ys) (\<lambda>r. Inr (y # r))
      else Inl RuntimeError)"

definition broadcast_shapes :: "nat list \<Rightarrow> nat list \<Rightarrow> error + nat list" where
  "broadcast_shapes a b = bindE (broadcast_rev (rev a) (rev b)) (\<lambda>r. Inr (rev r))"

definition chunk :: "nat \<Rightarrow> nat \<Rightarrow> 'a list \<Rightarrow> 'a list" where
  "chunk n i xs = take n (drop (i * n) xs)"

text \<open>
  \<open>expand ds es xs\<close>: the elements \<open>xs\<close> of a tensor of shape \<open>ds\<close> repeated to the shape
  \<open>es\<close> of the same rank, where every size of \<open>ds\<close> is the size of \<open>es\<close> or 1.
\<close>

fun expand :: "nat list \<Rightarrow> nat list \<Rightarrow> 'a list \<Rightarrow> 'a list" where
  "expand (d # ds) (e # es) xs =
     (if d = e then concat (map (\<lambda>i. expand ds es (chunk (prod_list ds) i xs)) [0..<d])
      else concat (replicate e (expand ds es xs)))"
| "expand ds es xs = xs"

declare expand.simps [simp del]

definition expand_to :: "nat list \<Rightarrow> 'a tensor \<Rightarrow> 'a list" where
  "expand_to s t = expand (replicate (length s - ndim t) 1 @ shape t) s (data t)"

definition binop :: "('a \<Rightarrow> 'b \<Rightarrow> 'c) \<Rightarrow> 'a tensor \<Rightarrow> 'b tensor \<Rightarrow> error + 'c tensor" where
  "binop f a b = bindE (broadcast_shapes (shape a) (shape b))
     (\<lambda>s. Inr \<lparr>shape = s, data = map2 f (expand_to s a) (expand_to s b)\<rparr>)"

text \<open>\<^verbatim>\<open>a * b\<close> on tensors\<close>

definition mul :: "real tensor \<Rightarrow> real tensor \<Rightarrow> error + real tensor" where
  "mul a b = binop (\<lambda>x y. x * y) a b"

subsection \<open>\<^verbatim>\<open>nn.MSELoss\<close>\<close>

text \<open>
  \<^verbatim>\<open>nn.MSELoss(reduction='none')\<close> broadcasts its arguments and squares the
  differences; the default \<^verbatim>\<open>reduction='mean'\<close> then takes the mean of all elements,
  which is \<open>NaN\<close> for a tensor with no elements.
\<close>

definition mean :: "real list \<Rightarrow> tfloat" where
  "mean xs = (if xs = [] then NaN else Fin (sum_list xs / real (length xs)))"

definition MSELoss_none :: "real tensor \<Rightarrow> real tensor \<Rightarrow> error + real tensor" where
  "MSELoss_none a b = binop (\<lambda>x y. (x - y)\<^sup>2) a b"

definition MSELoss_mean :: "real tensor \<Rightarrow> real tensor \<Rightarrow> error + tfloat" where
  "MSELoss_mean a b = bindE (MSELoss_none a b) (\<lambda>t. Inr (mean (data t)))"

section \<open>KeypointMSELoss\<close>

record loss_module =
  use_target_weight :: bool
  loss_weight :: real

text \<open>
  \<^verbatim>\<open>KeypointMSELoss.forward\<close>. The argument \<open>target_weights\<close> is \<open>None\<close> for Python's
  \<^verbatim>\<open>None\<close>. The loop of \<^verbatim>\<open>unsqueeze(-1)\<close> runs \<open>output.ndim - target_weights.ndim\<close> times.
\<close>

definition KeypointMSELoss_forward ::
  "loss_module \<Rightarrow> real tensor \<Rightarrow> real tensor \<Rightarrow> real tensor option \<Rightarrow> error + tfloat" where
  "KeypointMSELoss_forward self output target target_weights =
     (if use_target_weight self then
        (case target_weights of
           None \<Rightarrow> Inl AssertionError
         | Some tw \<Rightarrow>
             if \<not> ndim output \<ge> ndim tw then Inl AssertionError
             else
               let tw' = (unsqueeze_last ^^ (ndim output - ndim tw)) tw in
               bindE (mul output tw') (\<lambda>a.
               bindE (mul target tw') (\<lambda>b.
               bindE (MSELoss_mean a b) (\<lambda>loss.
               Inr (tmul loss (loss_weight self))))))
      else
        bindE (MSELoss_mean output target) (\<lambda>loss.
        Inr (tmul loss (loss_weight self))))"


section \<open>More tensor operations\<close>

text \<open>A Python loop over a list with a state, stopping at the first exception.\<close>

fun foldE :: "('s \<Rightarrow> 'a \<Rightarrow> error + 's) \<Rightarrow> 's \<Rightarrow> 'a list \<Rightarrow> error + 's" where
  "foldE f s [] = Inr s"
| "foldE f s (x # xs) = bindE (f s x) (\<lambda>s'. foldE f s' xs)"

fun mapE :: "('a \<Rightarrow> error + 'b) \<Rightarrow> 'a list \<Rightarrow> error + 'b list" where
  "mapE f [] = Inr []"
| "mapE f (x # xs) = bindE (f x) (\<lambda>y. bindE (mapE f xs) (\<lambda>ys. Inr (y # ys)))"

text \<open>Indexing a Python tuple or list by a non-negative index.\<close>

definition py_index :: "'a list \<Rightarrow> nat \<Rightarrow> error + 'a" where
  "py_index xs i = (if i < length xs then Inr (xs ! i) else Inl IndexError)"

text \<open>
  \<^verbatim>\<open>t.reshape((b, c, -1))\<close>: the number of elements must be a multiple of \<open>b * c\<close>, and
  the free dimension cannot be inferred when \<open>b * c = 0\<close>.
\<close>

definition reshape3 :: "nat \<Rightarrow> nat \<Rightarrow> 'a tensor \<Rightarrow> error + 'a tensor" where
  "reshape3 b c t =
     (if b * c = 0 \<or> length (data t) mod (b * c) \<noteq> 0 then Inl RuntimeError
      else Inr \<lparr>shape = [b, c, length (data t) div (b * c)], data = data t\<rparr>)"

text \<open>The elements of \<^verbatim>\<open>t[:, j]\<close> for a tensor of shape \<open>b # c # rest\<close>.\<close>

definition column :: "nat \<Rightarrow> nat \<Rightarrow> nat list \<Rightarrow> nat \<Rightarrow> 'a list \<Rightarrow> 'a list" where
  "column b c rest j xs = concat (map (\<lambda>i. chunk (prod_list rest) (i * c + j) xs) [0..<b])"

text \<open>\<^verbatim>\<open>t[:, j]\<close>\<close>

definition select1 :: "'a tensor \<Rightarrow> nat \<Rightarrow> error + 'a tensor" where
  "select1 t j =
     (case shape t of
        b # c # rest \<Rightarrow>
          if j < c then Inr \<lparr>shape = b # rest, data = column b c rest j (data t)\<rparr>
          else Inl IndexError
      | _ \<Rightarrow> Inl IndexError)"

text \<open>\<^verbatim>\<open>t[i]\<close>\<close>

definition select0 :: "'a tensor \<Rightarrow> nat \<Rightarrow> error + 'a tensor" where
  "select0 t i =
     (case shape t of
        b # rest \<Rightarrow>
          if i < b then Inr \<lparr>shape = rest, data = chunk (prod_list rest) i (data t)\<rparr>
          else Inl IndexError
      | [] \<Rightarrow> Inl IndexError)"

text \<open>
  \<^verbatim>\<open>t.split(1, 1)\<close>: the slices \<^verbatim>\<open>t[:, j:j+1]\<close>; a dimension of size 0 gives the
  tensor itself as the only slice.
\<close>

definition split_1_1 :: "'a tensor \<Rightarrow> error + 'a tensor list" where
  "split_1_1 t =
     (case shape t of
        b # c # rest \<Rightarrow>
          Inr (if c = 0 then [t]
               else map (\<lambda>j. \<lparr>shape = b # 1 # rest, data = column b c rest j (data t)\<rparr>) [0..<c])
      | _ \<Rightarrow> Inl IndexError)"

text \<open>\<^verbatim>\<open>t.squeeze()\<close> drops every dimension of size 1.\<close>

definition squeeze :: "'a tensor \<Rightarrow> 'a tensor" where
  "squeeze t = t\<lparr>shape := filter (\<lambda>d. d \<noteq> 1) (shape t)\<rparr>"

text \<open>\<^verbatim>\<open>t.unsqueeze(dim=d)\<close>, and \<^verbatim>\<open>None\<close> at position \<open>d\<close> of an index.\<close>

definition unsqueeze :: "nat \<Rightarrow> 'a tensor \<Rightarrow> error + 'a tensor" where
  "unsqueeze d t =
     (if d \<le> ndim t then Inr (t\<lparr>shape := take d (shape t) @ [1] @ drop d (shape t)\<rparr>)
      else Inl IndexError)"

section \<open>CombinedTargetMSELoss\<close>

text \<open>
  The weighting of the classification maps, shared by \<^verbatim>\<open>CombinedTargetMSELoss\<close> and
  \<^verbatim>\<open>CombinedTargetIOULoss\<close>:
  \<^verbatim>\<open>target_weight = target_weights[:, idx, None]\<close>, then both maps are multiplied by it.
  Subscripting \<^verbatim>\<open>None\<close> raises \<^verbatim>\<open>TypeError\<close>.
\<close>

definition apply_target_weight ::
  "loss_module \<Rightarrow> real tensor option \<Rightarrow> nat \<Rightarrow> real tensor \<Rightarrow> real tensor
    \<Rightarrow> error + real tensor \<times> real tensor" where
  "apply_target_weight self target_weights idx heatmap_pred heatmap_gt =
     (if use_target_weight self then
        (case target_weights of
           None \<Rightarrow> Inl TypeError
         | Some tw \<Rightarrow>
             bindE (select1 tw idx) (\<lambda>c.
             bindE (unsqueeze 1 c) (\<lambda>target_weight.
             bindE (mul heatmap_pred target_weight) (\<lambda>heatmap_pred'.
             bindE (mul heatmap_gt target_weight) (\<lambda>heatmap_gt'.
             Inr (heatmap_pred', heatmap_gt'))))))
      else Inr (heatmap_pred, heatmap_gt))"

text \<open>
  The three maps of keypoint \<open>idx\<close> from the split channels, squeezed, the classification
  maps weighted: \<open>((heatmap_pred, heatmap_gt), (offset_x_pred, offset_x_gt),
  (offset_y_pred, offset_y_gt))\<close>.
\<close>

definition joint_maps ::
  "loss_module \<Rightarrow> real tensor list \<Rightarrow> real tensor list \<Rightarrow> real tensor option \<Rightarrow> nat
    \<Rightarrow> error + (real tensor \<times> real tensor) \<times> (real tensor \<times> real tensor) \<times> (real tensor \<times> real tensor)" where
  "joint_maps self heatmaps_pred heatmaps_gt target_weights idx =
     bindE (py_index heatmaps_pred (idx * 3)) (\<lambda>p0.
     bindE (py_index heatmaps_gt (idx * 3)) (\<lambda>g0.
     bindE (py_index heatmaps_pred (idx * 3 + 1)) (\<lambda>p1.
     bindE (py_index heatmaps_gt (idx * 3 + 1)) (\<lambda>g1.
     bindE (py_index heatmaps_pred (idx * 3 + 2)) (\<lambda>p2.
     bindE (py_index heatmaps_gt (idx * 3 + 2)) (\<lambda>g2.
     bindE (apply_target_weight self target_weights idx (squeeze p0) (squeeze g0)) (\<lambda>hm.
     Inr (hm, (squeeze p1, squeeze g1), (squeeze p2, squeeze g2)))))))))"

text \<open>\<^verbatim>\<open>self.criterion(heatmap_gt * offset_pred, heatmap_gt * offset_gt)\<close>\<close>

definition regression_loss :: "real tensor \<Rightarrow> real tensor \<Rightarrow> real tensor \<Rightarrow> error + tfloat" where
  "regression_loss heatmap_gt offset_pred offset_gt =
     bindE (mul heatmap_gt offset_pred) (\<lambda>a.
     bindE (mul heatmap_gt offset_gt) (\<lambda>b.
     MSELoss_mean a b))"

text \<open>One iteration of the loop over the keypoints: the loss after keypoint \<open>idx\<close>.\<close>

definition CombinedTargetMSELoss_joint ::
  "loss_module \<Rightarrow> real tensor list \<Rightarrow> real tensor list \<Rightarrow> real tensor option
    \<Rightarrow> tfloat \<Rightarrow> nat \<Rightarrow> error + tfloat" where
  "CombinedTargetMSELoss_joint self heatmaps_pred heatmaps_gt target_weights loss idx =
     bindE (joint_maps self heatmaps_pred heatmaps_gt target_weights idx)
       (\<lambda>((heatmap_pred, heatmap_gt), (offset_x_pred, offset_x_gt), (offset_y_pred, offset_y_gt)).
     bindE (MSELoss_mean heatmap_pred heatmap_gt) (\<lambda>c.
     bindE (regression_loss heatmap_gt offset_x_pred offset_x_gt) (\<lambda>rx.
     bindE (regression_loss heatmap_gt offset_y_pred offset_y_gt) (\<lambda>ry.
     Inr (tadd (tadd (tadd loss (tmul c (1 / 2))) (tmul rx (1 / 2))) (tmul ry (1 / 2)))))))"

text \<open>
  \<^verbatim>\<open>CombinedTargetMSELoss.forward\<close>. With fewer than three channels the loop does not
  run, \<open>loss\<close> is still the Python float \<open>0.\<close> and the final division by
  \<open>num_joints = 0\<close> raises \<^verbatim>\<open>ZeroDivisionError\<close>.
\<close>

definition CombinedTargetMSELoss_forward ::
  "loss_module \<Rightarrow> real tensor \<Rightarrow> real tensor \<Rightarrow> real tensor option \<Rightarrow> error + tfloat" where
  "CombinedTargetMSELoss_forward self output target target_weights =
     bindE (tsize output 0) (\<lambda>batch_size.
     bindE (tsize output 1) (\<lambda>num_channels.
     bindE (reshape3 batch_size num_channels output) (\<lambda>ro.
     bindE (split_1_1 ro) (\<lambda>heatmaps_pred.
     bindE (reshape3 batch_size num_channels target) (\<lambda>rt.
     bindE (split_1_1 rt) (\<lambda>heatmaps_gt.
     let num_joints = num_channels div 3 in
     bindE (foldE (CombinedTargetMSELoss_joint self heatmaps_pred heatmaps_gt target_weights)
              (Fin 0) [0..<num_joints]) (\<lambda>loss.
     if num_joints = 0 then Inl ZeroDivisionError
     else Inr (tmul (tdiv loss num_joints) (loss_weight self)))))))))"

section \<open>KeypointOHKMMSELoss\<close>

record ohkm_module = loss_module +
  topk :: nat

text \<open>\<^verbatim>\<open>KeypointOHKMMSELoss.__init__\<close> with its assertion \<^verbatim>\<open>topk > 0\<close>.\<close>

definition KeypointOHKMMSELoss_init :: "bool \<Rightarrow> nat \<Rightarrow> real \<Rightarrow> error + ohkm_module" where
  "KeypointOHKMMSELoss_init use_tw k lw =
     (if \<not> k > 0 then Inl AssertionError
      else Inr \<lparr>use_target_weight = use_tw, loss_weight = lw, topk = k\<rparr>)"

text \<open>
  \<^verbatim>\<open>loss.mean(dim=(1, 2))\<close> on a tensor of shape \<open>s0 # s1 # s2 # rest\<close>: the element at
  \<open>(i, j)\<close> of the result is the mean over the \<open>s1 * s2\<close> positions \<open>m\<close> of the
  element at \<open>(i, m, j)\<close>.
\<close>

definition mean_1_2 :: "real tensor \<Rightarrow> error + tfloat tensor" where
  "mean_1_2 t =
     (case shape t of
        s0 # s1 # s2 # rest \<Rightarrow>
          Inr \<lparr>shape = s0 # rest,
               data = concat (map (\<lambda>i. map (\<lambda>j.
                        mean (map (\<lambda>m. data t ! ((i * (s1 * s2) + m) * prod_list rest + j))
                                [0..<s1 * s2]))
                        [0..<prod_list rest]) [0..<s0])\<rparr>
      | _ \<Rightarrow> Inl IndexError)"

text \<open>
  \<^verbatim>\<open>torch.cat(ts, dim=1)\<close>: the list must not be empty, and the tensors must agree in
  every dimension but the second.
\<close>

definition cat1 :: "'a tensor list \<Rightarrow> error + 'a tensor" where
  "cat1 ts =
     (case ts of
        [] \<Rightarrow> Inl RuntimeError
      | t # _ \<Rightarrow>
          (case shape t of
             b # c # rest \<Rightarrow>
               if list_all (\<lambda>u. length (shape u) \<ge> 2 \<and> hd (shape u) = b \<and> drop 2 (shape u) = rest) ts
               then Inr \<lparr>shape = b # sum_list (map (\<lambda>u. shape u ! 1) ts) # rest,
                         data = concat (map (\<lambda>i. concat (map (\<lambda>u.
                                  chunk (shape u ! 1 * prod_list rest) i (data u)) ts)) [0..<b])\<rparr>
               else Inl RuntimeError
           | _ \<Rightarrow> Inl IndexError))"

text \<open>
  \<^verbatim>\<open>torch.topk(sub_loss, k, dim=0, sorted=False)\<close> on the values of one column: the
  indices of \<open>k\<close> largest values. torch orders \<open>NaN\<close> above every number. The order
  among equal values is not fixed by torch; the model takes the later index first.
\<close>

definition tkey :: "tfloat \<Rightarrow> bool \<times> real" where
  "tkey v = (case v of NaN \<Rightarrow> (True, 0) | Fin r \<Rightarrow> (False, r))"

definition topk_indices :: "nat \<Rightarrow> tfloat list \<Rightarrow> nat list" where
  "topk_indices k xs = take k (rev (sort_key (\<lambda>i. tkey (xs ! i)) [0..<length xs]))"

definition tsum :: "tfloat list \<Rightarrow> tfloat" where
  "tsum xs = foldl tadd (Fin 0) xs"

text \<open>
  \<^verbatim>\<open>torch.sum(torch.gather(sub_loss, 0, topk_idx))\<close> for \<open>sub_loss\<close> of shape \<open>s\<close>: the
  largest \<open>k\<close> values along dimension 0 are taken in every column and all are summed.
  A 0-dimensional \<open>sub_loss\<close> counts as a single value. \<^verbatim>\<open>torch.topk\<close> raises when \<open>k\<close>
  exceeds the size of dimension 0.
\<close>

definition topk_sum :: "nat \<Rightarrow> tfloat tensor \<Rightarrow> error + tfloat" where
  "topk_sum k sub_loss =
     (let (n, r) = (case shape sub_loss of [] \<Rightarrow> (1, 1) | n # rest \<Rightarrow> (n, prod_list rest)) in
      if k > n then Inl RuntimeError
      else Inr (tsum (concat (map (\<lambda>j.
             let col = map (\<lambda>m. data sub_loss ! (m * r + j)) [0..<n] in
             map (\<lambda>i. col ! i) (topk_indices k col)) [0..<r]))))"

text \<open>
  \<^verbatim>\<open>KeypointOHKMMSELoss._ohkm\<close>. For an empty batch \<open>ohkm_loss\<close> is still the Python
  float \<open>0.\<close> when it is divided by \<open>B = 0\<close>, which raises \<^verbatim>\<open>ZeroDivisionError\<close>.
\<close>

definition KeypointOHKMMSELoss_ohkm :: "ohkm_module \<Rightarrow> tfloat tensor \<Rightarrow> error + tfloat" where
  "KeypointOHKMMSELoss_ohkm self losses =
     bindE (tsize losses 0) (\<lambda>B.
     bindE (foldE (\<lambda>ohkm_loss i.
              bindE (select0 losses i) (\<lambda>sub_loss.
              bindE (topk_sum (topk self) sub_loss) (\<lambda>s.
              Inr (tadd ohkm_loss (tdiv s (topk self))))))
            (Fin 0) [0..<B]) (\<lambda>ohkm_loss.
     if B = 0 then Inl ZeroDivisionError else Inr (tdiv ohkm_loss B)))"

text \<open>The body of the loop over the keypoints: the unreduced loss of keypoint \<open>idx\<close>.\<close>

definition KeypointOHKMMSELoss_keypoint ::
  "ohkm_module \<Rightarrow> real tensor \<Rightarrow> real tensor \<Rightarrow> real tensor option \<Rightarrow> nat
    \<Rightarrow> error + real tensor" where
  "KeypointOHKMMSELoss_keypoint self output target target_weights idx =
     (if use_target_weight self then
        (case target_weights of
           None \<Rightarrow> Inl TypeError
         | Some tw \<Rightarrow>
             bindE (select1 tw idx) (\<lambda>c.
             bindE (unsqueeze 1 c) (\<lambda>c'.
             bindE (unsqueeze 2 c') (\<lambda>target_weight.
             bindE (select1 output idx) (\<lambda>oi.
             bindE (mul oi target_weight) (\<lambda>a.
             bindE (select1 target idx) (\<lambda>ti.
             bindE (mul ti target_weight) (\<lambda>b.
             MSELoss_none a b))))))))
      else
        bindE (select1 output idx) (\<lambda>oi.
        bindE (select1 target idx) (\<lambda>ti.
        MSELoss_none oi ti)))"

text \<open>\<^verbatim>\<open>KeypointOHKMMSELoss.forward\<close>\<close>

definition KeypointOHKMMSELoss_forward ::
  "ohkm_module \<Rightarrow> real tensor \<Rightarrow> real tensor \<Rightarrow> real tensor option \<Rightarrow> error + tfloat" where
  "KeypointOHKMMSELoss_forward self output target target_weights =
     bindE (tsize output 1) (\<lambda>num_keypoints.
     if num_keypoints < topk self then Inl ValueError
     else
       bindE (mapE (KeypointOHKMMSELoss_keypoint self output target target_weights)
                [0..<num_keypoints]) (\<lambda>losses.
       bindE (mapE (\<lambda>loss. bindE (mean_1_2 loss) (unsqueeze 1)) losses) (\<lambda>losses.
       bindE (cat1 losses) (\<lambda>losses.
       bindE (KeypointOHKMMSELoss_ohkm self losses) (\<lambda>l.
       Inr (tmul l (loss_weight self)))))))"

section \<open>CombinedTargetIOULoss\<close>

text \<open>\<^verbatim>\<open>torch.ones(n) * x\<close>\<close>

definition ones_times :: "nat \<Rightarrow> nat \<Rightarrow> real tensor" where
  "ones_times n x = \<lparr>shape = [n], data = replicate n (real x)\<rparr>"

text \<open>\<^verbatim>\<open>a + b\<close>, \<^verbatim>\<open>a > b\<close> and \<^verbatim>\<open>t == c\<close> for a number \<open>c\<close>\<close>

definition add :: "real tensor \<Rightarrow> real tensor \<Rightarrow> error + real tensor" where
  "add a b = binop (\<lambda>x y. x + y) a b"

definition greater :: "real tensor \<Rightarrow> real tensor \<Rightarrow> error + bool tensor" where
  "greater a b = binop (\<lambda>x y. x > y) a b"

definition eq_scalar :: "real tensor \<Rightarrow> real \<Rightarrow> bool tensor" where
  "eq_scalar t c = \<lparr>shape = shape t, data = map (\<lambda>v. v = c) (data t)\<rparr>"

text \<open>
  The truth value of a tensor, as \<^verbatim>\<open>if t:\<close> takes it: only a tensor of exactly one
  element has one, any other raises \<^verbatim>\<open>RuntimeError\<close>.
\<close>

definition tensor_bool :: "bool tensor \<Rightarrow> error + bool" where
  "tensor_bool t = (case data t of [v] \<Rightarrow> Inr v | _ \<Rightarrow> Inl RuntimeError)"

text \<open>
  \<^verbatim>\<open>a[m]\<close> for a boolean mask \<open>m\<close> of the shape of \<open>a\<close>: the selected elements as a
  1-dimensional tensor. The forward function indexes 1-dimensional tensors and tensors
  of the mask's own shape only; a mask of another shape raises \<^verbatim>\<open>IndexError\<close> there.
\<close>

definition mask_index :: "real tensor \<Rightarrow> bool tensor \<Rightarrow> error + real tensor" where
  "mask_index a m =
     (if shape m = shape a
      then Inr \<lparr>shape = [length (filter (\<lambda>v. v) (data m))],
                data = map fst (filter snd (zip (data a) (data m)))\<rparr>
      else Inl IndexError)"

text \<open>
  \<^verbatim>\<open>1 - mask\<close> for a boolean mask: torch does not subtract from a bool tensor and raises
  \<^verbatim>\<open>RuntimeError\<close> (since torch 1.2, where comparisons return bool tensors).
\<close>

definition rsub_bool :: "real \<Rightarrow> bool tensor \<Rightarrow> error + bool tensor" where
  "rsub_bool c m = Inl RuntimeError"

text \<open>\<^verbatim>\<open>torch.stack(ts, dim=-1)\<close>: the tensors must have one shape.\<close>

definition stack_last :: "'a tensor list \<Rightarrow> error + 'a tensor" where
  "stack_last ts =
     (case ts of
        [] \<Rightarrow> Inl RuntimeError
      | t # _ \<Rightarrow>
          if list_all (\<lambda>u. shape u = shape t) ts
          then Inr \<lparr>shape = shape t @ [length ts],
                    data = concat (map (\<lambda>i. map (\<lambda>u. data u ! i) ts) [0..<length (data t)])\<rparr>
          else Inl RuntimeError)"

text \<open>
  \<^verbatim>\<open>torch.cat(ts, dim=0)\<close>: the list must not be empty, and the tensors must agree in
  every dimension but the first.
\<close>

definition cat0 :: "'a tensor list \<Rightarrow> error + 'a tensor" where
  "cat0 ts =
     (case ts of
        [] \<Rightarrow> Inl RuntimeError
      | t # _ \<Rightarrow>
          (case shape t of
             [] \<Rightarrow> Inl RuntimeError
           | _ # rest \<Rightarrow>
               if list_all (\<lambda>u. shape u \<noteq> [] \<and> tl (shape u) = rest) ts
               then Inr \<lparr>shape = sum_list (map (\<lambda>u. hd (shape u)) ts) # rest,
                         data = concat (map data ts)\<rparr>
               else Inl RuntimeError))"

text \<open>
  The two boxes of one location for one pair of offset maps: the corners \<open>(x1, y1)\<close> and
  \<open>(x2, y2)\<close> where the mask holds, and, with \<^verbatim>\<open>1 - mask\<close>, the swapped corners where it
  does not. Both are appended to the list \<open>bbox\<close>.
\<close>

definition location_boxes ::
  "nat \<Rightarrow> nat \<Rightarrow> nat \<Rightarrow> nat \<Rightarrow> real tensor \<Rightarrow> real tensor \<Rightarrow> real tensor list
    \<Rightarrow> error + real tensor list" where
  "location_boxes batch_size H x y offset_x offset_y bbox =
     (let x1 = ones_times batch_size x; y1 = ones_times batch_size y in
      bindE (select1 offset_x (x * H + y)) (\<lambda>ox.
      bindE (add x1 ox) (\<lambda>x2.
      bindE (select1 offset_y (x * H + y)) (\<lambda>oy.
      bindE (add y1 oy) (\<lambda>y2.
      bindE (greater x2 x1) (\<lambda>mask_x.
      bindE (greater y2 y1) (\<lambda>mask_y.
      bindE (mask_index x1 mask_x) (\<lambda>a.
      bindE (mask_index y1 mask_y) (\<lambda>b.
      bindE (mask_index x2 mask_x) (\<lambda>c.
      bindE (mask_index y2 mask_y) (\<lambda>d.
      bindE (stack_last [a, b, c, d]) (\<lambda>t_bbox.
      bindE (rsub_bool 1 mask_x) (\<lambda>nx.
      bindE (mask_index x2 nx) (\<lambda>a'.
      bindE (rsub_bool 1 mask_y) (\<lambda>ny.
      bindE (mask_index y2 ny) (\<lambda>b'.
      bindE (rsub_bool 1 mask_x) (\<lambda>nx'.
      bindE (mask_index x1 nx') (\<lambda>c'.
      bindE (rsub_bool 1 mask_y) (\<lambda>ny'.
      bindE (mask_index y1 ny') (\<lambda>d'.
      bindE (stack_last [a', b', c', d']) (\<lambda>t_bbox'.
      Inr (bbox @ [t_bbox, t_bbox']))))))))))))))))))))))"

text \<open>
  The body of the loops over the locations, on the pair \<open>(bbox_gt, bbox_pred)\<close> of box
  lists. The test \<^verbatim>\<open>if heatmap_gt[:, x * H + y] == 0\<close> takes the truth value of the
  comparison of a whole column of the batch.
\<close>

definition CombinedTargetIOULoss_location ::
  "nat \<Rightarrow> nat \<Rightarrow> real tensor \<Rightarrow> real tensor \<times> real tensor \<Rightarrow> real tensor \<times> real tensor
    \<Rightarrow> real tensor list \<times> real tensor list \<Rightarrow> nat \<times> nat
    \<Rightarrow> error + real tensor list \<times> real tensor list" where
  "CombinedTargetIOULoss_location batch_size H heatmap_gt offset_x offset_y boxes xy =
     (case (boxes, xy, offset_x, offset_y) of
        ((bbox_gt, bbox_pred), (x, y), (offset_x_pred, offset_x_gt), (offset_y_pred, offset_y_gt)) \<Rightarrow>
     bindE (select1 heatmap_gt (x * H + y)) (\<lambda>col.
     bindE (tensor_bool (eq_scalar col 0)) (\<lambda>is_zero.
     if is_zero then Inr (bbox_gt, bbox_pred)
     else
       bindE (location_boxes batch_size H x y offset_x_gt offset_y_gt bbox_gt) (\<lambda>bbox_gt'.
       bindE (location_boxes batch_size H x y offset_x_pred offset_y_pred bbox_pred) (\<lambda>bbox_pred'.
       Inr (bbox_gt', bbox_pred'))))))"

text \<open>
  One iteration of the loop over the keypoints. \<open>iou_loss\<close> stands for the module
  \<^verbatim>\<open>GIoULoss\<close>, which is imported from elsewhere in the package.
\<close>

definition CombinedTargetIOULoss_joint ::
  "loss_module \<Rightarrow> (real tensor \<Rightarrow> real tensor \<Rightarrow> error + tfloat) \<Rightarrow> nat \<Rightarrow> nat \<Rightarrow> nat
    \<Rightarrow> real tensor list \<Rightarrow> real tensor list \<Rightarrow> real tensor option
    \<Rightarrow> tfloat \<Rightarrow> nat \<Rightarrow> error + tfloat" where
  "CombinedTargetIOULoss_joint self iou_loss batch_size W H heatmaps_pred heatmaps_gt
      target_weights loss idx =
     bindE (joint_maps self heatmaps_pred heatmaps_gt target_weights idx)
       (\<lambda>((heatmap_pred, heatmap_gt), offset_x, offset_y).
     bindE (MSELoss_mean heatmap_pred heatmap_gt) (\<lambda>c.
     bindE (foldE (CombinedTargetIOULoss_location batch_size H heatmap_gt offset_x offset_y)
              ([], []) (concat (map (\<lambda>x. map (\<lambda>y. (x, y)) [0..<H]) [0..<W])))
       (\<lambda>(bbox_gt, bbox_pred).
     bindE (cat0 bbox_gt) (\<lambda>bbox_gt.
     bindE (cat0 bbox_pred) (\<lambda>bbox_pred.
     bindE (iou_loss bbox_pred bbox_gt) (\<lambda>l.
     Inr (tadd (tadd loss (tmul c (1 / 2))) l)))))))"

text \<open>
  \<^verbatim>\<open>CombinedTargetIOULoss.forward\<close>. The unpacking \<^verbatim>\<open>W, H = output.shape[2:]\<close> needs
  exactly four dimensions and raises \<^verbatim>\<open>ValueError\<close> otherwise.
\<close>

definition CombinedTargetIOULoss_forward ::
  "loss_module \<Rightarrow> (real tensor \<Rightarrow> real tensor \<Rightarrow> error + tfloat)
    \<Rightarrow> real tensor \<Rightarrow> real tensor \<Rightarrow> real tensor option \<Rightarrow> error + tfloat" where
  "CombinedTargetIOULoss_forward self iou_loss output target target_weights =
     (case drop 2 (shape output) of
        [W, H] \<Rightarrow>
          bindE (tsize output 0) (\<lambda>batch_size.
          bindE (tsize output 1) (\<lambda>num_channels.
          bindE (reshape3 batch_size num_channels output) (\<lambda>ro.
          bindE (split_1_1 ro) (\<lambda>heatmaps_pred.
          bindE (reshape3 batch_size num_channels target) (\<lambda>rt.
          bindE (split_1_1 rt) (\<lambda>heatmaps_gt.
          let num_joints = num_channels div 3 in
          bindE (foldE (CombinedTargetIOULoss_joint self iou_loss batch_size W H
                          heatmaps_pred heatmaps_gt target_weights)
                   (Fin 0) [0..<num_joints]) (\<lambda>loss.
          if num_joints = 0 then Inl ZeroDivisionError
          else Inr (tmul (tdiv loss num_joints) (loss_weight self)))))))))
      | _ \<Rightarrow> Inl ValueError)"

section \<open>Scaling a result\<close>

text \<open>
  A result multiplied by a number: the value is multiplied, an exception stays as it
  is. This is the reading of ``\<open>c\<close> times the result'' used for the loss weight.
\<close>

definition scaled :: "real \<Rightarrow> error + tfloat \<Rightarrow> error + tfloat" where
  "scaled c r = (case r of Inl e \<Rightarrow> Inl e | Inr l \<Rightarrow> Inr (tmul l c))"

section \<open>Auxiliary notions for the statements\<close>

text \<open>
  A shape \<open>ds\<close> fits a shape \<open>es\<close> of the same rank when it can be expanded to it:
  every size is the size of \<open>es\<close> or 1.
\<close>

definition fits :: "nat list \<Rightarrow> nat list \<Rightarrow> bool" where
  "fits ds es = list_all2 (\<lambda>d e. d = e \<or> d = 1) ds es"

text \<open>
  The classification term of \<^verbatim>\<open>CombinedTargetMSELoss\<close> alone: the loop of
  \<^verbatim>\<open>forward\<close> with the line under \<^verbatim>\<open># classification loss\<close> only, and the same
  final division and loss weight.
\<close>

definition classification_joint ::
  "loss_module \<Rightarrow> real tensor list \<Rightarrow> real tensor list \<Rightarrow> real tensor option
    \<Rightarrow> tfloat \<Rightarrow> nat \<Rightarrow> error + tfloat" where
  "classification_joint self heatmaps_pred heatmaps_gt target_weights loss idx =
     bindE (joint_maps self heatmaps_pred heatmaps_gt target_weights idx)
       (\<lambda>((heatmap_pred, heatmap_gt), offset_x, offset_y).
     bindE (MSELoss_mean heatmap_pred heatmap_gt) (\<lambda>c.
     Inr (tadd loss (tmul c (1 / 2)))))"

definition classification_term ::
  "loss_module \<Rightarrow> real tensor \<Rightarrow> real tensor \<Rightarrow> real tensor option \<Rightarrow> error + tfloat" where
  "classification_term self output target target_weights =
     bindE (tsize output 0) (\<lambda>batch_size.
     bindE (tsize output 1) (\<lambda>num_channels.
     bindE (reshape3 batch_size num_channels output) (\<lambda>ro.
     bindE (split_1_1 ro) (\<lambda>heatmaps_pred.
     bindE (reshape3 batch_size num_channels target) (\<lambda>rt.
     bindE (split_1_1 rt) (\<lambda>heatmaps_gt.
     let num_joints = num_channels div 3 in
     bindE (foldE (classification_joint self heatmaps_pred heatmaps_gt target_weights)
              (Fin 0) [0..<num_joints]) (\<lambda>loss.
     if num_joints = 0 then Inl ZeroDivisionError
     else Inr (tmul (tdiv loss num_joints) (loss_weight self)))))))))"

text \<open>
  The combined-target loss in the words of the specification, for an output and a target
  of shape \<open>[B, 3 * J, H, W]\<close> and weights of shape \<open>[B, J]\<close>: \<open>reference_mse\<close> is the mean
  squared error over the \<open>B * H * W\<close> elements of two maps; keypoint \<open>k\<close> contributes half
  of it for the classification maps (each multiplied by the weight of its sample and
  keypoint when weighting is enabled) and for each of the two offset maps multiplied by
  the classification ground truth; the sum is divided by the number of keypoints and
  multiplied by the loss weight.
\<close>

definition reference_mse ::
  "nat \<Rightarrow> nat \<Rightarrow> nat \<Rightarrow> (nat \<Rightarrow> nat \<Rightarrow> nat \<Rightarrow> real) \<Rightarrow> (nat \<Rightarrow> nat \<Rightarrow> nat \<Rightarrow> real) \<Rightarrow> real" where
  "reference_mse B H W p g =
     (\<Sum>b<B. \<Sum>h<H. \<Sum>w<W. (p b h w - g b h w)\<^sup>2) / real (B * H * W)"

definition combined_target_reference ::
  "loss_module \<Rightarrow> nat \<Rightarrow> nat \<Rightarrow> nat \<Rightarrow> nat \<Rightarrow> real tensor \<Rightarrow> real tensor \<Rightarrow> real tensor \<Rightarrow> real" where
  "combined_target_reference self B J H W output target tw =
     (let wt = (\<lambda>b k. if use_target_weight self then item tw [b, k] else 1);
          class_pred = (\<lambda>k b h w. item output [b, 3 * k, h, w] * wt b k);
          class_gt = (\<lambda>k b h w. item target [b, 3 * k, h, w] * wt b k)
      in (\<Sum>k<J.
            1 / 2 * reference_mse B H W (class_pred k) (class_gt k)
          + 1 / 2 * reference_mse B H W
                      (\<lambda>b h w. class_gt k b h w * item output [b, 3 * k + 1, h, w])
                      (\<lambda>b h w. class_gt k b h w * item target [b, 3 * k + 1, h, w])
          + 1 / 2 * reference_mse B H W
                      (\<lambda>b h w. class_gt k b h w * item output [b, 3 * k + 2, h, w])
                      (\<lambda>b h w. class_gt k b h w * item target [b, 3 * k + 2, h, w]))
         / real J * loss_weight self)"

text \<open>
  The per-keypoint loss matrix of \<^verbatim>\<open>KeypointOHKMMSELoss\<close> in the words of the
  specification: the squared error of keypoint \<open>k\<close> of sample \<open>b\<close>, output and target
  multiplied by the weight of the keypoint when weighting is enabled, averaged over the
  \<open>H * W\<close> locations.
\<close>

definition weight_at :: "'a loss_module_scheme \<Rightarrow> real tensor option \<Rightarrow> nat \<Rightarrow> nat \<Rightarrow> real" where
  "weight_at self target_weights b k =
     (if use_target_weight self
      then (case target_weights of Some tw \<Rightarrow> item tw [b, k] | None \<Rightarrow> 1)
      else 1)"

definition keypoint_loss ::
  "'a loss_module_scheme \<Rightarrow> real tensor option \<Rightarrow> nat \<Rightarrow> nat \<Rightarrow> real tensor \<Rightarrow> real tensor
    \<Rightarrow> nat \<Rightarrow> nat \<Rightarrow> real" where
  "keypoint_loss self target_weights H W output target b k =
     (\<Sum>h<H. \<Sum>w<W. (item output [b, k, h, w] * weight_at self target_weights b k
                        - item target [b, k, h, w] * weight_at self target_weights b k)\<^sup>2)
       / real (H * W)"

text \<open>
  \<open>S\<close> is a choice of the \<open>k\<close> largest of the \<open>K\<close> values of a row: exactly \<open>k\<close> indices,
  and no value left out is larger than a chosen one. Values that are equal may be chosen
  either way.
\<close>

definition is_topk :: "nat \<Rightarrow> nat \<Rightarrow> (nat \<Rightarrow> real) \<Rightarrow> nat set \<Rightarrow> bool" where
  "is_topk k K row S = (S \<subseteq> {..<K} \<and> card S = k \<and> (\<forall>i\<in>S. \<forall>j<K. j \<notin> S \<longrightarrow> row j \<le> row i))"

section \<open>Lemmas on the tensor operations\<close>

lemma length_chunk: "(Suc i) * n \<le> length xs \<Longrightarrow> length (chunk n i xs) = n"
  by (simp add: chunk_def)

lemma concat_chunks: "length xs = d * n \<Longrightarrow> concat (map (\<lambda>i. chunk n i xs) [0..<d]) = xs"
proof (induction d arbitrary: xs rule: nat.induct)
  case zero
  then show ?case by simp
next
  case (Suc d)
  have "concat (map (\<lambda>i. chunk n i (take (d * n) xs)) [0..<d]) = take (d * n) xs"
    using Suc.prems by (intro Suc.IH) simp
  moreover have "\<And>i. i < d \<Longrightarrow> chunk n i (take (d * n) xs) = chunk n i xs"
  proof -
    fix i assume "i < d"
    then have "Suc i \<le> d" by simp
    then have "Suc i * n \<le> d * n" by (rule mult_le_mono1)
    then show "chunk n i (take (d * n) xs) = chunk n i xs"
      by (simp add: chunk_def take_drop min_def)
  qed
  then have "map (\<lambda>i. chunk n i (take (d * n) xs)) [0..<d] = map (\<lambda>i. chunk n i xs) [0..<d]"
    by simp
  ultimately have "concat (map (\<lambda>i. chunk n i xs) [0..<d]) = take (d * n) xs"
    by simp
  moreover have "chunk n d xs = drop (d * n) xs"
    using Suc.prems by (simp add: chunk_def)
  ultimately show ?case by simp
qed

lemma expand_same: "length xs = prod_list s \<Longrightarrow> expand s s xs = xs"
proof (induction s arbitrary: xs)
  case Nil
  then show ?case by (simp add: expand.simps)
next
  case (Cons d s)
  have "\<And>i. i < d \<Longrightarrow> expand s s (chunk (prod_list s) i xs) = chunk (prod_list s) i xs"
  proof -
    fix i assume "i < d"
    then have "Suc i \<le> d" by simp
    then have "Suc i * prod_list s \<le> d * prod_list s" by (rule mult_le_mono1)
    then show "expand s s (chunk (prod_list s) i xs) = chunk (prod_list s) i xs"
      using Cons.prems by (intro Cons.IH) (simp add: length_chunk)
  qed
  then have meq: "map (\<lambda>i. expand s s (chunk (prod_list s) i xs)) [0..<d]
     = map (\<lambda>i. chunk (prod_list s) i xs) [0..<d]"
    by simp
  have "expand (d # s) (d # s) xs
     = concat (map (\<lambda>i. expand s s (chunk (prod_list s) i xs)) [0..<d])"
    by (simp add: expand.simps)
  also have "\<dots> = concat (map (\<lambda>i. chunk (prod_list s) i xs) [0..<d])"
    by (simp only: meq)
  also have "\<dots> = xs"
    using Cons.prems by (intro concat_chunks) simp
  finally show ?case .
qed

lemma concat_replicate_replicate: "concat (replicate e (replicate m x)) = replicate (e * m) x"
  by (induction e) (simp_all add: replicate_add)

lemma prod_list_ones: "prod_list (replicate k (Suc 0)) = Suc 0"
  by (induction k) simp_all

lemma expand_ones:
  "length t = k \<Longrightarrow> expand (replicate k (Suc 0)) t [x] = replicate (prod_list t) x"
proof (induction t arbitrary: k)
  case Nil
  then show ?case by (simp add: expand.simps)
next
  case (Cons e es)
  then obtain k' where k: "k = Suc k'" "length es = k'" by (cases k) auto
  have ih: "expand (replicate k' (Suc 0)) es [x] = replicate (prod_list es) x"
    using Cons.IH k by simp
  show ?case
  proof (cases "e = 1")
    case True
    then show ?thesis by (simp add: k ih chunk_def prod_list_ones expand.simps)
  next
    case False
    then show ?thesis by (simp add: k ih concat_replicate_replicate expand.simps)
  qed
qed

lemma concat_map_concat_chunks:
  assumes "length xs = d * n"
  shows "concat (map (\<lambda>i. concat (map f (chunk n i xs))) [0..<d]) = concat (map f xs)"
proof -
  have "concat (map (\<lambda>i. concat (map f (g i))) js) = concat (map f (concat (map g js)))"
    for g :: "nat \<Rightarrow> 'a list" and js
    by (induction js) simp_all
  then have "concat (map (\<lambda>i. concat (map f (chunk n i xs))) [0..<d])
      = concat (map f (concat (map (\<lambda>i. chunk n i xs) [0..<d])))" .
  then show ?thesis using assms by (simp add: concat_chunks)
qed

lemma expand_trailing:
  "length t = k \<Longrightarrow> length xs = prod_list s \<Longrightarrow>
   expand (s @ replicate k (Suc 0)) (s @ t) xs = concat (map (replicate (prod_list t)) xs)"
proof (induction s arbitrary: xs)
  case Nil
  then obtain x where "xs = [x]" by (cases xs) auto
  then show ?case using Nil by (simp add: expand_ones)
next
  case (Cons d s)
  let ?n = "prod_list s"
  have n: "prod_list (s @ replicate k (Suc 0)) = ?n" by (simp add: prod_list_ones)
  have "\<And>i. i < d \<Longrightarrow> expand (s @ replicate k (Suc 0)) (s @ t) (chunk ?n i xs)
      = concat (map (replicate (prod_list t)) (chunk ?n i xs))"
  proof -
    fix i assume "i < d"
    then have "Suc i \<le> d" by simp
    then have "Suc i * ?n \<le> d * ?n" by (rule mult_le_mono1)
    then show "expand (s @ replicate k (Suc 0)) (s @ t) (chunk ?n i xs)
      = concat (map (replicate (prod_list t)) (chunk ?n i xs))"
      using Cons.prems by (intro Cons.IH) (simp_all add: length_chunk)
  qed
  then have "map (\<lambda>i. expand (s @ replicate k (Suc 0)) (s @ t) (chunk ?n i xs)) [0..<d]
     = map (\<lambda>i. concat (map (replicate (prod_list t)) (chunk ?n i xs))) [0..<d]"
    by simp
  then have "expand ((d # s) @ replicate k (Suc 0)) ((d # s) @ t) xs
     = concat (map (\<lambda>i. concat (map (replicate (prod_list t)) (chunk ?n i xs))) [0..<d])"
    using n by (simp only: append_Cons expand.simps refl if_True)
  also have "\<dots> = concat (map (replicate (prod_list t)) xs)"
    using Cons.prems by (intro concat_map_concat_chunks) simp
  finally show ?case .
qed

lemma sum_group2:
  fixes f :: "nat \<Rightarrow> real"
  shows "(\<Sum>i<m * n. f i) = (\<Sum>a<m. \<Sum>b<n. f (a * n + b))"
proof (induction m)
  case 0
  then show ?case by simp
next
  case (Suc m)
  have "{..<Suc m * n} = {..<m * n} \<union> {m * n..<m * n + n}"
    by auto
  moreover have "{..<m * n} \<inter> {m * n..<m * n + n} = {}"
    by auto
  ultimately have "(\<Sum>i<Suc m * n. f i) = (\<Sum>i<m * n. f i) + (\<Sum>i = m * n..<m * n + n. f i)"
    by (simp add: sum.union_disjoint)
  moreover have "(\<Sum>i = m * n..<m * n + n. f i) = (\<Sum>b<n. f (m * n + b))"
    using sum.shift_bounds_nat_ivl [of f 0 "m * n" n]
    by (simp add: atLeast0LessThan add.commute)
  ultimately show ?case using Suc.IH by simp
qed

lemma sum_group4:
  fixes f :: "nat \<Rightarrow> real"
  shows "(\<Sum>i<B * K * H * W. f i)
       = (\<Sum>b<B. \<Sum>k<K. \<Sum>h<H. \<Sum>w<W. f (((b * K + k) * H + h) * W + w))"
  by (simp add: sum_group2)

lemma sum_list_nth_real:
  fixes xs :: "real list"
  shows "sum_list xs = (\<Sum>i<length xs. xs ! i)"
  by (simp add: sum_list_sum_nth atLeast0LessThan)

lemma nth_concat_replicate:
  "i < length ws * m \<Longrightarrow> concat (map (replicate m) ws) ! i = ws ! (i div m)"
proof (induction ws arbitrary: i)
  case Nil
  then show ?case by simp
next
  case (Cons a ws)
  show ?case
  proof (cases "i < m")
    case True
    then show ?thesis by (simp add: nth_append)
  next
    case False
    then have "i - m < length ws * m" using Cons.prems by simp
    then have "concat (map (replicate m) ws) ! (i - m) = ws ! ((i - m) div m)"
      by (rule Cons.IH)
    moreover have "i div m = Suc ((i - m) div m)"
    proof -
      have "0 < m" using Cons.prems by (cases m) simp_all
      then show ?thesis using False by (simp add: le_div_geq)
    qed
    ultimately show ?thesis using False by (simp add: nth_append)
  qed
qed

lemma length_concat_replicate: "length (concat (map (replicate m) ws)) = length ws * m"
  by (induction ws) simp_all

lemma broadcast_shapes_same: "broadcast_shapes s s = Inr s"
proof -
  have "broadcast_rev r r = Inr r" for r
    by (induction r) (simp_all add: bindE_def)
  then show ?thesis by (simp add: broadcast_shapes_def bindE_def)
qed

lemma binop_same_shape:
  assumes "shape a = s" "shape b = s" "length (data a) = prod_list s" "length (data b) = prod_list s"
  shows "binop f a b = Inr \<lparr>shape = s, data = map2 f (data a) (data b)\<rparr>"
  using assms by (simp add: binop_def broadcast_shapes_same bindE_def expand_to_def ndim_def expand_same)

lemma mean_sum:
  "xs \<noteq> [] \<Longrightarrow> mean xs = Fin ((\<Sum>i<length xs. xs ! i) / real (length xs))"
  by (simp add: mean_def sum_list_nth_real)

lemma MSELoss_mean_same_shape:
  assumes "shape a = s" "shape b = s" "length (data a) = n" "length (data b) = n"
    "n = prod_list s" "0 < n"
  shows "MSELoss_mean a b = Inr (Fin ((\<Sum>i<n. (data a ! i - data b ! i)\<^sup>2) / real n))"
proof -
  let ?d = "map2 (\<lambda>x y. (x - y)\<^sup>2) (data a) (data b)"
  have len: "length ?d = n" using assms by simp
  then have ne: "?d \<noteq> []" using assms by auto
  have "MSELoss_mean a b = Inr (mean ?d)"
    using assms by (simp add: MSELoss_mean_def MSELoss_none_def binop_same_shape bindE_def)
  moreover have "(\<Sum>i<length ?d. ?d ! i) = (\<Sum>i<n. (data a ! i - data b ! i)\<^sup>2)"
    using assms len by (intro sum.cong) simp_all
  ultimately show ?thesis using mean_sum [OF ne] len by simp
qed

lemma item4:
  "shape t = [B, K, H, W] \<Longrightarrow> item t [b, k, h, w] = data t ! (((b * K + k) * H + h) * W + w)"
  by (simp add: item_def flat_index_def)

lemma item2:
  "shape t = [B, K] \<Longrightarrow> item t [b, k] = data t ! (b * K + k)"
  by (simp add: item_def flat_index_def)

lemma broadcast_shapes_trailing4: "broadcast_shapes [B, K, H, W] [B, K, Suc 0, Suc 0] = Inr [B, K, H, W]"
  by (simp add: broadcast_shapes_def bindE_def)

lemma div_index4:
  fixes h H w W b K k :: nat
  assumes "h < H" "w < W"
  shows "(((b * K + k) * H + h) * W + w) div (H * W) = b * K + k"
proof -
  have "h * W + w < H * W"
  proof -
    have "h * W + w < h * W + W" using assms by simp
    also have "\<dots> = Suc h * W" by simp
    also have "\<dots> \<le> H * W" using assms by (intro mult_le_mono1) simp
    finally show ?thesis .
  qed
  then have r: "H * W \<noteq> 0" "(h * W + w) div (H * W) = 0"
    using assms by auto
  have "((b * K + k) * H + h) * W + w = (b * K + k) * (H * W) + (h * W + w)"
    by (simp add: algebra_simps)
  then have "(((b * K + k) * H + h) * W + w) div (H * W)
           = ((b * K + k) * (H * W) + (h * W + w)) div (H * W)"
    by (rule arg_cong)
  also have "\<dots> = (b * K + k) + (h * W + w) div (H * W)"
    using r(1) by (rule div_mult_self3)
  finally show ?thesis using r(2) by simp
qed

lemma mul_weights4:
  assumes "shape x = [B, K, H, W]" "length (data x) = B * K * H * W"
    "shape tw = [B, K]" "length (data tw) = B * K"
  shows "mul x ((unsqueeze_last ^^ (ndim x - ndim tw)) tw)
       = Inr \<lparr>shape = [B, K, H, W],
              data = map2 (\<lambda>a c. a * c) (data x) (concat (map (replicate (H * W)) (data tw)))\<rparr>"
proof -
  define tw4 where "tw4 = (unsqueeze_last ^^ (ndim x - ndim tw)) tw"
  have "ndim x - ndim tw = Suc (Suc 0)" using assms by (simp add: ndim_def)
  then have tw': "shape tw4 = [B, K, Suc 0, Suc 0]" "data tw4 = data tw"
    using assms by (simp_all add: unsqueeze_last_def tw4_def)
  have "expand ([B, K] @ replicate 2 (Suc 0)) ([B, K] @ [H, W]) (data tw)
      = concat (map (replicate (prod_list [H, W])) (data tw))"
    using assms by (intro expand_trailing) simp_all
  then have e: "expand [B, K, Suc 0, Suc 0] [B, K, H, W] (data tw)
      = concat (map (replicate (H * W)) (data tw))"
    by (simp add: numeral_2_eq_2)
  have "expand_to [B, K, H, W] tw4 = concat (map (replicate (H * W)) (data tw))"
    by (simp add: expand_to_def ndim_def tw' e)
  moreover have "expand_to [B, K, H, W] x = data x"
    unfolding expand_to_def ndim_def using assms by (simp add: expand_same)
  ultimately have "mul x tw4 = Inr \<lparr>shape = [B, K, H, W],
              data = map2 (\<lambda>a c. a * c) (data x) (concat (map (replicate (H * W)) (data tw)))\<rparr>"
    unfolding mul_def binop_def using assms tw' by (simp add: broadcast_shapes_trailing4 bindE_def)
  then show ?thesis by (simp only: tw4_def)
qed


subsection \<open>\<^verbatim>\<open>KeypointMSELoss\<close> as a sum over the elements\<close>

lemma KeypointMSELoss_unweighted_flat:
  assumes "shape output = [B, K, H, W]" "wf_tensor output"
    and "shape target = [B, K, H, W]" "wf_tensor target"
    and "0 < B * K * H * W" "\<not> use_target_weight self"
  shows "KeypointMSELoss_forward self output target target_weights =
           Inr (Fin ((\<Sum>i<B * K * H * W. (data output ! i - data target ! i)\<^sup>2)
                      / real (B * K * H * W) * loss_weight self))"
proof -
  let ?N = "B * K * H * W"
  have "length (data output) = ?N" "length (data target) = ?N"
    using assms by (simp_all add: wf_tensor_def)
  then have "MSELoss_mean output target =
      Inr (Fin ((\<Sum>i<?N. (data output ! i - data target ! i)\<^sup>2) / real ?N))"
    using assms by (intro MSELoss_mean_same_shape [where s = "[B, K, H, W]"]) simp_all
  then show ?thesis
    using assms by (simp add: KeypointMSELoss_forward_def bindE_def)
qed

lemma KeypointMSELoss_weighted_flat:
  assumes "shape output = [B, K, H, W]" "wf_tensor output"
    and "shape target = [B, K, H, W]" "wf_tensor target"
    and "0 < B * K * H * W" "use_target_weight self"
    and "shape tw = [B, K]" "wf_tensor tw"
  shows "KeypointMSELoss_forward self output target (Some tw) =
           Inr (Fin ((\<Sum>i<B * K * H * W.
                        (data output ! i * data tw ! (i div (H * W))
                           - data target ! i * data tw ! (i div (H * W)))\<^sup>2)
                      / real (B * K * H * W) * loss_weight self))"
proof -
  let ?N = "B * K * H * W"
  have lo: "length (data output) = ?N" and lt: "length (data target) = ?N"
    and ltw: "length (data tw) = B * K"
    using assms by (simp_all add: wf_tensor_def)
  let ?rep = "concat (map (replicate (H * W)) (data tw))"
  let ?a = "\<lparr>shape = [B, K, H, W], data = map2 (\<lambda>a c. a * c) (data output) ?rep\<rparr>"
  let ?b = "\<lparr>shape = [B, K, H, W], data = map2 (\<lambda>a c. a * c) (data target) ?rep\<rparr>"
  have lrep: "length ?rep = ?N" using ltw by (simp add: length_concat_replicate)
  have a: "mul output ((unsqueeze_last ^^ (ndim output - ndim tw)) tw) = Inr ?a"
    using assms lo ltw by (intro mul_weights4) simp_all
  have b: "mul target ((unsqueeze_last ^^ (ndim output - ndim tw)) tw) = Inr ?b"
    using mul_weights4 [of target B K H W tw] assms lt ltw by (simp add: ndim_def)
  have m: "MSELoss_mean ?a ?b =
      Inr (Fin ((\<Sum>i<?N. (data ?a ! i - data ?b ! i)\<^sup>2) / real ?N))"
    using assms lo lt lrep by (intro MSELoss_mean_same_shape [where s = "[B, K, H, W]"]) simp_all
  have s: "(\<Sum>i<?N. (data ?a ! i - data ?b ! i)\<^sup>2)
      = (\<Sum>i<?N. (data output ! i * data tw ! (i div (H * W))
                   - data target ! i * data tw ! (i div (H * W)))\<^sup>2)"
  proof (rule sum.cong)
    fix i assume "i \<in> {..<?N}"
    then have i: "i < ?N" by simp
    then have "i < length (data tw) * (H * W)" using ltw by (simp add: mult.assoc)
    then have "?rep ! i = data tw ! (i div (H * W))" by (rule nth_concat_replicate)
    then show "(data ?a ! i - data ?b ! i)\<^sup>2 =
        (data output ! i * data tw ! (i div (H * W))
           - data target ! i * data tw ! (i div (H * W)))\<^sup>2"
      using i lo lt lrep by simp
  qed simp
  have nd: "ndim tw \<le> ndim output" using assms by (simp add: ndim_def)
  show ?thesis
    unfolding KeypointMSELoss_forward_def using assms(6) nd a b m s
    by (simp add: bindE_def Let_def)
qed

subsection \<open>The loss weight\<close>


lemma tmul_one: "tmul l 1 = l"
  by (cases l) simp_all

lemma scaled_bind: "scaled c (bindE m (\<lambda>l. Inr (tmul l 1))) = bindE m (\<lambda>l. Inr (tmul l c))"
  by (cases m) (simp_all add: scaled_def bindE_def tmul_one)

lemma KeypointMSELoss_scaled:
  "KeypointMSELoss_forward (self\<lparr>loss_weight := c\<rparr>) output target tws
     = scaled c (KeypointMSELoss_forward (self\<lparr>loss_weight := 1\<rparr>) output target tws)"
proof (cases "use_target_weight self")
  case False
  then show ?thesis by (simp add: KeypointMSELoss_forward_def scaled_bind)
next
  case True
  show ?thesis
  proof (cases tws)
    case None
    then show ?thesis using True by (simp add: KeypointMSELoss_forward_def scaled_def)
  next
    case (Some tw)
    let ?tw = "(unsqueeze_last ^^ (ndim output - ndim tw)) tw"
    have "scaled c (bindE (mul output ?tw) (\<lambda>a. bindE (mul target ?tw) (\<lambda>b.
             bindE (MSELoss_mean a b) (\<lambda>loss. Inr (tmul loss 1)))))
        = bindE (mul output ?tw) (\<lambda>a. bindE (mul target ?tw) (\<lambda>b.
             bindE (MSELoss_mean a b) (\<lambda>loss. Inr (tmul loss c))))"
      by (simp add: scaled_def bindE_def tmul_one split: sum.splits)
    then show ?thesis using True Some
      by (simp add: KeypointMSELoss_forward_def Let_def scaled_def)
  qed
qed

lemma CombinedTargetMSELoss_scaled:
  "CombinedTargetMSELoss_forward (self\<lparr>loss_weight := c\<rparr>) output target tws
     = scaled c (CombinedTargetMSELoss_forward (self\<lparr>loss_weight := 1\<rparr>) output target tws)"
proof -
  have j: "CombinedTargetMSELoss_joint (self\<lparr>loss_weight := w\<rparr>) = CombinedTargetMSELoss_joint self" for w
    by (intro ext) (simp add: CombinedTargetMSELoss_joint_def joint_maps_def apply_target_weight_def)
  show ?thesis
    unfolding CombinedTargetMSELoss_forward_def j
    by (simp add: scaled_def bindE_def Let_def tmul_one split: sum.splits)
qed

lemma KeypointOHKMMSELoss_scaled:
  "KeypointOHKMMSELoss_forward (self\<lparr>loss_weight := c\<rparr>) output target tws
     = scaled c (KeypointOHKMMSELoss_forward (self\<lparr>loss_weight := 1\<rparr>) output target tws)"
proof -
  have k: "KeypointOHKMMSELoss_keypoint (self\<lparr>loss_weight := w\<rparr>) = KeypointOHKMMSELoss_keypoint self" for w
    by (intro ext) (simp add: KeypointOHKMMSELoss_keypoint_def)
  have m: "KeypointOHKMMSELoss_ohkm (self\<lparr>loss_weight := w\<rparr>) = KeypointOHKMMSELoss_ohkm self" for w
    by (intro ext) (simp add: KeypointOHKMMSELoss_ohkm_def)
  show ?thesis
    unfolding KeypointOHKMMSELoss_forward_def k m
    by (simp add: scaled_def bindE_def Let_def tmul_one split: sum.splits)
qed


subsection \<open>Broadcasting in general\<close>

lemma set_chunk: "set (chunk n i xs) \<subseteq> set xs"
  unfolding chunk_def by (meson set_take_subset set_drop_subset subset_trans)

lemma set_expand: "set (expand ds es xs) \<subseteq> set xs"
proof (induction ds es xs rule: expand.induct)
  case (1 d ds e es xs)
  show ?case
  proof (cases "d = e")
    case True
    have "set (expand ds es (chunk (prod_list ds) i xs)) \<subseteq> set xs" if "i \<in> set [0..<d]" for i
      using "1.IH"(1) [OF True that] set_chunk [of "prod_list ds" i xs] by blast
    then have "(\<Union>i\<in>{0..<d}. set (expand ds es (chunk (prod_list ds) i xs))) \<subseteq> set xs"
      by (intro UN_least) simp
    then show ?thesis using True by (simp add: expand.simps)
  next
    case False
    then show ?thesis using "1.IH"(2) [OF False] by (auto simp: expand.simps)
  qed
qed (simp_all add: expand.simps)

lemma length_concat_const:
  "(\<And>i. i < b \<Longrightarrow> length (f i) = n) \<Longrightarrow> length (concat (map f [0..<b])) = b * n"
  by (induction b) simp_all

lemma length_expand:
  "fits ds es \<Longrightarrow> length xs = prod_list ds \<Longrightarrow> length (expand ds es xs) = prod_list es"
  unfolding fits_def
proof (induction ds es arbitrary: xs rule: list_all2_induct)
  case Nil
  then show ?case by (simp add: expand.simps)
next
  case (Cons d ds e es)
  show ?case
  proof (cases "d = e")
    case True
    have "length (expand ds es (chunk (prod_list ds) i xs)) = prod_list es" if "i < d" for i
    proof -
      have "Suc i \<le> d" using that by simp
      then have "Suc i * prod_list ds \<le> d * prod_list ds" by (rule mult_le_mono1)
      then have "length (chunk (prod_list ds) i xs) = prod_list ds"
        using Cons.prems by (simp add: chunk_def)
      then show ?thesis by (rule Cons.IH)
    qed
    then have "length (concat (map (\<lambda>i. expand ds es (chunk (prod_list ds) i xs)) [0..<d]))
        = d * prod_list es"
      by (rule length_concat_const)
    then show ?thesis using True by (simp add: expand.simps)
  next
    case False
    then have "d = 1" using Cons.hyps by simp
    then have "length (expand ds es xs) = prod_list es"
      using Cons.prems by (intro Cons.IH) simp
    then show ?thesis using False by (simp add: expand.simps length_concat sum_list_replicate)
  qed
qed

lemma broadcast_rev_fits:
  "broadcast_rev xs ys = Inr r \<Longrightarrow>
     length xs \<le> length r \<and> length ys \<le> length r
     \<and> fits (xs @ replicate (length r - length xs) 1) r
     \<and> fits (ys @ replicate (length r - length ys) 1) r"
proof (induction xs ys arbitrary: r rule: broadcast_rev.induct)
  case (1 ys)
  then show ?case by (auto simp: fits_def list_all2_conv_all_nth nth_append)
next
  case (2 x xs)
  then show ?case by (auto simp: fits_def list_all2_conv_all_nth nth_append)
next
  case (3 x xs y ys)
  show ?case
  proof (cases "x = y \<or> y = 1")
    case True
    then obtain r' where r': "broadcast_rev xs ys = Inr r'" "r = x # r'"
      using "3.prems" by (auto simp: bindE_def split: sum.splits)
    from "3.IH"(1) [OF True r'(1)] show ?thesis
      using True r'(2) by (auto simp: fits_def)
  next
    case False
    then have x: "x = 1" using "3.prems" by (auto split: if_splits)
    then obtain r' where r': "broadcast_rev xs ys = Inr r'" "r = y # r'"
      using "3.prems" False by (auto simp: bindE_def split: sum.splits)
    from "3.IH"(2) [OF False x r'(1)] show ?thesis
      using x r'(2) by (auto simp: fits_def)
  qed
qed

lemma fits_rev: "fits (rev a) (rev b) = fits a b"
  by (simp add: fits_def)

lemma broadcast_shapes_fits:
  assumes "broadcast_shapes a b = Inr s"
  shows "fits (replicate (length s - length a) 1 @ a) s"
    and "fits (replicate (length s - length b) 1 @ b) s"
proof -
  obtain r where r: "broadcast_rev (rev a) (rev b) = Inr r" "s = rev r"
    using assms by (auto simp: broadcast_shapes_def bindE_def split: sum.splits)
  from broadcast_rev_fits [OF r(1)]
  have "fits (rev a @ replicate (length r - length a) 1) r"
    and "fits (rev b @ replicate (length r - length b) 1) r"
    by simp_all
  then have "fits (rev (rev a @ replicate (length r - length a) 1)) (rev r)"
    and "fits (rev (rev b @ replicate (length r - length b) 1)) (rev r)"
    by (simp_all only: fits_rev)
  then show "fits (replicate (length s - length a) 1 @ a) s"
    and "fits (replicate (length s - length b) 1 @ b) s"
    using r(2) by simp_all
qed

lemma prod_list_pad: "prod_list (replicate k (Suc 0) @ s) = prod_list s"
  by (induction k) simp_all

lemma length_expand_to:
  assumes "fits (replicate (length s - length (shape t)) 1 @ shape t) s" "wf_tensor t"
  shows "length (expand_to s t) = prod_list s"
  unfolding expand_to_def ndim_def
  using assms by (intro length_expand) (simp_all add: wf_tensor_def prod_list_pad)

lemma binop_result:
  assumes "binop f a b = Inr r" "wf_tensor a" "wf_tensor b"
  shows "broadcast_shapes (shape a) (shape b) = Inr (shape r)"
    and "data r = map2 f (expand_to (shape r) a) (expand_to (shape r) b)"
    and "wf_tensor r"
    and "length (expand_to (shape r) a) = prod_list (shape r)"
    and "length (expand_to (shape r) b) = prod_list (shape r)"
proof -
  obtain s where s: "broadcast_shapes (shape a) (shape b) = Inr s"
    and r: "r = \<lparr>shape = s, data = map2 f (expand_to s a) (expand_to s b)\<rparr>"
    using assms(1) by (auto simp: binop_def bindE_def split: sum.splits)
  show "broadcast_shapes (shape a) (shape b) = Inr (shape r)" using s r by simp
  show "data r = map2 f (expand_to (shape r) a) (expand_to (shape r) b)" using r by simp
  have la: "length (expand_to s a) = prod_list s"
    using broadcast_shapes_fits(1) [OF s] assms(2) by (rule length_expand_to)
  have lb: "length (expand_to s b) = prod_list s"
    using broadcast_shapes_fits(2) [OF s] assms(3) by (rule length_expand_to)
  show "wf_tensor r" using la lb r by (simp add: wf_tensor_def)
  show "length (expand_to (shape r) a) = prod_list (shape r)" using la r by simp
  show "length (expand_to (shape r) b) = prod_list (shape r)" using lb r by simp
qed

lemma set_expand_to: "set (expand_to s t) \<subseteq> set (data t)"
  unfolding expand_to_def by (rule set_expand)

subsection \<open>Channels of a combined target\<close>

lemma bindE_Inl [simp]: "bindE (Inl e) f = Inl e"
  by (simp add: bindE_def)

lemma bindE_Inr [simp]: "bindE (Inr x) f = f x"
  by (simp add: bindE_def)

lemma length_chunk_le:
  "Suc i * n \<le> length xs \<Longrightarrow> length (chunk n i xs) = n"
  by (simp add: chunk_def)

lemma length_column:
  assumes "length xs = b * c * prod_list rest" "j < c"
  shows "length (column b c rest j xs) = b * prod_list rest"
  unfolding column_def
proof (rule length_concat_const)
  fix i assume "i < b"
  then have "Suc (i * c + j) \<le> b * c"
  proof -
    have "i * c + j < i * c + c" using assms(2) by simp
    also have "\<dots> = Suc i * c" by simp
    also have "\<dots> \<le> b * c" using \<open>i < b\<close> by (intro mult_le_mono1) simp
    finally show ?thesis by simp
  qed
  then have "Suc (i * c + j) * prod_list rest \<le> b * c * prod_list rest"
    by (rule mult_le_mono1)
  then show "length (chunk (prod_list rest) (i * c + j) xs) = prod_list rest"
    using assms(1) by (intro length_chunk_le) simp
qed

lemma set_column: "set (column b c rest j xs) \<subseteq> set xs"
  unfolding column_def using set_chunk [of "prod_list rest" _ xs] by auto

lemma split_channels:
  assumes "shape t = [B, C, H, W]" "wf_tensor t" "0 < B" "0 < C"
  shows "bindE (reshape3 B C t) split_1_1 =
     Inr (map (\<lambda>j. \<lparr>shape = [B, 1, H * W], data = column B C [H * W] j (data t)\<rparr>) [0..<C])"
proof -
  have l: "length (data t) = (B * C) * (H * W)"
    using assms by (simp add: wf_tensor_def mult.assoc)
  have "B * C \<noteq> 0" using assms by simp
  then have "reshape3 B C t = Inr \<lparr>shape = [B, C, H * W], data = data t\<rparr>"
    unfolding reshape3_def l by simp
  then show ?thesis using assms by (simp add: split_1_1_def)
qed

lemma tensor_bool_multi: "length (data t) \<noteq> 1 \<Longrightarrow> tensor_bool t = Inl RuntimeError"
  by (cases "data t"; cases "tl (data t)") (auto simp: tensor_bool_def split: list.splits)

lemma locations_first:
  "0 < W \<Longrightarrow> 0 < H \<Longrightarrow>
   \<exists>rest. concat (map (\<lambda>x. map (\<lambda>y. (x, y)) [0..<H]) [0..<W]) = (0, 0) # rest"
  by (simp add: upt_conv_Cons)

lemma location_truth_value_fails:
  assumes "shape heatmap_gt = [B, N]" "wf_tensor heatmap_gt" "1 < B" "x * H + y < N"
  shows "CombinedTargetIOULoss_location B H heatmap_gt ox oy boxes (x, y) = Inl RuntimeError"
proof -
  have "length (data heatmap_gt) = B * N * prod_list []"
    using assms by (simp add: wf_tensor_def)
  then have "length (column B N [] (x * H + y) (data heatmap_gt)) = B * prod_list []"
    using assms(4) by (rule length_column)
  then have "length (data (eq_scalar \<lparr>shape = [B],
      data = column B N [] (x * H + y) (data heatmap_gt)\<rparr> 0)) \<noteq> 1"
    using assms(3) by (simp add: eq_scalar_def)
  then have "tensor_bool (eq_scalar \<lparr>shape = [B],
      data = column B N [] (x * H + y) (data heatmap_gt)\<rparr> 0) = Inl RuntimeError"
    by (rule tensor_bool_multi)
  then show ?thesis
    using assms(1,4)
    by (cases boxes; cases ox; cases oy) (simp add: CombinedTargetIOULoss_location_def select1_def)
qed

lemma MSELoss_mean_same_shape_Inr:
  assumes "shape a = shape b"
  shows "\<exists>c. MSELoss_mean a b = Inr c"
proof -
  have "broadcast_rev r r = Inr r" for r
    by (induction r) simp_all
  then have "broadcast_shapes (shape a) (shape b) = Inr (shape b)"
    using assms by (simp add: broadcast_shapes_def)
  then show ?thesis
    by (simp add: MSELoss_mean_def MSELoss_none_def binop_def)
qed

lemma IOU_joint_fails:
  assumes jm: "joint_maps self heatmaps_pred heatmaps_gt tws idx = Inr ((hp, hg), ox, oy)"
    and "shape hp = [B, N]" "shape hg = [B, N]" "wf_tensor hg" "1 < B" "0 < W" "0 < H" "0 < N"
  shows "CombinedTargetIOULoss_joint self iou_loss B W H heatmaps_pred heatmaps_gt tws loss idx
           = Inl RuntimeError"
proof -
  obtain c where c: "MSELoss_mean hp hg = Inr c"
    using MSELoss_mean_same_shape_Inr [of hp hg] assms by auto
  obtain rest where rest: "concat (map (\<lambda>x. map (\<lambda>y. (x, y)) [0..<H]) [0..<W]) = (0, 0) # rest"
    using locations_first assms by blast
  have "CombinedTargetIOULoss_location B H hg ox oy ([], []) (0, 0) = Inl RuntimeError"
    using assms by (intro location_truth_value_fails [where N = N]) simp_all
  then show ?thesis
    unfolding CombinedTargetIOULoss_joint_def jm using c rest by simp
qed

lemma weight_broadcast:
  assumes "0 < B" "0 < N"
  shows "\<exists>S. broadcast_shapes (filter (\<lambda>d. d \<noteq> 1) [B, 1, N]) [B, 1] = Inr S
           \<and> broadcast_shapes S (filter (\<lambda>d. d \<noteq> 1) [B, 1, N]) = Inr S
           \<and> broadcast_shapes S S = Inr S
           \<and> 0 < prod_list S \<and> (1 < B \<and> 1 < N \<longrightarrow> S = [B, N])"
  using assms by (cases "B = 1"; cases "N = 1") (simp_all add: broadcast_shapes_def)

lemma wf_squeeze: "wf_tensor t \<Longrightarrow> wf_tensor (squeeze t)"
proof -
  have "prod_list (filter (\<lambda>d. d \<noteq> 1) s) = prod_list s" for s :: "nat list"
    by (induction s) simp_all
  then show "wf_tensor t \<Longrightarrow> wf_tensor (squeeze t)"
    by (simp add: wf_tensor_def squeeze_def)
qed

lemma wf_channel:
  assumes "length xs = B * C * N" "j < C"
  shows "wf_tensor \<lparr>shape = [B, 1, N], data = column B C [N] j xs\<rparr>"
  using length_column [of xs B C "[N]" j] assms by (simp add: wf_tensor_def)

lemma mul_zero_left:
  assumes "mul a b = Inr r" "\<forall>v\<in>set (data a). v = 0" "wf_tensor a" "wf_tensor b"
  shows "\<forall>v\<in>set (data r). v = 0"
proof -
  have d: "data r = map2 (\<lambda>x y. x * y) (expand_to (shape r) a) (expand_to (shape r) b)"
    using binop_result(2) [OF assms(1) [unfolded mul_def] assms(3,4)] .
  have "\<forall>x\<in>set (expand_to (shape r) a). x = 0"
    using assms(2) set_expand_to [of "shape r" a] by blast
  then show ?thesis unfolding d by (auto dest: set_zip_leftD)
qed

lemma apply_target_weight_result:
  assumes "use_target_weight self" "shape tw = [B, K]" "wf_tensor tw" "idx < K"
    and "shape hp = filter (\<lambda>d. d \<noteq> 1) [B, 1, N]" "wf_tensor hp"
    and "shape hg = filter (\<lambda>d. d \<noteq> 1) [B, 1, N]" "wf_tensor hg"
    and "broadcast_shapes (filter (\<lambda>d. d \<noteq> 1) [B, 1, N]) [B, 1] = Inr S"
  shows "\<exists>hp' hg'. apply_target_weight self (Some tw) idx hp hg = Inr (hp', hg')
           \<and> shape hp' = S \<and> shape hg' = S \<and> wf_tensor hp' \<and> wf_tensor hg'
           \<and> ((\<forall>v\<in>set (data hg). v = 0) \<longrightarrow> (\<forall>v\<in>set (data hg'). v = 0))"
proof -
  let ?tw = "\<lparr>shape = [B, 1], data = column B K [] idx (data tw)\<rparr>"
  have s: "select1 tw idx = Inr \<lparr>shape = [B], data = column B K [] idx (data tw)\<rparr>"
    using assms by (simp add: select1_def)
  have u: "unsqueeze 1 \<lparr>shape = [B], data = column B K [] idx (data tw)\<rparr> = Inr ?tw"
    by (simp add: unsqueeze_def ndim_def)
  have "length (data tw) = B * K * prod_list []" using assms by (simp add: wf_tensor_def)
  then have "length (column B K [] idx (data tw)) = B * prod_list []"
    using assms(4) by (rule length_column)
  then have wtw: "wf_tensor ?tw" by (simp add: wf_tensor_def)
  define hp' where "hp' = \<lparr>shape = S, data = map2 (\<lambda>x y. x * y) (expand_to S hp) (expand_to S ?tw)\<rparr>"
  define hg' where "hg' = \<lparr>shape = S, data = map2 (\<lambda>x y. x * y) (expand_to S hg) (expand_to S ?tw)\<rparr>"
  have mp: "mul hp ?tw = Inr hp'" and mg: "mul hg ?tw = Inr hg'"
    using assms by (simp_all add: mul_def binop_def hp'_def hg'_def)
  have "wf_tensor hp'" using binop_result(3) [OF mp [unfolded mul_def] assms(6) wtw] .
  moreover have "wf_tensor hg'" using binop_result(3) [OF mg [unfolded mul_def] assms(8) wtw] .
  moreover have "(\<forall>v\<in>set (data hg). v = 0) \<longrightarrow> (\<forall>v\<in>set (data hg'). v = 0)"
    using mul_zero_left [OF mg _ assms(8) wtw] by blast
  moreover have "apply_target_weight self (Some tw) idx hp hg = Inr (hp', hg')"
    using assms(1) s u mp mg by (simp add: apply_target_weight_def)
  ultimately show ?thesis by (auto simp: hp'_def hg'_def)
qed

lemma broadcast_shapes_refl: "broadcast_shapes s s = Inr s"
proof -
  have "broadcast_rev r r = Inr r" for r
    by (induction r) simp_all
  then show ?thesis by (simp add: broadcast_shapes_def)
qed

lemma joint_maps_result:
  assumes "shape output = [B, C, H, W]" "wf_tensor output"
    and "shape target = [B, C, H, W]" "wf_tensor target"
    and "0 < B" "0 < H * W" "idx * 3 + 2 < C"
    and "\<not> use_target_weight self \<or>
         (\<exists>tw K. tws = Some tw \<and> shape tw = [B, K] \<and> wf_tensor tw \<and> idx < K)"
    and "bindE (reshape3 B C output) split_1_1 = Inr hps"
    and "bindE (reshape3 B C target) split_1_1 = Inr hgs"
  obtains hp hg S where
    "joint_maps self hps hgs tws idx =
       Inr ((hp, hg),
            (squeeze \<lparr>shape = [B, 1, H * W], data = column B C [H * W] (idx * 3 + 1) (data output)\<rparr>,
             squeeze \<lparr>shape = [B, 1, H * W], data = column B C [H * W] (idx * 3 + 1) (data target)\<rparr>),
            (squeeze \<lparr>shape = [B, 1, H * W], data = column B C [H * W] (idx * 3 + 2) (data output)\<rparr>,
             squeeze \<lparr>shape = [B, 1, H * W], data = column B C [H * W] (idx * 3 + 2) (data target)\<rparr>))"
    and "shape hp = S" "shape hg = S" "wf_tensor hp" "wf_tensor hg"
    and "broadcast_shapes S (filter (\<lambda>d. d \<noteq> 1) [B, 1, H * W]) = Inr S"
    and "broadcast_shapes S S = Inr S"
    and "0 < prod_list S" "1 < B \<and> 1 < H * W \<longrightarrow> S = [B, H * W]"
    and "(\<forall>v\<in>set (column B C [H * W] (idx * 3) (data target)). v = 0)
                \<longrightarrow> (\<forall>v\<in>set (data hg). v = 0)"
proof -
  let ?N = "H * W"
  let ?ch = "\<lambda>t j. \<lparr>shape = [B, 1, ?N], data = column B C [?N] j (data t)\<rparr>"
  let ?sq = "filter (\<lambda>d. d \<noteq> 1) [B, 1, ?N]"
  have C: "0 < C" using assms(7) by simp
  have hps: "hps = map (?ch output) [0..<C]"
    using split_channels [OF assms(1,2,5) C] assms(9) by simp
  have hgs: "hgs = map (?ch target) [0..<C]"
    using split_channels [OF assms(3,4,5) C] assms(10) by simp
  have i0: "idx * 3 < C" and i1: "idx * 3 + 1 < C" and i2: "idx * 3 + 2 < C"
    using assms(7) by simp_all
  have lo: "length (data output) = B * C * ?N" and lt: "length (data target) = B * C * ?N"
    using assms(1-4) by (simp_all add: wf_tensor_def mult.assoc)
  have wp: "wf_tensor (squeeze (?ch output (idx * 3)))"
    using wf_channel [OF lo i0] by (rule wf_squeeze)
  have wg: "wf_tensor (squeeze (?ch target (idx * 3)))"
    using wf_channel [OF lt i0] by (rule wf_squeeze)
  have shp: "shape (squeeze (?ch output (idx * 3))) = ?sq"
    and shg: "shape (squeeze (?ch target (idx * 3))) = ?sq"
    and dg: "data (squeeze (?ch target (idx * 3))) = column B C [?N] (idx * 3) (data target)"
    by (simp_all add: squeeze_def)
  have jm: "joint_maps self hps hgs tws idx =
      bindE (apply_target_weight self tws idx
               (squeeze (?ch output (idx * 3))) (squeeze (?ch target (idx * 3))))
        (\<lambda>hm. Inr (hm, (squeeze (?ch output (idx * 3 + 1)), squeeze (?ch target (idx * 3 + 1))),
                     (squeeze (?ch output (idx * 3 + 2)), squeeze (?ch target (idx * 3 + 2)))))"
    unfolding joint_maps_def hps hgs py_index_def using i0 i1 i2 by simp
  show ?thesis
  proof (cases "use_target_weight self")
    case False
    have p: "0 < prod_list ?sq"
      using wp assms(5,6) shp by (cases "B = 1"; cases "?N = 1") simp_all
    have "apply_target_weight self tws idx
               (squeeze (?ch output (idx * 3))) (squeeze (?ch target (idx * 3)))
           = Inr (squeeze (?ch output (idx * 3)), squeeze (?ch target (idx * 3)))"
      using False by (simp add: apply_target_weight_def)
    then have "joint_maps self hps hgs tws idx =
        Inr ((squeeze (?ch output (idx * 3)), squeeze (?ch target (idx * 3))),
             (squeeze (?ch output (idx * 3 + 1)), squeeze (?ch target (idx * 3 + 1))),
             (squeeze (?ch output (idx * 3 + 2)), squeeze (?ch target (idx * 3 + 2))))"
      unfolding jm by simp
    moreover have "1 < B \<and> 1 < ?N \<longrightarrow> ?sq = [B, ?N]" by simp
    ultimately show ?thesis
      using wp wg shp shg dg p broadcast_shapes_refl [of ?sq]
      by (intro that [of "squeeze (?ch output (idx * 3))" "squeeze (?ch target (idx * 3))" ?sq])
         simp_all
  next
    case True
    then obtain tw K where tw: "tws = Some tw" "shape tw = [B, K]" "wf_tensor tw" "idx < K"
      using assms(8) by auto
    obtain S where S: "broadcast_shapes ?sq [B, 1] = Inr S"
      "broadcast_shapes S ?sq = Inr S" "broadcast_shapes S S = Inr S"
      "0 < prod_list S" "1 < B \<and> 1 < ?N \<longrightarrow> S = [B, ?N]"
      using weight_broadcast [OF assms(5,6)] by blast
    obtain hp' hg' where a: "apply_target_weight self (Some tw) idx
         (squeeze (?ch output (idx * 3))) (squeeze (?ch target (idx * 3))) = Inr (hp', hg')"
      "shape hp' = S" "shape hg' = S" "wf_tensor hp'" "wf_tensor hg'"
      "(\<forall>v\<in>set (data (squeeze (?ch target (idx * 3)))). v = 0) \<longrightarrow> (\<forall>v\<in>set (data hg'). v = 0)"
      using apply_target_weight_result [OF True tw(2,3,4) shp wp shg wg S(1)] by blast
    have "joint_maps self hps hgs tws idx =
        Inr ((hp', hg'),
             (squeeze (?ch output (idx * 3 + 1)), squeeze (?ch target (idx * 3 + 1))),
             (squeeze (?ch output (idx * 3 + 2)), squeeze (?ch target (idx * 3 + 2))))"
      using jm a(1) tw(1) by simp
    then show ?thesis
      using a(2-6) S(2-5) unfolding dg by (intro that [of hp' hg' S]) simp_all
  qed
qed


subsection \<open>The first keypoint of \<^verbatim>\<open>CombinedTargetIOULoss.forward\<close>\<close>

lemma joint_maps_single_location:
  assumes "shape output = [B, C, H, W]" "wf_tensor output"
    and "shape target = [B, C, H, W]" "wf_tensor target"
    and "1 < B" "H * W = 1" "idx * 3 + 2 < C"
    and "\<not> use_target_weight self \<or>
         (\<exists>tw K. tws = Some tw \<and> shape tw = [B, K] \<and> wf_tensor tw \<and> idx < K)"
    and "bindE (reshape3 B C output) split_1_1 = Inr hps"
    and "bindE (reshape3 B C target) split_1_1 = Inr hgs"
  obtains hp hg ox oy where
    "joint_maps self hps hgs tws idx = Inr ((hp, hg), ox, oy)"
    and "shape hp = (if use_target_weight self then [B, B] else [B])"
    and "shape hg = (if use_target_weight self then [B, B] else [B])"
    and "wf_tensor hg"
proof -
  let ?ch = "\<lambda>t j. \<lparr>shape = [B, 1, H * W], data = column B C [H * W] j (data t)\<rparr>"
  let ?sq = "filter (\<lambda>d. d \<noteq> 1) [B, 1, H * W]"
  have B: "0 < B" using assms(5) by simp
  have C: "0 < C" using assms(7) by simp
  have sq: "?sq = [B]" using assms(5,6) by simp
  have hps: "hps = map (?ch output) [0..<C]"
    using split_channels [OF assms(1,2) B C] assms(9) by simp
  have hgs: "hgs = map (?ch target) [0..<C]"
    using split_channels [OF assms(3,4) B C] assms(10) by simp
  have i0: "idx * 3 < C" and i1: "idx * 3 + 1 < C" and i2: "idx * 3 + 2 < C"
    using assms(7) by simp_all
  have lo: "length (data output) = B * C * (H * W)"
    and lt: "length (data target) = B * C * (H * W)"
    using assms(1-4) by (simp_all add: wf_tensor_def mult.assoc)
  have wp: "wf_tensor (squeeze (?ch output (idx * 3)))"
    using wf_channel [OF lo i0] by (rule wf_squeeze)
  have wg: "wf_tensor (squeeze (?ch target (idx * 3)))"
    using wf_channel [OF lt i0] by (rule wf_squeeze)
  have shp: "shape (squeeze (?ch output (idx * 3))) = ?sq"
    and shg: "shape (squeeze (?ch target (idx * 3))) = ?sq"
    by (simp_all add: squeeze_def)
  have jm: "joint_maps self hps hgs tws idx =
      bindE (apply_target_weight self tws idx
               (squeeze (?ch output (idx * 3))) (squeeze (?ch target (idx * 3))))
        (\<lambda>hm. Inr (hm, (squeeze (?ch output (idx * 3 + 1)), squeeze (?ch target (idx * 3 + 1))),
                     (squeeze (?ch output (idx * 3 + 2)), squeeze (?ch target (idx * 3 + 2)))))"
    unfolding joint_maps_def hps hgs py_index_def using i0 i1 i2 by simp
  show ?thesis
  proof (cases "use_target_weight self")
    case False
    have "apply_target_weight self tws idx
               (squeeze (?ch output (idx * 3))) (squeeze (?ch target (idx * 3)))
           = Inr (squeeze (?ch output (idx * 3)), squeeze (?ch target (idx * 3)))"
      using False by (simp add: apply_target_weight_def)
    then have "joint_maps self hps hgs tws idx =
        Inr ((squeeze (?ch output (idx * 3)), squeeze (?ch target (idx * 3))),
             (squeeze (?ch output (idx * 3 + 1)), squeeze (?ch target (idx * 3 + 1))),
             (squeeze (?ch output (idx * 3 + 2)), squeeze (?ch target (idx * 3 + 2))))"
      unfolding jm by simp
    moreover have "shape (squeeze (?ch output (idx * 3))) = [B]"
      "shape (squeeze (?ch target (idx * 3))) = [B]"
      using shp shg sq by simp_all
    ultimately show ?thesis using False wg by (intro that) simp_all
  next
    case True
    then obtain tw K where tw: "tws = Some tw" "shape tw = [B, K]" "wf_tensor tw" "idx < K"
      using assms(8) by auto
    have S: "broadcast_shapes ?sq [B, 1] = Inr [B, B]"
      using assms(5,6) by (simp add: broadcast_shapes_def)
    obtain hp' hg' where a: "apply_target_weight self (Some tw) idx
         (squeeze (?ch output (idx * 3))) (squeeze (?ch target (idx * 3))) = Inr (hp', hg')"
      "shape hp' = [B, B]" "shape hg' = [B, B]" "wf_tensor hp'" "wf_tensor hg'"
      using apply_target_weight_result [OF True tw(2,3,4) shp wp shg wg S] by blast
    have "joint_maps self hps hgs tws idx =
        Inr ((hp', hg'),
             (squeeze (?ch output (idx * 3 + 1)), squeeze (?ch target (idx * 3 + 1))),
             (squeeze (?ch output (idx * 3 + 2)), squeeze (?ch target (idx * 3 + 2))))"
      using jm a(1) tw(1) by simp
    then show ?thesis using True a(2,3,5) by (intro that) simp_all
  qed
qed

lemma location_index_fails:
  assumes "shape heatmap_gt = [B]"
  shows "CombinedTargetIOULoss_location b H heatmap_gt ox oy boxes xy = Inl IndexError"
  using assms
  by (cases boxes; cases xy; cases ox; cases oy)
     (simp add: CombinedTargetIOULoss_location_def select1_def)

lemma IOU_joint_index_fails:
  assumes jm: "joint_maps self heatmaps_pred heatmaps_gt tws idx = Inr ((hp, hg), ox, oy)"
    and "shape hp = [B]" "shape hg = [B]" "0 < W" "0 < H"
  shows "CombinedTargetIOULoss_joint self iou_loss b W H heatmaps_pred heatmaps_gt tws loss idx
           = Inl IndexError"
proof -
  obtain c where c: "MSELoss_mean hp hg = Inr c"
    using MSELoss_mean_same_shape_Inr [of hp hg] assms by auto
  obtain rest where rest: "concat (map (\<lambda>x. map (\<lambda>y. (x, y)) [0..<H]) [0..<W]) = (0, 0) # rest"
    using locations_first assms by blast
  have "CombinedTargetIOULoss_location b H hg ox oy ([], []) (0, 0) = Inl IndexError"
    using assms(3) by (rule location_index_fails)
  then show ?thesis
    unfolding CombinedTargetIOULoss_joint_def jm using c rest by simp
qed

lemma IOU_forward_first_joint:
  assumes "shape output = [B, C, H, W]" "wf_tensor output"
    and "shape target = [B, C, H, W]" "wf_tensor target"
    and "0 < B" "3 \<le> C"
    and "CombinedTargetIOULoss_joint self iou_loss B H W
           (map (\<lambda>j. \<lparr>shape = [B, 1, H * W], data = column B C [H * W] j (data output)\<rparr>) [0..<C])
           (map (\<lambda>j. \<lparr>shape = [B, 1, H * W], data = column B C [H * W] j (data target)\<rparr>) [0..<C])
           target_weights (Fin 0) 0 = Inl e"
  shows "CombinedTargetIOULoss_forward self iou_loss output target target_weights = Inl e"
proof -
  have C: "0 < C" using assms(6) by simp
  have "[0..<C div 3] = 0 # [1..<C div 3]"
    using assms(6) by (simp add: upt_conv_Cons)
  moreover have "reshape3 B C output = Inr \<lparr>shape = [B, C, H * W], data = data output\<rparr>"
    "reshape3 B C target = Inr \<lparr>shape = [B, C, H * W], data = data target\<rparr>"
    using assms(1-5) C by (simp_all add: reshape3_def wf_tensor_def mult.assoc)
  moreover have "split_1_1 \<lparr>shape = [B, C, H * W], data = data output\<rparr> =
      Inr (map (\<lambda>j. \<lparr>shape = [B, 1, H * W], data = column B C [H * W] j (data output)\<rparr>) [0..<C])"
    "split_1_1 \<lparr>shape = [B, C, H * W], data = data target\<rparr> =
      Inr (map (\<lambda>j. \<lparr>shape = [B, 1, H * W], data = column B C [H * W] j (data target)\<rparr>) [0..<C])"
    using C by (simp_all add: split_1_1_def)
  ultimately show ?thesis
    unfolding CombinedTargetIOULoss_forward_def using assms(1,7)
    by (simp add: tsize_def ndim_def Let_def)
qed

lemma IOU_forward_no_keypoint:
  assumes "shape output = [B, C, H, W]" "wf_tensor output"
    and "shape target = [B, C, H, W]" "wf_tensor target"
    and "0 < B" "0 < C" "C < 3"
  shows "CombinedTargetIOULoss_forward self iou_loss output target target_weights
           = Inl ZeroDivisionError"
proof -
  have "C div 3 = 0" using assms(7) by simp
  moreover have "reshape3 B C output = Inr \<lparr>shape = [B, C, H * W], data = data output\<rparr>"
    "reshape3 B C target = Inr \<lparr>shape = [B, C, H * W], data = data target\<rparr>"
    using assms(1-6) by (simp_all add: reshape3_def wf_tensor_def mult.assoc)
  moreover have "\<exists>ts. split_1_1 \<lparr>shape = [B, C, H * W], data = data output\<rparr> = Inr ts"
    "\<exists>ts. split_1_1 \<lparr>shape = [B, C, H * W], data = data target\<rparr> = Inr ts"
    by (simp_all add: split_1_1_def)
  ultimately show ?thesis
    unfolding CombinedTargetIOULoss_forward_def using assms(1)
    by (auto simp: tsize_def ndim_def Let_def)
qed


subsection \<open>\<^verbatim>\<open>CombinedTargetIOULoss.forward\<close> returns no value\<close>

lemma isl_bindE: "(\<And>x. isl (f x)) \<Longrightarrow> isl (bindE m f)"
  by (cases m) simp_all

lemma location_boxes_fails: "isl (location_boxes batch_size H x y offset_x offset_y bbox)"
  unfolding location_boxes_def Let_def
  by (simp add: rsub_bool_def) (intro isl_bindE, simp)

lemma location_keeps_boxes:
  assumes "CombinedTargetIOULoss_location batch_size H heatmap_gt ox oy boxes xy = Inr boxes'"
  shows "boxes' = boxes"
proof -
  obtain bg bp x y oxp oxg oyp oyg where
    e: "boxes = (bg, bp)" "xy = (x, y)" "ox = (oxp, oxg)" "oy = (oyp, oyg)"
    by (cases boxes; cases xy; cases ox; cases oy) auto
  obtain e1 where "location_boxes batch_size H x y oxg oyg bg = Inl e1"
    using location_boxes_fails [of batch_size H x y oxg oyg bg] by (auto simp: isl_def)
  then show ?thesis
    using assms unfolding CombinedTargetIOULoss_location_def e
    by (auto simp: bindE_def split: sum.splits if_splits)
qed

lemma locations_keep_boxes:
  "foldE (CombinedTargetIOULoss_location batch_size H heatmap_gt ox oy) boxes xys = Inr boxes'
     \<Longrightarrow> boxes' = boxes"
proof (induction xys arbitrary: boxes)
  case Nil
  then show ?case by simp
next
  case (Cons xy xys)
  then obtain b1 where b1: "CombinedTargetIOULoss_location batch_size H heatmap_gt ox oy boxes xy = Inr b1"
    and r: "foldE (CombinedTargetIOULoss_location batch_size H heatmap_gt ox oy) b1 xys = Inr boxes'"
    by (auto simp: bindE_def split: sum.splits)
  have "b1 = boxes" using b1 by (rule location_keeps_boxes)
  then show ?case using Cons.IH [OF r] by simp
qed

lemma IOU_joint_always_fails:
  "isl (CombinedTargetIOULoss_joint self iou_loss batch_size W H heatmaps_pred heatmaps_gt
          target_weights loss idx)"
proof (cases "joint_maps self heatmaps_pred heatmaps_gt target_weights idx")
  case (Inl e)
  then show ?thesis by (simp add: CombinedTargetIOULoss_joint_def)
next
  case (Inr maps)
  then obtain hp hg ox oy where
    jm: "joint_maps self heatmaps_pred heatmaps_gt target_weights idx = Inr ((hp, hg), ox, oy)"
    by (cases maps) auto
  show ?thesis
  proof (cases "MSELoss_mean hp hg")
    case (Inl e)
    then show ?thesis using jm by (simp add: CombinedTargetIOULoss_joint_def)
  next
    case c: (Inr c)
    let ?xys = "concat (map (\<lambda>x. map (\<lambda>y. (x, y)) [0..<H]) [0..<W])"
    show ?thesis
    proof (cases "foldE (CombinedTargetIOULoss_location batch_size H hg ox oy) ([], []) ?xys")
      case (Inl e)
      then show ?thesis using jm c by (simp add: CombinedTargetIOULoss_joint_def)
    next
      case (Inr boxes')
      then have "boxes' = ([], [])" by (rule locations_keep_boxes)
      then show ?thesis using jm c Inr by (simp add: CombinedTargetIOULoss_joint_def cat0_def)
    qed
  qed
qed

lemma isl_bindE_iff: "isl (bindE m f) \<longleftrightarrow> (\<forall>x. m = Inr x \<longrightarrow> isl (f x))"
  by (cases m) simp_all

lemma IOU_joints_fail:
  assumes "foldE (CombinedTargetIOULoss_joint self iou_loss b W H hps hgs target_weights)
             l [0..<n] = Inr loss"
  shows "n = 0"
proof (rule ccontr)
  assume "n \<noteq> 0"
  then have "[0..<n] = 0 # [1..<n]" by (simp add: upt_conv_Cons)
  moreover obtain e where
    "CombinedTargetIOULoss_joint self iou_loss b W H hps hgs target_weights l 0 = Inl e"
    using IOU_joint_always_fails [of self iou_loss b W H hps hgs target_weights l 0]
    by (auto simp: isl_def)
  ultimately show False using assms by simp
qed

lemma IOU_forward_always_fails:
  "isl (CombinedTargetIOULoss_forward self iou_loss output target target_weights)"
  unfolding CombinedTargetIOULoss_forward_def Let_def
  by (auto simp: isl_bindE_iff split: list.splits dest: IOU_joints_fail)

subsection \<open>A classification map of zeros\<close>

lemma foldE_cong:
  "(\<And>x s. x \<in> set xs \<Longrightarrow> f s x = g s x) \<Longrightarrow> foldE f s xs = foldE g s xs"
  by (induction xs arbitrary: s) (simp_all cong: arg_cong2 [where f = bindE])

lemma tadd_zero: "tadd l (Fin 0) = l"
  by (cases l) simp_all

lemma mean_zeros:
  assumes "\<forall>v\<in>set xs. v = 0" "xs \<noteq> []"
  shows "mean xs = Fin 0"
proof -
  have "xs = replicate (length xs) 0"
    using assms(1) by (simp add: replicate_length_same)
  then have "sum_list xs = 0" by (metis sum_list_replicate mult_zero_right)
  then show ?thesis using assms(2) by (simp add: mean_def)
qed

lemma MSELoss_mean_zero:
  assumes "shape a = S" "shape b = S" "wf_tensor a" "wf_tensor b" "0 < prod_list S"
    and "\<forall>v\<in>set (data a). v = 0" "\<forall>v\<in>set (data b). v = 0"
  shows "MSELoss_mean a b = Inr (Fin 0)"
proof -
  let ?d = "map2 (\<lambda>x y. (x - y)\<^sup>2) (data a) (data b)"
  have n: "MSELoss_none a b = Inr \<lparr>shape = S, data = ?d\<rparr>"
    unfolding MSELoss_none_def
    using assms(1-4) by (intro binop_same_shape) (simp_all add: wf_tensor_def)
  have "length ?d = prod_list S" using assms(1-4) by (simp add: wf_tensor_def)
  then have ne: "?d \<noteq> []" using assms(5) by auto
  have "x = 0 \<and> y = 0" if "(x, y) \<in> set (zip (data a) (data b))" for x y
    using assms(6,7) set_zip_leftD [OF that] set_zip_rightD [OF that] by simp
  then have "\<forall>v\<in>set ?d. v = 0"
    by fastforce
  then have "mean ?d = Fin 0" using ne by (rule mean_zeros)
  then show ?thesis using n by (simp add: MSELoss_mean_def)
qed

lemma regression_loss_zero:
  assumes "shape hg = S" "wf_tensor hg" "\<forall>v\<in>set (data hg). v = 0"
    and "broadcast_shapes S (shape op) = Inr S" "wf_tensor op"
    and "broadcast_shapes S (shape og) = Inr S" "wf_tensor og"
    and "0 < prod_list S"
  shows "regression_loss hg op og = Inr (Fin 0)"
proof -
  define a where "a = \<lparr>shape = S, data = map2 (\<lambda>x y. x * y) (expand_to S hg) (expand_to S op)\<rparr>"
  define b where "b = \<lparr>shape = S, data = map2 (\<lambda>x y. x * y) (expand_to S hg) (expand_to S og)\<rparr>"
  have ma: "mul hg op = Inr a" and mb: "mul hg og = Inr b"
    using assms(1,4,6) by (simp_all add: mul_def binop_def a_def b_def)
  have "wf_tensor a" using binop_result(3) [OF ma [unfolded mul_def] assms(2,5)] .
  moreover have "wf_tensor b" using binop_result(3) [OF mb [unfolded mul_def] assms(2,7)] .
  moreover have "\<forall>v\<in>set (data a). v = 0" using mul_zero_left [OF ma assms(3,2,5)] .
  moreover have "\<forall>v\<in>set (data b). v = 0" using mul_zero_left [OF mb assms(3,2,7)] .
  moreover have "shape a = S" "shape b = S" by (simp_all add: a_def b_def)
  ultimately have "MSELoss_mean a b = Inr (Fin 0)"
    using assms(8) by (intro MSELoss_mean_zero [where S = S]) simp_all
  then show ?thesis using ma mb by (simp add: regression_loss_def)
qed

lemma set_chunk_nth:
  assumes "v \<in> set (chunk n k xs)"
  shows "\<exists>p<n. k * n + p < length xs \<and> v = xs ! (k * n + p)"
proof -
  obtain p where p: "p < length (chunk n k xs)" "v = chunk n k xs ! p"
    using assms by (auto simp: in_set_conv_nth)
  then have b: "p < n" "k * n + p < length xs"
    by (auto simp: chunk_def)
  then have "k * n \<le> length xs" by simp
  then have "chunk n k xs ! p = xs ! (k * n + p)"
    using b(1) by (simp add: chunk_def)
  then show ?thesis using p(2) b by auto
qed

lemma column_zero:
  assumes "shape t = [B, C, H, W]" "j < C"
    and "\<forall>b<B. \<forall>h<H. \<forall>w<W. item t [b, j, h, w] = (0 :: real)"
  shows "\<forall>v\<in>set (column B C [H * W] j (data t)). v = 0"
proof
  fix v assume "v \<in> set (column B C [H * W] j (data t))"
  then obtain b where b: "b < B" "v \<in> set (chunk (H * W) (b * C + j) (data t))"
    by (auto simp: column_def)
  then obtain p where p: "p < H * W" "v = data t ! ((b * C + j) * (H * W) + p)"
    using set_chunk_nth [of v "H * W" "b * C + j" "data t"] by auto
  have W: "0 < W" using p(1) by (cases W) simp_all
  have h: "p div W < H" using p(1) by (simp add: less_mult_imp_div_less mult.commute)
  have w: "p mod W < W" using W by simp
  have "((b * C + j) * H + p div W) * W + p mod W = (b * C + j) * (H * W) + p"
    by (simp add: algebra_simps)
  then have "item t [b, j, p div W, p mod W] = v"
    using assms(1) p(2) by (simp add: item4 [of t B C H W])
  then show "v = 0" using assms(3) b(1) h w by auto
qed

lemma regression_terms_zero:
  assumes "shape output = [B, C, H, W]" "wf_tensor output"
    and "shape target = [B, C, H, W]" "wf_tensor target"
    and "0 < B" "0 < H * W" "idx < C div 3"
    and "\<not> use_target_weight self \<or>
         (\<exists>tw K. tws = Some tw \<and> shape tw = [B, K] \<and> wf_tensor tw \<and> C div 3 \<le> K)"
    and "\<forall>b<B. \<forall>k<C div 3. \<forall>h<H. \<forall>w<W. item target [b, 3 * k, h, w] = 0"
    and "bindE (reshape3 B C output) split_1_1 = Inr hps"
    and "bindE (reshape3 B C target) split_1_1 = Inr hgs"
  obtains hp hg oxp oxg oyp oyg where
    "joint_maps self hps hgs tws idx = Inr ((hp, hg), (oxp, oxg), (oyp, oyg))"
    "regression_loss hg oxp oxg = Inr (Fin 0)" "regression_loss hg oyp oyg = Inr (Fin 0)"
proof -
  let ?N = "H * W"
  let ?ch = "\<lambda>t j. \<lparr>shape = [B, 1, ?N], data = column B C [?N] j (data t)\<rparr>"
  let ?sq = "filter (\<lambda>d. d \<noteq> 1) [B, 1, ?N]"
  have i: "idx * 3 + 2 < C" using assms(7) by simp
  have w: "\<not> use_target_weight self \<or>
         (\<exists>tw K. tws = Some tw \<and> shape tw = [B, K] \<and> wf_tensor tw \<and> idx < K)"
    using assms(7,8) by auto
  have z: "\<forall>v\<in>set (column B C [?N] (idx * 3) (data target)). v = 0"
  proof (rule column_zero [OF assms(3)])
    show "idx * 3 < C" using i by simp
    show "\<forall>b<B. \<forall>h<H. \<forall>w<W. item target [b, idx * 3, h, w] = 0"
      using assms(7,9) by (simp add: mult.commute)
  qed
  obtain hp hg S where r:
    "joint_maps self hps hgs tws idx =
       Inr ((hp, hg), (squeeze (?ch output (idx * 3 + 1)), squeeze (?ch target (idx * 3 + 1))),
            (squeeze (?ch output (idx * 3 + 2)), squeeze (?ch target (idx * 3 + 2))))"
    "shape hg = S" "wf_tensor hg" "broadcast_shapes S ?sq = Inr S" "0 < prod_list S"
    "\<forall>v\<in>set (data hg). v = 0"
    using joint_maps_result [OF assms(1-6) i w assms(10,11)] z by metis
  have lo: "length (data output) = B * C * ?N" and lt: "length (data target) = B * C * ?N"
    using assms(1-4) by (simp_all add: wf_tensor_def mult.assoc)
  have wfc: "wf_tensor (squeeze (?ch t j))" if "length (data t) = B * C * ?N" "j < C" for t j
    using wf_channel [OF that] by (rule wf_squeeze)
  have shc: "shape (squeeze (?ch t j)) = ?sq" for t j
    by (simp add: squeeze_def)
  have i1: "idx * 3 + 1 < C" using i by simp
  have "regression_loss hg (squeeze (?ch output (idx * 3 + 1))) (squeeze (?ch target (idx * 3 + 1)))
          = Inr (Fin 0)"
    using r(2,3,6) r(4) wfc [OF lo i1] r(4) wfc [OF lt i1] r(5)
    by (intro regression_loss_zero [where S = S]) (simp_all only: shc)
  moreover have "regression_loss hg (squeeze (?ch output (idx * 3 + 2))) (squeeze (?ch target (idx * 3 + 2)))
          = Inr (Fin 0)"
    using r(2,3,6) r(4) wfc [OF lo i] r(4) wfc [OF lt i] r(5)
    by (intro regression_loss_zero [where S = S]) (simp_all only: shc)
  ultimately show ?thesis using r(1) by (rule that [rotated])
qed

lemma joint_without_regression:
  assumes "joint_maps self hps hgs tws idx = Inr ((hp, hg), (oxp, oxg), (oyp, oyg))"
    and "regression_loss hg oxp oxg = Inr (Fin 0)" "regression_loss hg oyp oyg = Inr (Fin 0)"
  shows "CombinedTargetMSELoss_joint self hps hgs tws loss idx
           = classification_joint self hps hgs tws loss idx"
  unfolding CombinedTargetMSELoss_joint_def classification_joint_def assms(1)
  using assms(2,3) by (cases "MSELoss_mean hp hg") (simp_all add: tadd_zero)

subsection \<open>Elements of columns and concatenations\<close>

lemma nth_chunk:
  "p < n \<Longrightarrow> k * n + p < length xs \<Longrightarrow> chunk n k xs ! p = xs ! (k * n + p)"
  by (simp add: chunk_def)

lemma nth_concat_const:
  assumes "\<And>i. i < b \<Longrightarrow> length (f i) = n" "q < b * n"
  shows "concat (map f [0..<b]) ! q = f (q div n) ! (q mod n)"
  using assms
proof (induction b)
  case 0
  then show ?case by simp
next
  case (Suc b)
  have len: "length (concat (map f [0..<b])) = b * n"
    using Suc.prems(1) by (intro length_concat_const) simp
  show ?case
  proof (cases "q < b * n")
    case True
    then have "concat (map f [0..<b]) ! q = f (q div n) ! (q mod n)"
      using Suc.prems(1) by (intro Suc.IH) simp_all
    then show ?thesis using True len by (simp add: nth_append)
  next
    case False
    then have ge: "b * n \<le> q" by simp
    have n: "0 < n" using Suc.prems(2) by (cases n) simp_all
    have "q - b * n < n" using Suc.prems(2) ge by simp
    then have "(b * n + (q - b * n)) div n = b" "(b * n + (q - b * n)) mod n = q - b * n"
      using n by simp_all
    then have "q div n = b" "q mod n = q - b * n" using ge by simp_all
    then show ?thesis using False len by (simp add: nth_append)
  qed
qed

lemma index_bound:
  fixes i j b c n p :: nat
  assumes "i < b" "j < c" "p < n"
  shows "(i * c + j) * n + p < b * c * n"
proof -
  have "i * c + j < i * c + c" using assms(2) by simp
  also have "\<dots> = Suc i * c" by simp
  also have "\<dots> \<le> b * c" using assms(1) by (intro mult_le_mono1) simp
  finally have "Suc (i * c + j) \<le> b * c" by simp
  then have "Suc (i * c + j) * n \<le> b * c * n" by (rule mult_le_mono1)
  moreover have "(i * c + j) * n + p < Suc (i * c + j) * n" using assms(3) by simp
  ultimately show ?thesis by simp
qed

lemma nth_column:
  assumes "length xs = b * c * prod_list rest" "j < c" "q < b * prod_list rest"
  shows "column b c rest j xs ! q
           = xs ! ((q div prod_list rest * c + j) * prod_list rest + q mod prod_list rest)"
proof -
  let ?n = "prod_list rest"
  have n: "0 < ?n" using assms(3) by (cases ?n) simp_all
  have qd: "q div ?n < b" using assms(3) by (simp add: less_mult_imp_div_less)
  have qm: "q mod ?n < ?n" using n by simp
  have len: "length (chunk ?n (i * c + j) xs) = ?n" if "i < b" for i
  proof -
    have "(i * c + j) * ?n + 0 < b * c * ?n" using that assms(2) n by (intro index_bound)
    then have "Suc (i * c + j) * ?n \<le> length xs"
      using index_bound [OF that assms(2), of "?n - 1" ?n] n assms(1) by simp
    then show ?thesis by (rule length_chunk_le)
  qed
  have "column b c rest j xs ! q = chunk ?n (q div ?n * c + j) xs ! (q mod ?n)"
    unfolding column_def using len assms(3) by (rule nth_concat_const)
  also have "\<dots> = xs ! ((q div ?n * c + j) * ?n + q mod ?n)"
    using qm index_bound [OF qd assms(2) qm] assms(1) by (intro nth_chunk) simp_all
  finally show ?thesis .
qed

subsection \<open>The loss matrix of \<^verbatim>\<open>KeypointOHKMMSELoss\<close>\<close>

lemma mul_weights3:
  assumes "shape x = [B, H, W]" "length (data x) = B * H * W" "length ws = B"
  shows "mul x \<lparr>shape = [B, 1, 1], data = ws\<rparr>
       = Inr \<lparr>shape = [B, H, W],
              data = map2 (\<lambda>a c. a * c) (data x) (concat (map (replicate (H * W)) ws))\<rparr>"
proof -
  have "expand ([B] @ replicate 2 (Suc 0)) ([B] @ [H, W]) ws
      = concat (map (replicate (prod_list [H, W])) ws)"
    using assms by (intro expand_trailing) simp_all
  then have e: "expand [B, Suc 0, Suc 0] [B, H, W] ws = concat (map (replicate (H * W)) ws)"
    by (simp add: numeral_2_eq_2)
  have "expand_to [B, H, W] \<lparr>shape = [B, 1, 1], data = ws\<rparr> = concat (map (replicate (H * W)) ws)"
    by (simp add: expand_to_def ndim_def e)
  moreover have "expand_to [B, H, W] x = data x"
    unfolding expand_to_def ndim_def using assms by (simp add: expand_same)
  moreover have "broadcast_shapes [B, H, W] [B, Suc 0, Suc 0] = Inr [B, H, W]"
    by (simp add: broadcast_shapes_def)
  ultimately show ?thesis
    unfolding mul_def binop_def using assms by simp
qed

lemma ohkm_keypoint_data:
  assumes "shape output = [B, K, H, W]" "wf_tensor output"
    and "shape target = [B, K, H, W]" "wf_tensor target"
    and "idx < K"
    and "\<not> use_target_weight self \<or>
         (\<exists>tw. tws = Some tw \<and> shape tw = [B, K] \<and> wf_tensor tw
               \<and> (\<forall>b<B. wt b = data tw ! (b * K + idx)))"
    and "use_target_weight self \<or> (\<forall>b<B. wt b = 1)"
  obtains d where
    "KeypointOHKMMSELoss_keypoint self output target tws idx = Inr \<lparr>shape = [B, H, W], data = d\<rparr>"
    "length d = B * (H * W)"
    "\<forall>q<B * (H * W). d ! q =
        (data output ! ((q div (H * W) * K + idx) * (H * W) + q mod (H * W)) * wt (q div (H * W))
          - data target ! ((q div (H * W) * K + idx) * (H * W) + q mod (H * W)) * wt (q div (H * W)))\<^sup>2"
proof -
  let ?N = "H * W"
  let ?co = "column B K [H, W] idx (data output)"
  let ?ct = "column B K [H, W] idx (data target)"
  have lo: "length (data output) = B * K * prod_list [H, W]"
    and lt: "length (data target) = B * K * prod_list [H, W]"
    using assms(1-4) by (simp_all add: wf_tensor_def mult.assoc)
  have lco: "length ?co = B * ?N" using length_column [OF lo assms(5)] by simp
  have lct: "length ?ct = B * ?N" using length_column [OF lt assms(5)] by simp
  have nco: "?co ! q = data output ! ((q div ?N * K + idx) * ?N + q mod ?N)" if "q < B * ?N" for q
    using nth_column [OF lo assms(5), of q] that by simp
  have nct: "?ct ! q = data target ! ((q div ?N * K + idx) * ?N + q mod ?N)" if "q < B * ?N" for q
    using nth_column [OF lt assms(5), of q] that by simp
  have so: "select1 output idx = Inr \<lparr>shape = [B, H, W], data = ?co\<rparr>"
    and st: "select1 target idx = Inr \<lparr>shape = [B, H, W], data = ?ct\<rparr>"
    using assms(1,3,5) by (simp_all add: select1_def)
  show ?thesis
  proof (cases "use_target_weight self")
    case False
    then have w1: "\<forall>b<B. wt b = 1" using assms(7) by simp
    let ?d = "map2 (\<lambda>x y. (x - y)\<^sup>2) ?co ?ct"
    have "MSELoss_none \<lparr>shape = [B, H, W], data = ?co\<rparr> \<lparr>shape = [B, H, W], data = ?ct\<rparr>
        = Inr \<lparr>shape = [B, H, W], data = ?d\<rparr>"
      unfolding MSELoss_none_def
      using lco lct
        binop_same_shape [of "\<lparr>shape = [B, H, W], data = ?co\<rparr>" "[B, H, W]"
                             "\<lparr>shape = [B, H, W], data = ?ct\<rparr>" "\<lambda>x y. (x - y)\<^sup>2"]
      by (simp add: mult.assoc)
    then have "KeypointOHKMMSELoss_keypoint self output target tws idx
        = Inr \<lparr>shape = [B, H, W], data = ?d\<rparr>"
      using False so st by (simp add: KeypointOHKMMSELoss_keypoint_def)
    moreover have "length ?d = B * ?N" using lco lct by simp
    moreover have "\<forall>q<B * ?N. ?d ! q =
        (data output ! ((q div ?N * K + idx) * ?N + q mod ?N) * wt (q div ?N)
          - data target ! ((q div ?N * K + idx) * ?N + q mod ?N) * wt (q div ?N))\<^sup>2"
    proof (intro allI impI)
      fix q assume q: "q < B * ?N"
      then have "q div ?N < B" by (simp add: less_mult_imp_div_less)
      then have "wt (q div ?N) = 1" using w1 by simp
      then show "?d ! q =
        (data output ! ((q div ?N * K + idx) * ?N + q mod ?N) * wt (q div ?N)
          - data target ! ((q div ?N * K + idx) * ?N + q mod ?N) * wt (q div ?N))\<^sup>2"
        using q lco lct nco [OF q] nct [OF q] by simp
    qed
    ultimately show ?thesis by (rule that)
  next
    case True
    then obtain tw where tw: "tws = Some tw" "shape tw = [B, K]" "wf_tensor tw"
      "\<forall>b<B. wt b = data tw ! (b * K + idx)"
      using assms(6) by auto
    let ?ws = "column B K [] idx (data tw)"
    let ?rep = "concat (map (replicate ?N) ?ws)"
    have ltw: "length (data tw) = B * K * prod_list []" using tw by (simp add: wf_tensor_def)
    have lws: "length ?ws = B" using length_column [OF ltw assms(5)] by simp
    have nws: "?ws ! b = data tw ! (b * K + idx)" if "b < B" for b
      using nth_column [OF ltw assms(5), of b] that by simp
    have lrep: "length ?rep = B * ?N" using lws by (simp add: length_concat_replicate)
    have s: "select1 tw idx = Inr \<lparr>shape = [B], data = ?ws\<rparr>"
      using tw assms(5) by (simp add: select1_def)
    have u1: "unsqueeze 1 \<lparr>shape = [B], data = ?ws\<rparr> = Inr \<lparr>shape = [B, 1], data = ?ws\<rparr>"
      by (simp add: unsqueeze_def ndim_def)
    have u2: "unsqueeze 2 \<lparr>shape = [B, 1], data = ?ws\<rparr> = Inr \<lparr>shape = [B, 1, 1], data = ?ws\<rparr>"
      by (simp add: unsqueeze_def ndim_def)
    let ?a = "\<lparr>shape = [B, H, W], data = map2 (\<lambda>a c. a * c) ?co ?rep\<rparr>"
    let ?b = "\<lparr>shape = [B, H, W], data = map2 (\<lambda>a c. a * c) ?ct ?rep\<rparr>"
    have ma: "mul \<lparr>shape = [B, H, W], data = ?co\<rparr> \<lparr>shape = [B, 1, 1], data = ?ws\<rparr> = Inr ?a"
      using mul_weights3 [of "\<lparr>shape = [B, H, W], data = ?co\<rparr>" B H W ?ws] lco lws
      by (simp add: mult.assoc)
    have mb: "mul \<lparr>shape = [B, H, W], data = ?ct\<rparr> \<lparr>shape = [B, 1, 1], data = ?ws\<rparr> = Inr ?b"
      using mul_weights3 [of "\<lparr>shape = [B, H, W], data = ?ct\<rparr>" B H W ?ws] lct lws
      by (simp add: mult.assoc)
    let ?d = "map2 (\<lambda>x y. (x - y)\<^sup>2) (data ?a) (data ?b)"
    have "MSELoss_none ?a ?b = Inr \<lparr>shape = [B, H, W], data = ?d\<rparr>"
      unfolding MSELoss_none_def
      using lco lct lrep binop_same_shape [of ?a "[B, H, W]" ?b "\<lambda>x y. (x - y)\<^sup>2"]
      by (simp add: mult.assoc)
    then have "KeypointOHKMMSELoss_keypoint self output target tws idx
        = Inr \<lparr>shape = [B, H, W], data = ?d\<rparr>"
      using True tw(1) s u1 u2 so st ma mb by (simp add: KeypointOHKMMSELoss_keypoint_def)
    moreover have "length ?d = B * ?N" using lco lct lrep by simp
    moreover have "\<forall>q<B * ?N. ?d ! q =
        (data output ! ((q div ?N * K + idx) * ?N + q mod ?N) * wt (q div ?N)
          - data target ! ((q div ?N * K + idx) * ?N + q mod ?N) * wt (q div ?N))\<^sup>2"
    proof (intro allI impI)
      fix q assume q: "q < B * ?N"
      then have qd: "q div ?N < B" by (simp add: less_mult_imp_div_less)
      have "q < length ?ws * ?N" using q lws by simp
      then have "?rep ! q = ?ws ! (q div ?N)" by (rule nth_concat_replicate)
      then have "?rep ! q = wt (q div ?N)" using nws [OF qd] tw(4) qd by simp
      then show "?d ! q =
        (data output ! ((q div ?N * K + idx) * ?N + q mod ?N) * wt (q div ?N)
          - data target ! ((q div ?N * K + idx) * ?N + q mod ?N) * wt (q div ?N))\<^sup>2"
        using q lco lct lrep nco [OF q] nct [OF q] by simp
    qed
    ultimately show ?thesis by (rule that)
  qed
qed

lemma mapE_all: "(\<And>x. x \<in> set xs \<Longrightarrow> f x = Inr (g x)) \<Longrightarrow> mapE f xs = Inr (map g xs)"
  by (induction xs) simp_all

lemma concat_singletons: "concat (map (\<lambda>i. [g i]) xs) = map g xs"
  by (induction xs) simp_all

lemma mean_upt:
  "0 < n \<Longrightarrow> mean (map h [0..<n]) = Fin ((\<Sum>m<n. h m) / real n)"
  by (simp add: mean_def interv_sum_list_conv_sum_set_nat atLeast0LessThan)

lemma mean_1_2_rows:
  assumes "0 < H * W"
  shows "mean_1_2 \<lparr>shape = [B, H, W], data = d\<rparr>
       = Inr \<lparr>shape = [B], data = map (\<lambda>b. Fin ((\<Sum>m<H * W. d ! (b * (H * W) + m)) / real (H * W))) [0..<B]\<rparr>"
proof -
  have "mean (map (\<lambda>m. d ! (b * (H * W) + m)) [0..<H * W])
      = Fin ((\<Sum>m<H * W. d ! (b * (H * W) + m)) / real (H * W))" for b
    using assms by (rule mean_upt)
  then show ?thesis
    by (simp add: mean_1_2_def concat_singletons)
qed

lemma chunk_one: "i < length xs \<Longrightarrow> chunk (Suc 0) i xs = [xs ! i]"
  by (simp add: chunk_def take_Suc_conv_app_nth)

lemma cat1_columns:
  assumes "0 < K" "\<And>k. k < K \<Longrightarrow> length (c k) = B"
  shows "cat1 (map (\<lambda>k. \<lparr>shape = [B, 1], data = c k\<rparr>) [0..<K])
       = Inr \<lparr>shape = [B, K], data = concat (map (\<lambda>i. map (\<lambda>k. c k ! i) [0..<K]) [0..<B])\<rparr>"
proof -
  let ?ts = "map (\<lambda>k. \<lparr>shape = [B, 1], data = c k\<rparr>) [0..<K]"
  have hd: "?ts = \<lparr>shape = [B, 1], data = c 0\<rparr> # map (\<lambda>k. \<lparr>shape = [B, 1], data = c k\<rparr>) [1..<K]"
    using assms(1) by (simp add: upt_conv_Cons)
  have ok: "list_all (\<lambda>u. length (shape u) \<ge> 2 \<and> hd (shape u) = B \<and> drop 2 (shape u) = []) ?ts"
    by (simp add: list_all_iff)
  have sm: "sum_list (map (\<lambda>u. shape u ! 1) ?ts) = K"
    by (simp add: comp_def sum_list_triv)
  have "concat (map (\<lambda>u. chunk (shape u ! 1 * prod_list []) i (data u)) ?ts)
      = map (\<lambda>k. c k ! i) [0..<K]" if "i < B" for i
  proof -
    have "chunk (Suc 0) i (c k) = [c k ! i]" if "k < K" for k
      using assms(2) [OF that] \<open>i < B\<close> by (intro chunk_one) simp
    then have "map (\<lambda>k. chunk (Suc 0) i (c k)) [0..<K] = map (\<lambda>k. [c k ! i]) [0..<K]"
      by simp
    then have "concat (map (\<lambda>k. chunk (Suc 0) i (c k)) [0..<K]) = map (\<lambda>k. c k ! i) [0..<K]"
      by (simp only: concat_singletons)
    then show ?thesis by (simp add: comp_def)
  qed
  then have d: "map (\<lambda>i. concat (map (\<lambda>u. chunk (shape u ! 1 * prod_list []) i (data u)) ?ts)) [0..<B]
      = map (\<lambda>i. map (\<lambda>k. c k ! i) [0..<K]) [0..<B]"
    by simp
  obtain t us where tu: "?ts = t # us" and sht: "shape t = [B, 1]"
    using hd by simp
  have "list_all (\<lambda>u. length (shape u) \<ge> 2 \<and> hd (shape u) = B \<and> drop 2 (shape u) = []) (t # us)"
    using ok by (simp only: tu)
  then have "cat1 (t # us) = Inr \<lparr>shape = B # sum_list (map (\<lambda>u. shape u ! 1) (t # us)) # [],
      data = concat (map (\<lambda>i. concat (map (\<lambda>u. chunk (shape u ! 1 * prod_list []) i (data u)) (t # us))) [0..<B])\<rparr>"
    unfolding cat1_def using sht by simp
  then have "cat1 ?ts = Inr \<lparr>shape = B # sum_list (map (\<lambda>u. shape u ! 1) ?ts) # [],
      data = concat (map (\<lambda>i. concat (map (\<lambda>u. chunk (shape u ! 1 * prod_list []) i (data u)) ?ts)) [0..<B])\<rparr>"
    by (simp only: tu)
  then show ?thesis by (simp only: d sm)
qed

subsection \<open>The largest \<open>k\<close> values\<close>

lemma topk_indices_props:
  assumes "k \<le> length xs"
  shows "distinct (topk_indices k xs)" "length (topk_indices k xs) = k"
    "set (topk_indices k xs) \<subseteq> {..<length xs}"
    "\<forall>i\<in>set (topk_indices k xs). \<forall>j<length xs. j \<notin> set (topk_indices k xs)
        \<longrightarrow> tkey (xs ! j) \<le> tkey (xs ! i)"
proof -
  let ?key = "\<lambda>i. tkey (xs ! i)"
  let ?srt = "sort_key ?key [0..<length xs]"
  let ?r = "rev ?srt"
  have d: "distinct ?r" by simp
  have l: "length ?r = length xs" by simp
  have s: "set ?r = {..<length xs}" by (simp add: atLeast0LessThan)
  have "sorted (map ?key ?srt)" by (rule sorted_sort_key)
  then have "sorted_wrt (\<lambda>i j. ?key i \<le> ?key j) ?srt" by (simp add: sorted_map)
  then have "sorted_wrt (\<lambda>i j. ?key j \<le> ?key i) ?r" by (simp add: sorted_wrt_rev)
  then have "sorted_wrt (\<lambda>i j. ?key j \<le> ?key i) (take k ?r @ drop k ?r)" by simp
  then have top: "\<forall>i\<in>set (take k ?r). \<forall>j\<in>set (drop k ?r). ?key j \<le> ?key i"
    by (simp only: sorted_wrt_append) blast
  show "distinct (topk_indices k xs)" unfolding topk_indices_def using d by (rule distinct_take)
  show "length (topk_indices k xs) = k" unfolding topk_indices_def using l assms by simp
  show "set (topk_indices k xs) \<subseteq> {..<length xs}"
    unfolding topk_indices_def using s set_take_subset [of k ?r] by blast
  show "\<forall>i\<in>set (topk_indices k xs). \<forall>j<length xs. j \<notin> set (topk_indices k xs)
        \<longrightarrow> tkey (xs ! j) \<le> tkey (xs ! i)"
  proof (intro ballI allI impI)
    fix i j assume i: "i \<in> set (topk_indices k xs)" and j: "j < length xs"
      and nj: "j \<notin> set (topk_indices k xs)"
    have "j \<in> set (take k ?r @ drop k ?r)" using j s by simp
    then have "j \<in> set (drop k ?r)" using nj unfolding topk_indices_def by (simp only: set_append) blast
    then show "tkey (xs ! j) \<le> tkey (xs ! i)" using top i unfolding topk_indices_def by blast
  qed
qed

lemma tsum_Fin: "tsum (map (\<lambda>i. Fin (r i)) I) = Fin (sum_list (map r I))"
proof -
  have "foldl tadd (Fin a) (map (\<lambda>i. Fin (r i)) I) = Fin (a + sum_list (map r I))" for a
    by (induction I arbitrary: a) (simp_all add: add.assoc)
  from this [of 0] show ?thesis by (simp add: tsum_def)
qed

lemma tkey_Fin_le: "tkey (Fin a) \<le> tkey (Fin b) \<longleftrightarrow> a \<le> b"
  by (simp add: tkey_def)

lemma topk_sum_row_set:
  assumes "k \<le> K"
  shows "topk_sum k \<lparr>shape = [K], data = map (\<lambda>i. Fin (row i)) [0..<K]\<rparr>
           = Inr (Fin (\<Sum>i\<in>set (topk_indices k (map (\<lambda>i. Fin (row i)) [0..<K])). row i))"
    and "is_topk k K row (set (topk_indices k (map (\<lambda>i. Fin (row i)) [0..<K])))"
proof -
  let ?xs = "map (\<lambda>i. Fin (row i)) [0..<K]"
  let ?I = "topk_indices k ?xs"
  have kl: "k \<le> length ?xs" using assms by simp
  note p = topk_indices_props [OF kl]
  have sub: "set ?I \<subseteq> {..<K}" using p(3) by simp
  have "map (\<lambda>i. ?xs ! i) ?I = map (\<lambda>i. Fin (row i)) ?I"
    using sub by (intro map_cong refl) auto
  then have "tsum (map (\<lambda>i. ?xs ! i) ?I) = Fin (sum_list (map row ?I))"
    by (simp only: tsum_Fin)
  also have "sum_list (map row ?I) = (\<Sum>i\<in>set ?I. row i)"
    using p(1) by (rule sum_list_distinct_conv_sum_set)
  finally have ts: "tsum (map (\<lambda>i. ?xs ! i) ?I) = Fin (\<Sum>i\<in>set ?I. row i)" .
  have col': "map ((!) ?xs) [0..<K] = ?xs"
    by (rule nth_equalityI) simp_all
  have "topk_sum k \<lparr>shape = [K], data = ?xs\<rparr>
      = Inr (tsum (map ((!) (map ((!) ?xs) [0..<K])) (topk_indices k (map ((!) ?xs) [0..<K]))))"
    using assms by (simp add: topk_sum_def Let_def del: map_map)
  then have "topk_sum k \<lparr>shape = [K], data = ?xs\<rparr> = Inr (tsum (map (\<lambda>i. ?xs ! i) ?I))"
    by (simp only: col')
  then show "topk_sum k \<lparr>shape = [K], data = ?xs\<rparr> = Inr (Fin (\<Sum>i\<in>set ?I. row i))"
    by (simp only: ts)
  have "card (set ?I) = k" using p(1,2) by (simp add: distinct_card)
  moreover have "\<forall>i\<in>set ?I. \<forall>j<K. j \<notin> set ?I \<longrightarrow> row j \<le> row i"
  proof (intro ballI allI impI)
    fix i j assume i: "i \<in> set ?I" and j: "j < K" and nj: "j \<notin> set ?I"
    have "i < K" using i sub by auto
    have "tkey (?xs ! j) \<le> tkey (?xs ! i)" using p(4) i j nj by simp
    then show "row j \<le> row i" using \<open>i < K\<close> j by (simp add: tkey_Fin_le)
  qed
  ultimately show "is_topk k K row (set ?I)" using sub by (simp add: is_topk_def)
qed

lemma topk_sum_unique:
  assumes "is_topk k K row S" "is_topk k K row T"
  shows "sum row S = sum row T"
proof -
  have fS: "finite S" and fT: "finite T"
    using assms by (auto simp: is_topk_def intro: finite_subset [of _ "{..<K}"])
  have cS: "card S = k" and cT: "card T = k" using assms by (simp_all add: is_topk_def)
  have "card (S - T) + card (S \<inter> T) = card S"
    using fS by (metis card_Diff_subset_Int card_mono diff_add finite_Int inf_le1)
  moreover have "card (T - S) + card (S \<inter> T) = card T"
    using fT by (metis Int_commute card_Diff_subset_Int card_mono diff_add finite_Int inf_le1)
  ultimately have cd: "card (S - T) = card (T - S)" using cS cT by simp
  have eq: "row i = row j" if "i \<in> S - T" "j \<in> T - S" for i j
  proof -
    have "i < K" "j < K" using that assms by (auto simp: is_topk_def)
    then have "row j \<le> row i" "row i \<le> row j"
      using that assms by (auto simp: is_topk_def)
    then show ?thesis by simp
  qed
  have "sum row (S - T) = sum row (T - S)"
  proof (cases "S - T = {}")
    case True
    then have "card (T - S) = 0" using cd by (simp only: card.empty)
    then have "T - S = {}" using fT by (metis card_0_eq finite_Diff)
    then show ?thesis using True by (simp only: sum.empty)
  next
    case False
    then obtain a where a: "a \<in> S - T" by blast
    have "card (S - T) \<noteq> 0" using False fS by (metis card_0_eq finite_Diff)
    then have "T - S \<noteq> {}" using cd by (metis card.empty)
    then obtain b where b: "b \<in> T - S" by blast
    have "sum row (S - T) = (\<Sum>i\<in>S - T. row a)"
      using eq [OF _ b] eq [OF a b] by (intro sum.cong) simp_all
    moreover have "sum row (T - S) = (\<Sum>j\<in>T - S. row a)"
      using eq [OF a] by (intro sum.cong) simp_all
    ultimately show ?thesis using cd by simp
  qed
  moreover have "sum row S = sum row (S - T) + sum row (S \<inter> T)"
    using fS by (metis Int_Diff_Un Int_Diff_disjoint add.commute finite_Diff finite_Int sum.union_disjoint)
  moreover have "sum row T = sum row (T - S) + sum row (S \<inter> T)"
    using fT by (metis Int_Diff_Un Int_Diff_disjoint Int_commute add.commute finite_Diff finite_Int sum.union_disjoint)
  ultimately show ?thesis by simp
qed

lemma foldE_snoc: "foldE f s (xs @ [x]) = bindE (foldE f s xs) (\<lambda>s'. f s' x)"
proof (induction xs arbitrary: s)
  case Nil
  then show ?case by (cases "f s x") simp_all
next
  case (Cons y ys)
  then show ?case by (cases "f s y") simp_all
qed

lemma foldE_sum:
  assumes "\<And>i l. i < n \<Longrightarrow> f (Fin l) i = Inr (Fin (l + g i))"
  shows "foldE f (Fin a) [0..<n] = Inr (Fin (a + (\<Sum>i<n. g i)))"
  using assms
proof (induction n)
  case 0
  then show ?case by simp
next
  case (Suc n)
  have "foldE f (Fin a) [0..<n] = Inr (Fin (a + (\<Sum>i<n. g i)))"
    using Suc.prems by (intro Suc.IH) simp
  then show ?case using Suc.prems [of n] by (simp add: foldE_snoc add.assoc)
qed

lemma chunk_concat_const:
  assumes "\<And>i. i < b \<Longrightarrow> length (f i) = n" "j < b"
  shows "chunk n j (concat (map f [0..<b])) = f j"
proof (rule nth_equalityI)
  have len: "length (concat (map f [0..<b])) = b * n"
    using assms(1) by (rule length_concat_const)
  have "Suc j * n \<le> b * n" using assms(2) by (intro mult_le_mono1) simp
  then show l: "length (chunk n j (concat (map f [0..<b]))) = length (f j)"
    using len assms by (simp add: length_chunk_le)
  fix p assume "p < length (chunk n j (concat (map f [0..<b])))"
  then have p: "p < n" using l assms by simp
  have "j * n + p < Suc j * n" using p by simp
  then have q: "j * n + p < b * n" using \<open>Suc j * n \<le> b * n\<close> by simp
  have "chunk n j (concat (map f [0..<b])) ! p = concat (map f [0..<b]) ! (j * n + p)"
    using p q len by (intro nth_chunk) simp_all
  also have "\<dots> = f ((j * n + p) div n) ! ((j * n + p) mod n)"
    using assms(1) q by (rule nth_concat_const)
  also have "\<dots> = f j ! p" using p by simp
  finally show "chunk n j (concat (map f [0..<b])) ! p = f j ! p" .
qed

lemma ohkm_value:
  assumes "0 < B" "0 < topk self" "topk self \<le> K"
  shows "KeypointOHKMMSELoss_ohkm self
           \<lparr>shape = [B, K], data = concat (map (\<lambda>b. map (\<lambda>i. Fin (M b i)) [0..<K]) [0..<B])\<rparr>
         = Inr (Fin ((\<Sum>b<B. (\<Sum>i\<in>set (topk_indices (topk self) (map (\<lambda>i. Fin (M b i)) [0..<K])). M b i)
                            / real (topk self)) / real B))"
proof -
  let ?k = "topk self"
  let ?row = "\<lambda>b. map (\<lambda>i. Fin (M b i)) [0..<K]"
  let ?losses = "\<lparr>shape = [B, K], data = concat (map ?row [0..<B])\<rparr>"
  let ?S = "\<lambda>b. set (topk_indices ?k (?row b))"
  have step: "bindE (select0 ?losses b) (\<lambda>sub_loss. bindE (topk_sum ?k sub_loss)
                (\<lambda>s. Inr (tadd (Fin l) (tdiv s ?k))))
            = Inr (Fin (l + (\<Sum>i\<in>?S b. M b i) / real ?k))" if "b < B" for b l
  proof -
    have "chunk K b (concat (map ?row [0..<B])) = ?row b"
      using that by (intro chunk_concat_const) simp_all
    then have "select0 ?losses b = Inr \<lparr>shape = [K], data = ?row b\<rparr>"
      using that by (simp add: select0_def)
    moreover obtain S where "topk_sum ?k \<lparr>shape = [K], data = ?row b\<rparr> = Inr (Fin (\<Sum>i\<in>?S b. M b i))"
      using topk_sum_row_set [OF assms(3), of "M b"] by simp
    ultimately show ?thesis using assms(2) by simp
  qed
  have "foldE (\<lambda>ohkm_loss i. bindE (select0 ?losses i) (\<lambda>sub_loss. bindE (topk_sum ?k sub_loss)
                (\<lambda>s. Inr (tadd ohkm_loss (tdiv s ?k))))) (Fin 0) [0..<B]
      = Inr (Fin (0 + (\<Sum>b<B. (\<Sum>i\<in>?S b. M b i) / real ?k)))"
    using step by (intro foldE_sum) simp
  then show ?thesis
    using assms(1) by (simp add: KeypointOHKMMSELoss_ohkm_def tsize_def ndim_def)
qed

lemma is_topk_cong:
  "(\<And>i. i < K \<Longrightarrow> row i = row' i) \<Longrightarrow> is_topk k K row S = is_topk k K row' S"
  unfolding is_topk_def by (auto simp: subset_iff)

lemma is_topk_sum_cong:
  assumes "\<And>i. i < K \<Longrightarrow> row i = row' i" "is_topk k K row S"
  shows "sum row S = sum row' S"
  using assms by (intro sum.cong refl) (auto simp: is_topk_def)

lemma div_mod_index:
  fixes b m N :: nat
  assumes "m < N"
  shows "(b * N + m) div N = b" "(b * N + m) mod N = m"
  using assms by simp_all

lemma ohkm_loss_matrix:
  assumes "shape output = [B, K, H, W]" "wf_tensor output"
    and "shape target = [B, K, H, W]" "wf_tensor target"
    and "0 < B" "0 < H * W" "0 < K"
    and "\<not> use_target_weight self \<or>
         (\<exists>tw. tws = Some tw \<and> shape tw = [B, K] \<and> wf_tensor tw)"
  obtains M l1 l2 where
    "mapE (KeypointOHKMMSELoss_keypoint self output target tws) [0..<K] = Inr l1"
    "mapE (\<lambda>loss. bindE (mean_1_2 loss) (unsqueeze 1)) l1 = Inr l2"
    "cat1 l2 = Inr \<lparr>shape = [B, K], data = concat (map (\<lambda>b. map (\<lambda>i. Fin (M b i)) [0..<K]) [0..<B])\<rparr>"
    "\<And>b k. b < B \<Longrightarrow> k < K \<Longrightarrow> M b k = keypoint_loss self tws H W output target b k"
proof -
  let ?N = "H * W"
  let ?wt = "weight_at self tws"
  define D where "D k = map (\<lambda>q.
        (data output ! ((q div ?N * K + k) * ?N + q mod ?N) * ?wt (q div ?N) k
          - data target ! ((q div ?N * K + k) * ?N + q mod ?N) * ?wt (q div ?N) k)\<^sup>2) [0..<B * ?N]" for k
  define M where "M b k = (\<Sum>m<?N. D k ! (b * ?N + m)) / real ?N" for b k
  have kp: "KeypointOHKMMSELoss_keypoint self output target tws k = Inr \<lparr>shape = [B, H, W], data = D k\<rparr>"
    if k: "k < K" for k
  proof -
    have w1: "\<not> use_target_weight self \<or>
         (\<exists>tw. tws = Some tw \<and> shape tw = [B, K] \<and> wf_tensor tw
               \<and> (\<forall>b<B. ?wt b k = data tw ! (b * K + k)))"
      using assms(8) by (auto simp: weight_at_def item2 [of _ B K])
    have w2: "use_target_weight self \<or> (\<forall>b<B. ?wt b k = 1)"
      by (simp add: weight_at_def)
    obtain d where d: "KeypointOHKMMSELoss_keypoint self output target tws k
          = Inr \<lparr>shape = [B, H, W], data = d\<rparr>" "length d = B * ?N"
      "\<forall>q<B * ?N. d ! q =
        (data output ! ((q div ?N * K + k) * ?N + q mod ?N) * ?wt (q div ?N) k
          - data target ! ((q div ?N * K + k) * ?N + q mod ?N) * ?wt (q div ?N) k)\<^sup>2"
      using ohkm_keypoint_data [OF assms(1-4) k w1 w2] by metis
    have "d = D k"
      unfolding D_def using d(2,3) by (intro nth_equalityI) simp_all
    then show ?thesis using d(1) by simp
  qed
  have m1: "mapE (KeypointOHKMMSELoss_keypoint self output target tws) [0..<K]
      = Inr (map (\<lambda>k. \<lparr>shape = [B, H, W], data = D k\<rparr>) [0..<K])"
    using kp by (intro mapE_all) simp
  have "mapE (\<lambda>loss. bindE (mean_1_2 loss) (unsqueeze 1))
          (map (\<lambda>k. \<lparr>shape = [B, H, W], data = D k\<rparr>) [0..<K])
      = Inr (map (\<lambda>t. \<lparr>shape = [B, 1], data = map (\<lambda>b. Fin ((\<Sum>m<?N. data t ! (b * ?N + m)) / real ?N)) [0..<B]\<rparr>)
          (map (\<lambda>k. \<lparr>shape = [B, H, W], data = D k\<rparr>) [0..<K]))"
  proof (rule mapE_all)
    fix t assume "t \<in> set (map (\<lambda>k. \<lparr>shape = [B, H, W], data = D k\<rparr>) [0..<K])"
    then obtain k where t: "t = \<lparr>shape = [B, H, W], data = D k\<rparr>" by auto
    show "bindE (mean_1_2 t) (unsqueeze 1)
        = Inr \<lparr>shape = [B, 1], data = map (\<lambda>b. Fin ((\<Sum>m<?N. data t ! (b * ?N + m)) / real ?N)) [0..<B]\<rparr>"
      unfolding t using mean_1_2_rows [OF assms(6), of B "D k"]
      by (simp add: unsqueeze_def ndim_def)
  qed
  then have m2: "mapE (\<lambda>loss. bindE (mean_1_2 loss) (unsqueeze 1))
          (map (\<lambda>k. \<lparr>shape = [B, H, W], data = D k\<rparr>) [0..<K])
      = Inr (map (\<lambda>k. \<lparr>shape = [B, 1], data = map (\<lambda>b. Fin (M b k)) [0..<B]\<rparr>) [0..<K])"
    by (simp add: M_def comp_def)
  have c: "cat1 (map (\<lambda>k. \<lparr>shape = [B, 1], data = map (\<lambda>b. Fin (M b k)) [0..<B]\<rparr>) [0..<K])
      = Inr \<lparr>shape = [B, K],
             data = concat (map (\<lambda>i. map (\<lambda>k. map (\<lambda>b. Fin (M b k)) [0..<B] ! i) [0..<K]) [0..<B])\<rparr>"
    using assms(7) by (intro cat1_columns) simp_all
  have "map (\<lambda>i. map (\<lambda>k. map (\<lambda>b. Fin (M b k)) [0..<B] ! i) [0..<K]) [0..<B]
      = map (\<lambda>b. map (\<lambda>i. Fin (M b i)) [0..<K]) [0..<B]"
    by (intro map_cong refl) simp
  then have c': "cat1 (map (\<lambda>k. \<lparr>shape = [B, 1], data = map (\<lambda>b. Fin (M b k)) [0..<B]\<rparr>) [0..<K])
      = Inr \<lparr>shape = [B, K], data = concat (map (\<lambda>b. map (\<lambda>i. Fin (M b i)) [0..<K]) [0..<B])\<rparr>"
    using c by (simp only:)
  have r2: "M b k = keypoint_loss self tws H W output target b k" if b: "b < B" and k: "k < K" for b k
  proof -
    have "D k ! (b * ?N + m) =
        (data output ! ((b * K + k) * ?N + m) * ?wt b k
          - data target ! ((b * K + k) * ?N + m) * ?wt b k)\<^sup>2" if m: "m < ?N" for m
    proof -
      have "b * ?N + m < Suc b * ?N" using m by simp
      also have "\<dots> \<le> B * ?N" using b by (intro mult_le_mono1) simp
      finally have q: "b * ?N + m < B * ?N" .
      show ?thesis
        unfolding D_def using q div_mod_index [OF m, of b] by (simp del: mult_Suc)
    qed
    then have "(\<Sum>m<?N. D k ! (b * ?N + m)) =
        (\<Sum>m<?N. (data output ! ((b * K + k) * ?N + m) * ?wt b k
          - data target ! ((b * K + k) * ?N + m) * ?wt b k)\<^sup>2)"
      by (intro sum.cong refl) simp
    also have "\<dots> = (\<Sum>h<H. \<Sum>w<W. (data output ! ((b * K + k) * ?N + (h * W + w)) * ?wt b k
          - data target ! ((b * K + k) * ?N + (h * W + w)) * ?wt b k)\<^sup>2)"
      by (rule sum_group2)
    also have "\<dots> = (\<Sum>h<H. \<Sum>w<W. (item output [b, k, h, w] * ?wt b k
          - item target [b, k, h, w] * ?wt b k)\<^sup>2)"
    proof -
      have "((b * K + k) * H + h) * W + w = (b * K + k) * ?N + (h * W + w)" for h w
        by (simp add: algebra_simps)
      then show ?thesis
        using assms(1,3) by (simp only: item4 [of _ B K H W])
    qed
    finally show ?thesis by (simp add: M_def keypoint_loss_def)
  qed
  show ?thesis using m1 m2 c' r2 by (rule that)
qed

subsection \<open>\<^verbatim>\<open>CombinedTargetMSELoss\<close> on the shapes \<^verbatim>\<open>squeeze()\<close> leaves alone\<close>

text \<open>
  Without weighting, and with weighting when the batch has one sample or the heatmaps
  have more than one location, the maps of a keypoint and the weights broadcast sample by
  sample, and \<^verbatim>\<open>forward\<close> computes the loss in the words of the specification.
\<close>

lemma regular_shapes:
  assumes "0 < B" "0 < N" "B = 1 \<or> 1 < N" "sq = filter (\<lambda>d. d \<noteq> 1) [B, 1, N]"
  shows "replicate (length [B, N] - length sq) (Suc 0) @ sq = [B, N]"
    and "broadcast_shapes sq [B, Suc 0] = Inr [B, N]"
    and "broadcast_shapes [B, N] sq = Inr [B, N]"
  using assms by (cases "B = 1"; cases "N = 1"; simp add: broadcast_shapes_def)+

lemma mul_padded:
  assumes "shape a = S" "length (data a) = prod_list S" "length (data b) = prod_list S"
    and "replicate (length S - length (shape b)) (Suc 0) @ shape b = S"
    and "broadcast_shapes S (shape b) = Inr S"
  shows "mul a b = Inr \<lparr>shape = S, data = map2 (\<lambda>x y. x * y) (data a) (data b)\<rparr>"
proof -
  have "expand_to S a = data a"
    unfolding expand_to_def ndim_def using assms(1,2) by (simp add: expand_same)
  moreover have "expand_to S b = data b"
    unfolding expand_to_def ndim_def using assms(3,4) by (simp add: expand_same)
  ultimately show ?thesis
    unfolding mul_def binop_def using assms(1,5) by simp
qed

lemma mul_weight_column:
  assumes "replicate (length [B, N] - length (shape x)) (Suc 0) @ shape x = [B, N]"
    and "broadcast_shapes (shape x) [B, Suc 0] = Inr [B, N]"
    and "length (data x) = B * N" "length ws = B"
  shows "mul x \<lparr>shape = [B, 1], data = ws\<rparr>
       = Inr \<lparr>shape = [B, N], data = map2 (\<lambda>a c. a * c) (data x) (concat (map (replicate N) ws))\<rparr>"
proof -
  have "expand ([B] @ replicate 1 (Suc 0)) ([B] @ [N]) ws = concat (map (replicate (prod_list [N])) ws)"
    using assms(4) by (intro expand_trailing) simp_all
  then have "expand_to [B, N] \<lparr>shape = [B, 1], data = ws\<rparr> = concat (map (replicate N) ws)"
    by (simp add: expand_to_def ndim_def)
  moreover have "expand_to [B, N] x = data x"
    unfolding expand_to_def ndim_def
    using assms(3) by (simp only: One_nat_def assms(1)) (simp add: expand_same)
  ultimately show ?thesis
    unfolding mul_def binop_def using assms(2) by simp
qed

lemma sum_flat3:
  fixes F :: "nat \<Rightarrow> nat \<Rightarrow> real"
  shows "(\<Sum>q<B * (H * W). F (q div (H * W)) (q mod (H * W))) = (\<Sum>b<B. \<Sum>h<H. \<Sum>w<W. F b (h * W + w))"
proof -
  have "(\<Sum>q<B * (H * W). F (q div (H * W)) (q mod (H * W)))
      = (\<Sum>b<B. \<Sum>p<H * W. F ((b * (H * W) + p) div (H * W)) ((b * (H * W) + p) mod (H * W)))"
    by (rule sum_group2)
  also have "\<dots> = (\<Sum>b<B. \<Sum>p<H * W. F b p)"
    by (intro sum.cong refl) (simp add: div_mod_index)
  also have "\<dots> = (\<Sum>b<B. \<Sum>h<H. \<Sum>w<W. F b (h * W + w))"
    by (rule sum.cong [OF refl]) (rule sum_group2)
  finally show ?thesis .
qed

lemma joint_maps_regular:
  assumes "shape output = [B, C, H, W]" "wf_tensor output"
    and "shape target = [B, C, H, W]" "wf_tensor target"
    and "0 < B" "0 < H * W" "idx * 3 + 2 < C"
    and "\<not> use_target_weight self \<or>
         (tws = Some tw \<and> shape tw = [B, K] \<and> wf_tensor tw \<and> idx < K \<and> (B = 1 \<or> 1 < H * W))"
    and "\<And>b. wt b = (if use_target_weight self then data tw ! (b * K + idx) else 1)"
    and "hps = map (\<lambda>j. \<lparr>shape = [B, 1, H * W], data = column B C [H * W] j (data output)\<rparr>) [0..<C]"
    and "hgs = map (\<lambda>j. \<lparr>shape = [B, 1, H * W], data = column B C [H * W] j (data target)\<rparr>) [0..<C]"
  obtains hp hg S where
    "joint_maps self hps hgs tws idx =
       Inr ((hp, hg),
            (squeeze \<lparr>shape = [B, 1, H * W], data = column B C [H * W] (idx * 3 + 1) (data output)\<rparr>,
             squeeze \<lparr>shape = [B, 1, H * W], data = column B C [H * W] (idx * 3 + 1) (data target)\<rparr>),
            (squeeze \<lparr>shape = [B, 1, H * W], data = column B C [H * W] (idx * 3 + 2) (data output)\<rparr>,
             squeeze \<lparr>shape = [B, 1, H * W], data = column B C [H * W] (idx * 3 + 2) (data target)\<rparr>))"
    "shape hp = S" "shape hg = S" "prod_list S = B * (H * W)"
    "length (data hp) = B * (H * W)" "length (data hg) = B * (H * W)"
    "\<forall>q<B * (H * W). data hp ! q = column B C [H * W] (idx * 3) (data output) ! q * wt (q div (H * W))"
    "\<forall>q<B * (H * W). data hg ! q = column B C [H * W] (idx * 3) (data target) ! q * wt (q div (H * W))"
    "replicate (length S - length (filter (\<lambda>d. d \<noteq> 1) [B, 1, H * W])) (Suc 0)
        @ filter (\<lambda>d. d \<noteq> 1) [B, 1, H * W] = S"
    "broadcast_shapes S (filter (\<lambda>d. d \<noteq> 1) [B, 1, H * W]) = Inr S"
proof -
  let ?N = "H * W"
  let ?ch = "\<lambda>t j. \<lparr>shape = [B, 1, ?N], data = column B C [?N] j (data t)\<rparr>"
  define sq where "sq = filter (\<lambda>d. d \<noteq> 1) [B, 1, ?N]"
  have i0: "idx * 3 < C" and i1: "idx * 3 + 1 < C" and i2: "idx * 3 + 2 < C"
    using assms(7) by simp_all
  have lo: "length (data output) = B * C * prod_list [?N]"
    and lt: "length (data target) = B * C * prod_list [?N]"
    using assms(1-4) by (simp_all add: wf_tensor_def mult.assoc)
  have lco: "length (column B C [?N] (idx * 3) (data output)) = B * ?N"
    using length_column [OF lo i0] by simp
  have lct: "length (column B C [?N] (idx * 3) (data target)) = B * ?N"
    using length_column [OF lt i0] by simp
  have psq: "prod_list sq = B * ?N"
  proof -
    have "prod_list (filter (\<lambda>d. d \<noteq> 1) s) = prod_list s" for s :: "nat list"
      by (induction s) simp_all
    then show ?thesis unfolding sq_def by simp
  qed
  have shp: "shape (squeeze (?ch output (idx * 3))) = sq" "data (squeeze (?ch output (idx * 3))) = column B C [?N] (idx * 3) (data output)"
    and shg: "shape (squeeze (?ch target (idx * 3))) = sq" "data (squeeze (?ch target (idx * 3))) = column B C [?N] (idx * 3) (data target)"
    by (simp_all add: squeeze_def sq_def)
  have jm: "joint_maps self hps hgs tws idx =
      bindE (apply_target_weight self tws idx
               (squeeze (?ch output (idx * 3))) (squeeze (?ch target (idx * 3))))
        (\<lambda>hm. Inr (hm, (squeeze (?ch output (idx * 3 + 1)), squeeze (?ch target (idx * 3 + 1))),
                     (squeeze (?ch output (idx * 3 + 2)), squeeze (?ch target (idx * 3 + 2)))))"
    unfolding joint_maps_def assms(10,11) py_index_def using i0 i1 i2 by simp
  show ?thesis
  proof (cases "use_target_weight self")
    case False
    then have w1: "wt b = 1" for b using assms(9) by simp
    have "joint_maps self hps hgs tws idx =
        Inr ((squeeze (?ch output (idx * 3)), squeeze (?ch target (idx * 3))),
             (squeeze (?ch output (idx * 3 + 1)), squeeze (?ch target (idx * 3 + 1))),
             (squeeze (?ch output (idx * 3 + 2)), squeeze (?ch target (idx * 3 + 2))))"
      unfolding jm using False by (simp add: apply_target_weight_def)
    moreover have "replicate (length sq - length sq) (Suc 0) @ sq = sq" by simp
    moreover have "broadcast_shapes sq sq = Inr sq" by (rule broadcast_shapes_refl)
    ultimately show ?thesis
      using shp shg psq lco lct w1
      by (intro that [of "squeeze (?ch output (idx * 3))" "squeeze (?ch target (idx * 3))" sq])
         (simp_all only: sq_def [symmetric], simp_all)
  next
    case True
    then have tw: "tws = Some tw" "shape tw = [B, K]" "wf_tensor tw" "idx < K" "B = 1 \<or> 1 < ?N"
      and wt: "\<And>b. wt b = data tw ! (b * K + idx)"
      using assms(8,9) by simp_all
    let ?ws = "column B K [] idx (data tw)"
    let ?rep = "concat (map (replicate ?N) ?ws)"
    have ltw: "length (data tw) = B * K * prod_list []" using tw by (simp add: wf_tensor_def)
    have lws: "length ?ws = B" using length_column [OF ltw tw(4)] by simp
    have nws: "?ws ! b = wt b" if "b < B" for b
      using nth_column [OF ltw tw(4), of b] that wt by simp
    have lrep: "length ?rep = B * ?N" using lws by (simp add: length_concat_replicate)
    have nrep: "?rep ! q = wt (q div ?N)" if "q < B * ?N" for q
    proof -
      have "q < length ?ws * ?N" using that lws by simp
      then have "?rep ! q = ?ws ! (q div ?N)" by (rule nth_concat_replicate)
      moreover have "q div ?N < B" using that by (simp add: less_mult_imp_div_less)
      ultimately show ?thesis using nws by simp
    qed
    note rs = regular_shapes [OF assms(5,6) tw(5) sq_def]
    have s: "select1 tw idx = Inr \<lparr>shape = [B], data = ?ws\<rparr>"
      using tw by (simp add: select1_def)
    have u: "unsqueeze 1 \<lparr>shape = [B], data = ?ws\<rparr> = Inr \<lparr>shape = [B, 1], data = ?ws\<rparr>"
      by (simp add: unsqueeze_def ndim_def)
    let ?hp = "\<lparr>shape = [B, ?N], data = map2 (\<lambda>a c. a * c) (column B C [?N] (idx * 3) (data output)) ?rep\<rparr>"
    let ?hg = "\<lparr>shape = [B, ?N], data = map2 (\<lambda>a c. a * c) (column B C [?N] (idx * 3) (data target)) ?rep\<rparr>"
    have mp: "mul (squeeze (?ch output (idx * 3))) \<lparr>shape = [B, 1], data = ?ws\<rparr> = Inr ?hp"
      using mul_weight_column [of B ?N "squeeze (?ch output (idx * 3))" ?ws] rs(1,2) lco lws
      by (simp only: shp)
    have mg: "mul (squeeze (?ch target (idx * 3))) \<lparr>shape = [B, 1], data = ?ws\<rparr> = Inr ?hg"
      using mul_weight_column [of B ?N "squeeze (?ch target (idx * 3))" ?ws] rs(1,2) lct lws
      by (simp only: shg)
    have "apply_target_weight self tws idx
               (squeeze (?ch output (idx * 3))) (squeeze (?ch target (idx * 3))) = Inr (?hp, ?hg)"
      using True tw(1) s u mp mg by (simp add: apply_target_weight_def)
    then have "joint_maps self hps hgs tws idx =
        Inr ((?hp, ?hg),
             (squeeze (?ch output (idx * 3 + 1)), squeeze (?ch target (idx * 3 + 1))),
             (squeeze (?ch output (idx * 3 + 2)), squeeze (?ch target (idx * 3 + 2))))"
      unfolding jm by simp
    moreover have "replicate (length [B, ?N] - length sq) (Suc 0) @ sq = [B, ?N]" using rs(1) .
    moreover have "broadcast_shapes [B, ?N] sq = Inr [B, ?N]" using rs(3) .
    moreover have "\<forall>q<B * ?N. data ?hp ! q = column B C [?N] (idx * 3) (data output) ! q * wt (q div ?N)"
      using lco lrep nrep by simp
    moreover have "\<forall>q<B * ?N. data ?hg ! q = column B C [?N] (idx * 3) (data target) ! q * wt (q div ?N)"
      using lct lrep nrep by simp
    ultimately show ?thesis
      using lco lct lrep
      by (intro that [of ?hp ?hg "[B, ?N]"]) (simp_all only: sq_def [symmetric], simp_all)
  qed
qed

lemma flat_to_reference:
  assumes "\<forall>q<B * (H * W). x ! q = Px (q div (H * W)) (q mod (H * W))"
    and "\<forall>q<B * (H * W). y ! q = Py (q div (H * W)) (q mod (H * W))"
  shows "(\<Sum>q<B * (H * W). (x ! q - y ! q)\<^sup>2) / real (B * (H * W))
       = reference_mse B H W (\<lambda>b h w. Px b (h * W + w)) (\<lambda>b h w. Py b (h * W + w))"
proof -
  have "(\<Sum>q<B * (H * W). (x ! q - y ! q)\<^sup>2)
      = (\<Sum>q<B * (H * W). (Px (q div (H * W)) (q mod (H * W)) - Py (q div (H * W)) (q mod (H * W)))\<^sup>2)"
    using assms by (intro sum.cong refl) simp
  also have "\<dots> = (\<Sum>b<B. \<Sum>h<H. \<Sum>w<W. (Px b (h * W + w) - Py b (h * W + w))\<^sup>2)"
    by (rule sum_flat3 [of "\<lambda>b p. (Px b p - Py b p)\<^sup>2"])
  finally show ?thesis by (simp add: reference_mse_def mult.assoc)
qed

lemma column_flat:
  assumes "shape t = [B, C, H, W]" "wf_tensor t" "j < C" "q < B * (H * W)"
  shows "column B C [H * W] j (data t) ! q
       = data t ! ((q div (H * W) * C + j) * (H * W) + q mod (H * W))"
proof -
  have "length (data t) = B * C * prod_list [H * W]"
    using assms(1,2) by (simp add: wf_tensor_def mult.assoc)
  from nth_column [OF this assms(3), of q] assms(4) show ?thesis by simp
qed

lemma item_flat:
  assumes "shape t = [B, C, H, W]"
  shows "data t ! ((b * C + j) * (H * W) + (h * W + w)) = item t [b, j, h, w]"
proof -
  have "((b * C + j) * H + h) * W + w = (b * C + j) * (H * W) + (h * W + w)"
    by (simp add: algebra_simps)
  then show ?thesis using assms by (simp only: item4 [of t B C H W])
qed

lemma regression_loss_flat:
  assumes "shape hg = S" "prod_list S = n" "length (data hg) = n" "0 < n"
    and "shape op = sq" "length (data op) = n" "shape og = sq" "length (data og) = n"
    and "replicate (length S - length sq) (Suc 0) @ sq = S"
    and "broadcast_shapes S sq = Inr S"
  shows "regression_loss hg op og =
           Inr (Fin ((\<Sum>q<n. (data hg ! q * data op ! q - data hg ! q * data og ! q)\<^sup>2) / real n))"
proof -
  let ?a = "\<lparr>shape = S, data = map2 (\<lambda>x y. x * y) (data hg) (data op)\<rparr>"
  let ?b = "\<lparr>shape = S, data = map2 (\<lambda>x y. x * y) (data hg) (data og)\<rparr>"
  have ma: "mul hg op = Inr ?a"
    using assms by (intro mul_padded) simp_all
  have mb: "mul hg og = Inr ?b"
    using assms by (intro mul_padded) simp_all
  have "MSELoss_mean ?a ?b = Inr (Fin ((\<Sum>q<n. (data ?a ! q - data ?b ! q)\<^sup>2) / real n))"
    using assms(2,3,4,6,8) by (intro MSELoss_mean_same_shape [where s = S]) simp_all
  moreover have "(\<Sum>q<n. (data ?a ! q - data ?b ! q)\<^sup>2)
      = (\<Sum>q<n. (data hg ! q * data op ! q - data hg ! q * data og ! q)\<^sup>2)"
    using assms(3,6,8) by (intro sum.cong refl) simp
  ultimately show ?thesis using ma mb by (simp add: regression_loss_def)
qed

lemma combined_joint_value:
  assumes "shape output = [B, C, H, W]" "wf_tensor output"
    and "shape target = [B, C, H, W]" "wf_tensor target"
    and "0 < B" "0 < H * W" "idx * 3 + 2 < C"
    and "\<not> use_target_weight self \<or>
         (tws = Some tw \<and> shape tw = [B, K] \<and> wf_tensor tw \<and> idx < K \<and> (B = 1 \<or> 1 < H * W))"
    and "\<And>b. wt b = (if use_target_weight self then data tw ! (b * K + idx) else 1)"
    and "hps = map (\<lambda>j. \<lparr>shape = [B, 1, H * W], data = column B C [H * W] j (data output)\<rparr>) [0..<C]"
    and "hgs = map (\<lambda>j. \<lparr>shape = [B, 1, H * W], data = column B C [H * W] j (data target)\<rparr>) [0..<C]"
  shows "CombinedTargetMSELoss_joint self hps hgs tws (Fin l) idx =
     Inr (Fin (l +
       (1 / 2 * reference_mse B H W (\<lambda>b h w. item output [b, idx * 3, h, w] * wt b)
                                    (\<lambda>b h w. item target [b, idx * 3, h, w] * wt b)
        + 1 / 2 * reference_mse B H W
                    (\<lambda>b h w. item target [b, idx * 3, h, w] * wt b * item output [b, idx * 3 + 1, h, w])
                    (\<lambda>b h w. item target [b, idx * 3, h, w] * wt b * item target [b, idx * 3 + 1, h, w])
        + 1 / 2 * reference_mse B H W
                    (\<lambda>b h w. item target [b, idx * 3, h, w] * wt b * item output [b, idx * 3 + 2, h, w])
                    (\<lambda>b h w. item target [b, idx * 3, h, w] * wt b * item target [b, idx * 3 + 2, h, w]))))"
proof -
  let ?N = "H * W"
  let ?n = "B * ?N"
  let ?sq = "filter (\<lambda>d. d \<noteq> 1) [B, 1, ?N]"
  let ?ch = "\<lambda>t j. \<lparr>shape = [B, 1, ?N], data = column B C [?N] j (data t)\<rparr>"
  let ?G = "\<lambda>t j b p. data t ! ((b * C + j) * ?N + p)"
  have n: "0 < ?n" using assms(5,6) by simp
  have i0: "idx * 3 < C" and i1: "idx * 3 + 1 < C" and i2: "idx * 3 + 2 < C"
    using assms(7) by simp_all
  obtain hp hg S where r:
    "joint_maps self hps hgs tws idx =
       Inr ((hp, hg), (squeeze (?ch output (idx * 3 + 1)), squeeze (?ch target (idx * 3 + 1))),
            (squeeze (?ch output (idx * 3 + 2)), squeeze (?ch target (idx * 3 + 2))))"
    "shape hp = S" "shape hg = S" "prod_list S = ?n"
    "length (data hp) = ?n" "length (data hg) = ?n"
    "\<forall>q<?n. data hp ! q = column B C [?N] (idx * 3) (data output) ! q * wt (q div ?N)"
    "\<forall>q<?n. data hg ! q = column B C [?N] (idx * 3) (data target) ! q * wt (q div ?N)"
    "replicate (length S - length ?sq) (Suc 0) @ ?sq = S"
    "broadcast_shapes S ?sq = Inr S"
    by (rule joint_maps_regular [OF assms(1-11)]) blast
  have lo: "length (data output) = B * C * prod_list [?N]"
    and lt: "length (data target) = B * C * prod_list [?N]"
    using assms(1-4) by (simp_all add: wf_tensor_def mult.assoc)
  have lc: "length (column B C [?N] j (data output)) = ?n" "length (column B C [?N] j (data target)) = ?n"
    if "j < C" for j
    using length_column [OF lo that] length_column [OF lt that] by simp_all
  have co: "\<forall>q<?n. column B C [?N] j (data output) ! q = ?G output j (q div ?N) (q mod ?N)"
    and ct: "\<forall>q<?n. column B C [?N] j (data target) ! q = ?G target j (q div ?N) (q mod ?N)"
    if "j < C" for j
    using column_flat [OF assms(1,2) that] column_flat [OF assms(3,4) that] by simp_all
  have hpq: "\<forall>q<?n. data hp ! q = (\<lambda>b p. ?G output (idx * 3) b p * wt b) (q div ?N) (q mod ?N)"
    using r(7) co [OF i0] by simp
  have hgq: "\<forall>q<?n. data hg ! q = (\<lambda>b p. ?G target (idx * 3) b p * wt b) (q div ?N) (q mod ?N)"
    using r(8) ct [OF i0] by simp
  have "MSELoss_mean hp hg = Inr (Fin ((\<Sum>q<?n. (data hp ! q - data hg ! q)\<^sup>2) / real ?n))"
    using r(2-6) n by (intro MSELoss_mean_same_shape [where s = S]) simp_all
  also have "(\<Sum>q<?n. (data hp ! q - data hg ! q)\<^sup>2) / real ?n
      = reference_mse B H W (\<lambda>b h w. ?G output (idx * 3) b (h * W + w) * wt b)
                            (\<lambda>b h w. ?G target (idx * 3) b (h * W + w) * wt b)"
    using hpq hgq by (rule flat_to_reference)
  finally have cls: "MSELoss_mean hp hg =
      Inr (Fin (reference_mse B H W (\<lambda>b h w. item output [b, idx * 3, h, w] * wt b)
                                    (\<lambda>b h w. item target [b, idx * 3, h, w] * wt b)))"
    by (simp only: item_flat [OF assms(1)] item_flat [OF assms(3)])
  have reg: "regression_loss hg (squeeze (?ch output j)) (squeeze (?ch target j)) =
      Inr (Fin (reference_mse B H W
                  (\<lambda>b h w. item target [b, idx * 3, h, w] * wt b * item output [b, j, h, w])
                  (\<lambda>b h w. item target [b, idx * 3, h, w] * wt b * item target [b, j, h, w])))"
    if j: "j < C" for j
  proof -
    let ?op = "squeeze (?ch output j)" and ?og = "squeeze (?ch target j)"
    have sh: "shape ?op = ?sq" "shape ?og = ?sq"
      "data ?op = column B C [?N] j (data output)" "data ?og = column B C [?N] j (data target)"
      by (simp_all add: squeeze_def)
    have "regression_loss hg ?op ?og =
        Inr (Fin ((\<Sum>q<?n. (data hg ! q * data ?op ! q - data hg ! q * data ?og ! q)\<^sup>2) / real ?n))"
      using r(3,4,6) n sh(1,2) lc [OF j] r(9,10)
      by (intro regression_loss_flat [where S = S and sq = ?sq]) (simp_all only: sh(3,4))
    also have "(\<Sum>q<?n. (data hg ! q * data ?op ! q - data hg ! q * data ?og ! q)\<^sup>2)
        = (\<Sum>q<?n. (map (\<lambda>q. data hg ! q * data ?op ! q) [0..<?n] ! q
                    - map (\<lambda>q. data hg ! q * data ?og ! q) [0..<?n] ! q)\<^sup>2)"
      by (intro sum.cong refl) simp
    also have "\<dots> / real ?n
        = reference_mse B H W
            (\<lambda>b h w. ?G target (idx * 3) b (h * W + w) * wt b * ?G output j b (h * W + w))
            (\<lambda>b h w. ?G target (idx * 3) b (h * W + w) * wt b * ?G target j b (h * W + w))"
      using hgq co [OF j] ct [OF j] by (intro flat_to_reference) (simp_all add: squeeze_def)
    finally show ?thesis
      by (simp only: item_flat [OF assms(1)] item_flat [OF assms(3)])
  qed
  show ?thesis
    unfolding CombinedTargetMSELoss_joint_def r(1)
    using cls reg [OF i1] reg [OF i2] by (simp add: algebra_simps)
qed

lemma CombinedTargetMSELoss_regular:
  assumes "shape output = [B, C, H, W]" "wf_tensor output"
    and "shape target = [B, C, H, W]" "wf_tensor target"
    and "0 < B" "0 < H * W" "3 \<le> C"
    and "\<not> use_target_weight self \<or>
         (tws = Some tw \<and> shape tw = [B, K] \<and> wf_tensor tw \<and> C div 3 \<le> K
            \<and> (B = 1 \<or> 1 < H * W))"
  shows "CombinedTargetMSELoss_forward self output target tws =
           Inr (Fin (combined_target_reference self B (C div 3) H W output target tw))"
proof -
  let ?J = "C div 3"
  let ?hps = "map (\<lambda>j. \<lparr>shape = [B, 1, H * W], data = column B C [H * W] j (data output)\<rparr>) [0..<C]"
  let ?hgs = "map (\<lambda>j. \<lparr>shape = [B, 1, H * W], data = column B C [H * W] j (data target)\<rparr>) [0..<C]"
  define wt where "wt k b = (if use_target_weight self then data tw ! (b * K + k) else 1)" for k b
  define g where "g k =
       1 / 2 * reference_mse B H W (\<lambda>b h w. item output [b, k * 3, h, w] * wt k b)
                                    (\<lambda>b h w. item target [b, k * 3, h, w] * wt k b)
        + 1 / 2 * reference_mse B H W
                    (\<lambda>b h w. item target [b, k * 3, h, w] * wt k b * item output [b, k * 3 + 1, h, w])
                    (\<lambda>b h w. item target [b, k * 3, h, w] * wt k b * item target [b, k * 3 + 1, h, w])
        + 1 / 2 * reference_mse B H W
                    (\<lambda>b h w. item target [b, k * 3, h, w] * wt k b * item output [b, k * 3 + 2, h, w])
                    (\<lambda>b h w. item target [b, k * 3, h, w] * wt k b * item target [b, k * 3 + 2, h, w])" for k
  have C: "0 < C" and J: "0 < ?J" using assms(7) by simp_all
  have step: "CombinedTargetMSELoss_joint self ?hps ?hgs tws (Fin l) idx = Inr (Fin (l + g idx))"
    if "idx < ?J" for idx l
  proof -
    have i: "idx * 3 + 2 < C" using that by simp
    have w: "\<not> use_target_weight self \<or>
         (tws = Some tw \<and> shape tw = [B, K] \<and> wf_tensor tw \<and> idx < K \<and> (B = 1 \<or> 1 < H * W))"
      using assms(8) that by auto
    show ?thesis
      unfolding g_def
      by (rule combined_joint_value [OF assms(1-6) i w _ refl refl]) (simp add: wt_def)
  qed
  have f: "foldE (CombinedTargetMSELoss_joint self ?hps ?hgs tws) (Fin 0) [0..<?J]
      = Inr (Fin (0 + (\<Sum>k<?J. g k)))"
    using step by (rule foldE_sum)
  have wt_item: "wt k b = (if use_target_weight self then item tw [b, k] else 1)" for k b
  proof (cases "use_target_weight self")
    case True
    then have "shape tw = [B, K]" using assms(8) by simp
    then show ?thesis using True by (simp add: wt_def item2 [of tw B K])
  next
    case False
    then show ?thesis by (simp add: wt_def)
  qed
  have ref: "combined_target_reference self B ?J H W output target tw
      = (\<Sum>k<?J. g k) / real ?J * loss_weight self"
    unfolding combined_target_reference_def Let_def g_def wt_item
    by (simp add: mult.commute [of 3])
  have "reshape3 B C output = Inr \<lparr>shape = [B, C, H * W], data = data output\<rparr>"
    "reshape3 B C target = Inr \<lparr>shape = [B, C, H * W], data = data target\<rparr>"
    using assms(1-5) C by (simp_all add: reshape3_def wf_tensor_def mult.assoc)
  moreover have "split_1_1 \<lparr>shape = [B, C, H * W], data = data output\<rparr> = Inr ?hps"
    "split_1_1 \<lparr>shape = [B, C, H * W], data = data target\<rparr> = Inr ?hgs"
    using C by (simp_all add: split_1_1_def)
  ultimately have "CombinedTargetMSELoss_forward self output target tws
      = Inr (Fin ((\<Sum>k<?J. g k) / real ?J * loss_weight self))"
    unfolding CombinedTargetMSELoss_forward_def
    using assms(1) f J by (simp add: tsize_def ndim_def Let_def)
  then show ?thesis by (simp only: ref)
qed

section \<open>Properties\<close>

text \<open>
  C5. For an output and a target of shape \<open>[B, K, H, W]\<close> with at least one element,
  \<^verbatim>\<open>KeypointMSELoss.forward\<close> without weighting returns the sum of the squared errors
  over all elements, divided by \<open>B * K * H * W\<close>, times the loss weight, whatever the
  weights argument is. With weighting and weights of shape \<open>[B, K]\<close> it returns the same
  mean after the output and the target are both multiplied by the weight of their sample
  and keypoint at every location; the denominator is still \<open>B * K * H * W\<close>.
\<close>

theorem KeypointMSELoss_mean_squared_error:
  assumes "shape output = [B, K, H, W]" "wf_tensor output"
    and "shape target = [B, K, H, W]" "wf_tensor target"
    and "0 < B * K * H * W"
  shows "(\<not> use_target_weight self \<longrightarrow>
          KeypointMSELoss_forward self output target target_weights =
            Inr (Fin ((\<Sum>b<B. \<Sum>k<K. \<Sum>h<H. \<Sum>w<W.
                        (item output [b, k, h, w] - item target [b, k, h, w])\<^sup>2)
                      / real (B * K * H * W) * loss_weight self)))
       \<and> (use_target_weight self \<and> shape tw = [B, K] \<and> wf_tensor tw \<longrightarrow>
          KeypointMSELoss_forward self output target (Some tw) =
            Inr (Fin ((\<Sum>b<B. \<Sum>k<K. \<Sum>h<H. \<Sum>w<W.
                        (item output [b, k, h, w] * item tw [b, k]
                          - item target [b, k, h, w] * item tw [b, k])\<^sup>2)
                      / real (B * K * H * W) * loss_weight self)))"
proof (intro conjI impI)
  let ?N = "B * K * H * W"
  {
    assume nw: "\<not> use_target_weight self"
    have "(\<Sum>i<?N. (data output ! i - data target ! i)\<^sup>2) =
        (\<Sum>b<B. \<Sum>k<K. \<Sum>h<H. \<Sum>w<W.
            (item output [b, k, h, w] - item target [b, k, h, w])\<^sup>2)"
      using assms by (simp only: sum_group4 item4 [of _ B K H W])
    then show "KeypointMSELoss_forward self output target target_weights =
            Inr (Fin ((\<Sum>b<B. \<Sum>k<K. \<Sum>h<H. \<Sum>w<W.
                        (item output [b, k, h, w] - item target [b, k, h, w])\<^sup>2)
                      / real (B * K * H * W) * loss_weight self))"
      using KeypointMSELoss_unweighted_flat [OF assms nw] by simp
  }
  {
    assume w: "use_target_weight self \<and> shape tw = [B, K] \<and> wf_tensor tw"
    have "(\<Sum>i<?N. (data output ! i * data tw ! (i div (H * W))
                     - data target ! i * data tw ! (i div (H * W)))\<^sup>2)
        = (\<Sum>b<B. \<Sum>k<K. \<Sum>h<H. \<Sum>w<W.
                        (item output [b, k, h, w] * item tw [b, k]
                          - item target [b, k, h, w] * item tw [b, k])\<^sup>2)"
      using assms w
      by (simp only: sum_group4 item4 [of _ B K H W] item2 [of _ B K])
         (intro sum.cong refl, simp add: div_index4)
    then show "KeypointMSELoss_forward self output target (Some tw) =
            Inr (Fin ((\<Sum>b<B. \<Sum>k<K. \<Sum>h<H. \<Sum>w<W.
                        (item output [b, k, h, w] * item tw [b, k]
                          - item target [b, k, h, w] * item tw [b, k])\<^sup>2)
                      / real (B * K * H * W) * loss_weight self))"
      using KeypointMSELoss_weighted_flat [OF assms, of self tw] w by simp
  }
qed

theorem KeypointMSELoss_mean_squared_error_witness:
  "wf_tensor \<lparr>shape = [1, 2, 1, 2], data = [1, 2, 3, 4 :: real]\<rparr>
   \<and> wf_tensor \<lparr>shape = [1, 2, 1, 2], data = [0, 0, 0, 1 :: real]\<rparr>
   \<and> wf_tensor \<lparr>shape = [1, 2], data = [1, 0 :: real]\<rparr>
   \<and> KeypointMSELoss_forward \<lparr>use_target_weight = False, loss_weight = 2\<rparr>
        \<lparr>shape = [1, 2, 1, 2], data = [1, 2, 3, 4]\<rparr>
        \<lparr>shape = [1, 2, 1, 2], data = [0, 0, 0, 1]\<rparr> None = Inr (Fin (23 / 2))
   \<and> KeypointMSELoss_forward \<lparr>use_target_weight = True, loss_weight = 2\<rparr>
        \<lparr>shape = [1, 2, 1, 2], data = [1, 2, 3, 4]\<rparr>
        \<lparr>shape = [1, 2, 1, 2], data = [0, 0, 0, 1]\<rparr>
        (Some \<lparr>shape = [1, 2], data = [1, 0]\<rparr>) = Inr (Fin (5 / 2))"
  using KeypointMSELoss_mean_squared_error
    [of "\<lparr>shape = [1, 2, 1, 2], data = [1, 2, 3, 4]\<rparr>" 1 2 1 2
        "\<lparr>shape = [1, 2, 1, 2], data = [0, 0, 0, 1]\<rparr>"
        "\<lparr>use_target_weight = False, loss_weight = 2\<rparr>" None
        "\<lparr>shape = [1, 2], data = [1, 0]\<rparr>"]
    KeypointMSELoss_mean_squared_error
    [of "\<lparr>shape = [1, 2, 1, 2], data = [1, 2, 3, 4]\<rparr>" 1 2 1 2
        "\<lparr>shape = [1, 2, 1, 2], data = [0, 0, 0, 1]\<rparr>"
        "\<lparr>use_target_weight = True, loss_weight = 2\<rparr>" None
        "\<lparr>shape = [1, 2], data = [1, 0]\<rparr>"]
  by (simp add: wf_tensor_def item_def flat_index_def numeral_2_eq_2)

text \<open>
  C8. With weighting enabled and every entry of the weights zero,
  \<^verbatim>\<open>KeypointMSELoss.forward\<close> returns exactly 0 for every output and target of shape
  \<open>[B, K, H, W]\<close> with at least one element.
\<close>

theorem KeypointMSELoss_zero_weights:
  assumes "shape output = [B, K, H, W]" "wf_tensor output"
    and "shape target = [B, K, H, W]" "wf_tensor target"
    and "0 < B * K * H * W" "use_target_weight self"
    and "shape tw = [B, K]" "wf_tensor tw"
    and "list_all (\<lambda>w. w = 0) (data tw)"
  shows "KeypointMSELoss_forward self output target (Some tw) = Inr (Fin 0)"
proof -
  have ltw: "length (data tw) = B * K" using assms by (simp add: wf_tensor_def)
  have "data tw ! (i div (H * W)) = 0" if "i < B * K * H * W" for i
  proof -
    have "i < (B * K) * (H * W)" using that by (simp add: mult.assoc)
    then have "i div (H * W) < B * K" by (simp add: less_mult_imp_div_less)
    then show ?thesis using assms(9) ltw by (simp add: list_all_length)
  qed
  then have "(\<Sum>i<B * K * H * W.
                (data output ! i * data tw ! (i div (H * W))
                   - data target ! i * data tw ! (i div (H * W)))\<^sup>2) = 0"
    by simp
  then show ?thesis
    using KeypointMSELoss_weighted_flat [OF assms(1-8)] by simp
qed

theorem KeypointMSELoss_zero_weights_witness:
  "wf_tensor \<lparr>shape = [1, 2, 1, 2], data = [1, 2, 3, 4 :: real]\<rparr>
   \<and> wf_tensor \<lparr>shape = [1, 2, 1, 2], data = [0, 0, 0, 1 :: real]\<rparr>
   \<and> wf_tensor \<lparr>shape = [1, 2], data = [0, 0 :: real]\<rparr>
   \<and> list_all (\<lambda>w. w = 0) [0, 0 :: real]
   \<and> KeypointMSELoss_forward \<lparr>use_target_weight = True, loss_weight = 2\<rparr>
        \<lparr>shape = [1, 2, 1, 2], data = [1, 2, 3, 4]\<rparr>
        \<lparr>shape = [1, 2, 1, 2], data = [0, 0, 0, 1]\<rparr>
        (Some \<lparr>shape = [1, 2], data = [0, 0]\<rparr>) = Inr (Fin 0)"
  using KeypointMSELoss_zero_weights
    [of "\<lparr>shape = [1, 2, 1, 2], data = [1, 2, 3, 4]\<rparr>" 1 2 1 2
        "\<lparr>shape = [1, 2, 1, 2], data = [0, 0, 0, 1]\<rparr>"
        "\<lparr>use_target_weight = True, loss_weight = 2\<rparr>"
        "\<lparr>shape = [1, 2], data = [0, 0]\<rparr>"]
  by (simp add: wf_tensor_def)

text \<open>
  C9. For \<^verbatim>\<open>KeypointMSELoss\<close>, \<^verbatim>\<open>CombinedTargetMSELoss\<close> and \<^verbatim>\<open>KeypointOHKMMSELoss\<close> the
  result with loss weight \<open>c\<close> is the result with loss weight 1 on the same inputs
  multiplied by \<open>c\<close> (an exception stays the same exception); in particular the result
  with loss weight 2 is twice the result with loss weight 1.
\<close>

theorem loss_weight_scaling:
  "KeypointMSELoss_forward (m\<lparr>loss_weight := c\<rparr>) output target tws
     = scaled c (KeypointMSELoss_forward (m\<lparr>loss_weight := 1\<rparr>) output target tws)
   \<and> CombinedTargetMSELoss_forward (m\<lparr>loss_weight := c\<rparr>) output target tws
     = scaled c (CombinedTargetMSELoss_forward (m\<lparr>loss_weight := 1\<rparr>) output target tws)
   \<and> KeypointOHKMMSELoss_forward (om\<lparr>loss_weight := c\<rparr>) output target tws
     = scaled c (KeypointOHKMMSELoss_forward (om\<lparr>loss_weight := 1\<rparr>) output target tws)
   \<and> KeypointMSELoss_forward (m\<lparr>loss_weight := 2\<rparr>) output target tws
     = scaled 2 (KeypointMSELoss_forward (m\<lparr>loss_weight := 1\<rparr>) output target tws)
   \<and> CombinedTargetMSELoss_forward (m\<lparr>loss_weight := 2\<rparr>) output target tws
     = scaled 2 (CombinedTargetMSELoss_forward (m\<lparr>loss_weight := 1\<rparr>) output target tws)
   \<and> KeypointOHKMMSELoss_forward (om\<lparr>loss_weight := 2\<rparr>) output target tws
     = scaled 2 (KeypointOHKMMSELoss_forward (om\<lparr>loss_weight := 1\<rparr>) output target tws)"
  by (intro conjI KeypointMSELoss_scaled CombinedTargetMSELoss_scaled KeypointOHKMMSELoss_scaled)

text \<open>
  C2. When the keypoint dimension \<open>K\<close> of the output is smaller than \<open>topk\<close>,
  \<^verbatim>\<open>KeypointOHKMMSELoss.forward\<close> raises \<^verbatim>\<open>ValueError\<close> (the specification's
  configuration error). The check is the first statement after reading \<open>K\<close>: the error
  is the result for every target and every weights argument, also for those on which
  the loss computation itself would fail, and no value is returned for a smaller \<open>k\<close>.
\<close>

theorem OHKM_topk_exceeds_keypoints:
  "tsize output 1 = Inr K \<Longrightarrow> K < topk self \<Longrightarrow>
   KeypointOHKMMSELoss_forward self output target target_weights = Inl ValueError"
  by (simp add: KeypointOHKMMSELoss_forward_def bindE_def)

theorem OHKM_topk_exceeds_keypoints_witness:
  "tsize \<lparr>shape = [1, 2, 1, 2], data = [1, 2, 3, 4 :: real]\<rparr> 1 = Inr 2
   \<and> 2 < topk \<lparr>use_target_weight = False, loss_weight = 1, topk = 3\<rparr>
   \<and> KeypointOHKMMSELoss_forward \<lparr>use_target_weight = False, loss_weight = 1, topk = 3\<rparr>
        \<lparr>shape = [1, 2, 1, 2], data = [1, 2, 3, 4]\<rparr>
        \<lparr>shape = [1, 2, 1, 2], data = [0, 0, 0, 1]\<rparr> None = Inl ValueError"
  using OHKM_topk_exceeds_keypoints
    [of "\<lparr>shape = [1, 2, 1, 2], data = [1, 2, 3, 4]\<rparr>" 2
        "\<lparr>use_target_weight = False, loss_weight = 1, topk = 3\<rparr>"
        "\<lparr>shape = [1, 2, 1, 2], data = [0, 0, 0, 1]\<rparr>" None]
  by (simp add: tsize_def ndim_def)

text \<open>
  C6. With weighting enabled and \<open>target_weights\<close> absent, \<^verbatim>\<open>KeypointMSELoss.forward\<close>
  fails and returns no value: the first assertion of the weighted branch raises
  \<^verbatim>\<open>AssertionError\<close>, whatever the output and the target are. The specification calls
  this failure a shape error.
\<close>

theorem KeypointMSELoss_missing_weights:
  "use_target_weight self \<Longrightarrow>
   KeypointMSELoss_forward self output target None = Inl AssertionError"
  by (simp add: KeypointMSELoss_forward_def)

theorem KeypointMSELoss_missing_weights_witness:
  "use_target_weight \<lparr>use_target_weight = True, loss_weight = 1\<rparr> \<and>
   KeypointMSELoss_forward \<lparr>use_target_weight = True, loss_weight = 1\<rparr>
     \<lparr>shape = [1, 1, 1, 2], data = [1, 2]\<rparr> \<lparr>shape = [1, 1, 1, 2], data = [0, 0]\<rparr> None
   = Inl AssertionError"
  using KeypointMSELoss_missing_weights
    [of "\<lparr>use_target_weight = True, loss_weight = 1\<rparr>"
        "\<lparr>shape = [1, 1, 1, 2], data = [1, 2]\<rparr>" "\<lparr>shape = [1, 1, 1, 2], data = [0, 0]\<rparr>"]
  by simp




text \<open>
  C4. \<^verbatim>\<open>CombinedTargetIOULoss.forward\<close> does not construct the boxes the claim describes:
  it returns no value on any input. The location step can only leave the box lists as
  they are or raise (the second box of a location needs \<^verbatim>\<open>1 - mask\<close> on a boolean mask),
  the concatenation of an empty box list raises, and without a keypoint the final
  division raises. Two inputs are evaluated. With a batch of two whose first sample has
  a zero classification value at the first location and whose second sample has not, the
  location is not excluded for the first sample and kept for the second: the test
  raises \<^verbatim>\<open>RuntimeError\<close>. With a batch of one, weights, and a non-zero location with
  offsets \<open>1\<close> and \<open>-1\<close>, no box is built: the batch dimension was squeezed away and
  indexing the offset map raises \<^verbatim>\<open>IndexError\<close>.
\<close>

theorem CombinedTargetIOULoss_no_boxes:
  "isl (CombinedTargetIOULoss_forward self iou_loss output target target_weights)
   \<and> CombinedTargetIOULoss_forward \<lparr>use_target_weight = False, loss_weight = 1\<rparr>
        (\<lambda>p g. Inr (Fin 0))
        \<lparr>shape = [2, 3, 1, 2], data = [1, 1, 1, 1, 1, 1, 1, 1, 1, 1, 1, 1]\<rparr>
        \<lparr>shape = [2, 3, 1, 2], data = [0, 1, 1, 1, 1, 1, 1, 1, 1, 1, 1, 1]\<rparr> None
       = Inl RuntimeError
   \<and> CombinedTargetIOULoss_forward \<lparr>use_target_weight = True, loss_weight = 1\<rparr>
        (\<lambda>p g. Inr (Fin 0))
        \<lparr>shape = [1, 3, 1, 2], data = [1, 1, 1, 1, 1, 1]\<rparr>
        \<lparr>shape = [1, 3, 1, 2], data = [1, 1, 1, 1, - 1, 1]\<rparr>
        (Some \<lparr>shape = [1, 1], data = [1]\<rparr>)
       = Inl IndexError"
proof (intro conjI)
  show "isl (CombinedTargetIOULoss_forward self iou_loss output target target_weights)"
    by (rule IOU_forward_always_fails)
  show "CombinedTargetIOULoss_forward \<lparr>use_target_weight = False, loss_weight = 1\<rparr>
        (\<lambda>p g. Inr (Fin 0))
        \<lparr>shape = [2, 3, 1, 2], data = [1, 1, 1, 1, 1, 1, 1, 1, 1, 1, 1, 1]\<rparr>
        \<lparr>shape = [2, 3, 1, 2], data = [0, 1, 1, 1, 1, 1, 1, 1, 1, 1, 1, 1]\<rparr> None
       = Inl RuntimeError"
    by code_simp
  show "CombinedTargetIOULoss_forward \<lparr>use_target_weight = True, loss_weight = 1\<rparr>
        (\<lambda>p g. Inr (Fin 0))
        \<lparr>shape = [1, 3, 1, 2], data = [1, 1, 1, 1, 1, 1]\<rparr>
        \<lparr>shape = [1, 3, 1, 2], data = [1, 1, 1, 1, - 1, 1]\<rparr>
        (Some \<lparr>shape = [1, 1], data = [1]\<rparr>)
       = Inl IndexError"
    by code_simp
qed

text \<open>
  C7. For an output and a target of shape \<open>[B, C, H, W]\<close> with at least one sample and
  one location (and weights, when weighting is enabled, of shape \<open>[B, K]\<close> with a column
  for every keypoint): if every value of every ground-truth classification channel
  \<open>3 * k\<close> is zero, then both regression terms of every keypoint are exactly 0, and
  \<^verbatim>\<open>CombinedTargetMSELoss.forward\<close> returns what the classification term alone gives.
\<close>

theorem CombinedTargetMSELoss_zero_classification_map:
  assumes "shape output = [B, C, H, W]" "wf_tensor output"
    and "shape target = [B, C, H, W]" "wf_tensor target"
    and "0 < B" "0 < H * W"
    and "\<not> use_target_weight self \<or>
         (\<exists>tw K. target_weights = Some tw \<and> shape tw = [B, K] \<and> wf_tensor tw \<and> C div 3 \<le> K)"
    and "\<forall>b<B. \<forall>k<C div 3. \<forall>h<H. \<forall>w<W. item target [b, 3 * k, h, w] = 0"
  shows "CombinedTargetMSELoss_forward self output target target_weights
           = classification_term self output target target_weights
       \<and> (\<forall>hps hgs. bindE (reshape3 B C output) split_1_1 = Inr hps \<and>
                     bindE (reshape3 B C target) split_1_1 = Inr hgs \<longrightarrow>
            (\<forall>k<C div 3. \<exists>hp hg oxp oxg oyp oyg.
               joint_maps self hps hgs target_weights k = Inr ((hp, hg), (oxp, oxg), (oyp, oyg))
               \<and> regression_loss hg oxp oxg = Inr (Fin 0)
               \<and> regression_loss hg oyp oyg = Inr (Fin 0)))"
proof (intro conjI allI impI)
  fix hps hgs k
  assume s: "bindE (reshape3 B C output) split_1_1 = Inr hps \<and>
             bindE (reshape3 B C target) split_1_1 = Inr hgs" and k: "k < C div 3"
  show "\<exists>hp hg oxp oxg oyp oyg.
          joint_maps self hps hgs target_weights k = Inr ((hp, hg), (oxp, oxg), (oyp, oyg))
          \<and> regression_loss hg oxp oxg = Inr (Fin 0)
          \<and> regression_loss hg oyp oyg = Inr (Fin 0)"
    using regression_terms_zero [OF assms(1-6) k assms(7,8) conjunct1 [OF s] conjunct2 [OF s]]
    by metis
next
  show "CombinedTargetMSELoss_forward self output target target_weights
           = classification_term self output target target_weights"
  proof (cases "C = 0")
    case True
    then have "reshape3 B C output = Inl RuntimeError" by (simp add: reshape3_def)
    then show ?thesis
      using assms(1)
      by (simp add: CombinedTargetMSELoss_forward_def classification_term_def tsize_def ndim_def)
  next
    case False
    then have C: "0 < C" by simp
    let ?hps = "map (\<lambda>j. \<lparr>shape = [B, 1, H * W], data = column B C [H * W] j (data output)\<rparr>) [0..<C]"
    let ?hgs = "map (\<lambda>j. \<lparr>shape = [B, 1, H * W], data = column B C [H * W] j (data target)\<rparr>) [0..<C]"
    have so: "bindE (reshape3 B C output) split_1_1 = Inr ?hps"
      using assms(1,2,5) C by (rule split_channels)
    have st: "bindE (reshape3 B C target) split_1_1 = Inr ?hgs"
      using assms(3,4,5) C by (rule split_channels)
    have "CombinedTargetMSELoss_joint self ?hps ?hgs target_weights loss idx
            = classification_joint self ?hps ?hgs target_weights loss idx"
      if "idx \<in> set [0..<C div 3]" for idx loss
    proof -
      have k: "idx < C div 3" using that by simp
      obtain hp hg oxp oxg oyp oyg where
        "joint_maps self ?hps ?hgs target_weights idx = Inr ((hp, hg), (oxp, oxg), (oyp, oyg))"
        "regression_loss hg oxp oxg = Inr (Fin 0)" "regression_loss hg oyp oyg = Inr (Fin 0)"
        using regression_terms_zero [OF assms(1-6) k assms(7,8) so st] by metis
      then show ?thesis by (rule joint_without_regression)
    qed
    then have f: "foldE (CombinedTargetMSELoss_joint self ?hps ?hgs target_weights) (Fin 0) [0..<C div 3]
        = foldE (classification_joint self ?hps ?hgs target_weights) (Fin 0) [0..<C div 3]"
      by (rule foldE_cong)
    have "reshape3 B C output = Inr \<lparr>shape = [B, C, H * W], data = data output\<rparr>"
      "reshape3 B C target = Inr \<lparr>shape = [B, C, H * W], data = data target\<rparr>"
      using assms(1-5) C by (simp_all add: reshape3_def wf_tensor_def mult.assoc)
    moreover have "split_1_1 \<lparr>shape = [B, C, H * W], data = data output\<rparr> = Inr ?hps"
      "split_1_1 \<lparr>shape = [B, C, H * W], data = data target\<rparr> = Inr ?hgs"
      using C by (simp_all add: split_1_1_def)
    ultimately show ?thesis
      unfolding CombinedTargetMSELoss_forward_def classification_term_def
      using assms(1) f by (simp add: tsize_def ndim_def Let_def)
  qed
qed

theorem CombinedTargetMSELoss_zero_classification_map_witness:
  "wf_tensor \<lparr>shape = [2, 3, 1, 2], data = [1, 2, 3, 4, 5, 6, 7, 8, 9, 10, 11, 12 :: real]\<rparr>
   \<and> wf_tensor \<lparr>shape = [2, 3, 1, 2], data = [0, 0, 1, 2, 3, 4, 0, 0, 5, 6, 7, 8 :: real]\<rparr>
   \<and> wf_tensor \<lparr>shape = [2, 1], data = [1, 2 :: real]\<rparr>
   \<and> CombinedTargetMSELoss_forward \<lparr>use_target_weight = True, loss_weight = 1\<rparr>
        \<lparr>shape = [2, 3, 1, 2], data = [1, 2, 3, 4, 5, 6, 7, 8, 9, 10, 11, 12]\<rparr>
        \<lparr>shape = [2, 3, 1, 2], data = [0, 0, 1, 2, 3, 4, 0, 0, 5, 6, 7, 8]\<rparr>
        (Some \<lparr>shape = [2, 1], data = [1, 2]\<rparr>)
     = classification_term \<lparr>use_target_weight = True, loss_weight = 1\<rparr>
        \<lparr>shape = [2, 3, 1, 2], data = [1, 2, 3, 4, 5, 6, 7, 8, 9, 10, 11, 12]\<rparr>
        \<lparr>shape = [2, 3, 1, 2], data = [0, 0, 1, 2, 3, 4, 0, 0, 5, 6, 7, 8]\<rparr>
        (Some \<lparr>shape = [2, 1], data = [1, 2]\<rparr>)
   \<and> classification_term \<lparr>use_target_weight = True, loss_weight = 1\<rparr>
        \<lparr>shape = [2, 3, 1, 2], data = [1, 2, 3, 4, 5, 6, 7, 8, 9, 10, 11, 12]\<rparr>
        \<lparr>shape = [2, 3, 1, 2], data = [0, 0, 1, 2, 3, 4, 0, 0, 5, 6, 7, 8]\<rparr>
        (Some \<lparr>shape = [2, 1], data = [1, 2]\<rparr>) = Inr (Fin (457 / 8))"
proof -
  have c: "classification_term \<lparr>use_target_weight = True, loss_weight = 1\<rparr>
        \<lparr>shape = [2, 3, 1, 2], data = [1, 2, 3, 4, 5, 6, 7, 8, 9, 10, 11, 12]\<rparr>
        \<lparr>shape = [2, 3, 1, 2], data = [0, 0, 1, 2, 3, 4, 0, 0, 5, 6, 7, 8]\<rparr>
        (Some \<lparr>shape = [2, 1], data = [1, 2]\<rparr>) = Inr (Fin (457 / 8))"
    by code_simp
  have z: "\<forall>b<2. \<forall>k<3 div 3. \<forall>h<1. \<forall>w<2.
      item \<lparr>shape = [2, 3, 1, 2], data = [0, 0, 1, 2, 3, 4, 0, 0, 5, 6, 7, 8 :: real]\<rparr>
        [b, 3 * k, h, w] = 0"
    by (simp add: item_def flat_index_def numeral_2_eq_2 less_Suc_eq)
  show ?thesis
    using CombinedTargetMSELoss_zero_classification_map
      [of "\<lparr>shape = [2, 3, 1, 2], data = [1, 2, 3, 4, 5, 6, 7, 8, 9, 10, 11, 12]\<rparr>" 2 3 1 2
          "\<lparr>shape = [2, 3, 1, 2], data = [0, 0, 1, 2, 3, 4, 0, 0, 5, 6, 7, 8]\<rparr>"
          "\<lparr>use_target_weight = True, loss_weight = 1\<rparr>"
          "Some \<lparr>shape = [2, 1], data = [1, 2]\<rparr>"] z c
    by (simp add: wf_tensor_def)
qed

text \<open>
  C3. On an input whose heatmaps have a single location (\<open>H = W = 1\<close>) and a batch of
  two, with weighting enabled, \<^verbatim>\<open>CombinedTargetMSELoss.forward\<close> does not compute the
  loss the claim describes. \<^verbatim>\<open>squeeze()\<close> removes the location dimension together with
  the channel dimension, the classification maps have shape \<open>[B]\<close>, and their product with
  the weights of shape \<open>[B, 1]\<close> is the \<open>[B, B]\<close> table of every sample's value times every
  sample's weight. Here the only error is in sample 1, whose weight is 0: the loss of
  the claim is 0, the code returns \<open>1 / 8\<close>. On every other shape the code computes
  the loss of the claim (lemma \<open>CombinedTargetMSELoss_regular\<close>).
\<close>

theorem CombinedTargetMSELoss_single_location_weighted:
  "CombinedTargetMSELoss_forward \<lparr>use_target_weight = True, loss_weight = 1\<rparr>
      \<lparr>shape = [2, 3, 1, 1], data = [0, 0, 0, 1, 0, 0]\<rparr>
      \<lparr>shape = [2, 3, 1, 1], data = [0, 0, 0, 0, 0, 0]\<rparr>
      (Some \<lparr>shape = [2, 1], data = [1, 0]\<rparr>) = Inr (Fin (1 / 8))
   \<and> combined_target_reference \<lparr>use_target_weight = True, loss_weight = 1\<rparr> 2 1 1 1
      \<lparr>shape = [2, 3, 1, 1], data = [0, 0, 0, 1, 0, 0]\<rparr>
      \<lparr>shape = [2, 3, 1, 1], data = [0, 0, 0, 0, 0, 0]\<rparr>
      \<lparr>shape = [2, 1], data = [1, 0]\<rparr> = 0"
proof
  show "CombinedTargetMSELoss_forward \<lparr>use_target_weight = True, loss_weight = 1\<rparr>
      \<lparr>shape = [2, 3, 1, 1], data = [0, 0, 0, 1, 0, 0]\<rparr>
      \<lparr>shape = [2, 3, 1, 1], data = [0, 0, 0, 0, 0, 0]\<rparr>
      (Some \<lparr>shape = [2, 1], data = [1, 0]\<rparr>) = Inr (Fin (1 / 8))"
    by code_simp
  show "combined_target_reference \<lparr>use_target_weight = True, loss_weight = 1\<rparr> 2 1 1 1
      \<lparr>shape = [2, 3, 1, 1], data = [0, 0, 0, 1, 0, 0]\<rparr>
      \<lparr>shape = [2, 3, 1, 1], data = [0, 0, 0, 0, 0, 0]\<rparr>
      \<lparr>shape = [2, 1], data = [1, 0]\<rparr> = 0"
    by code_simp
qed



end
